(* ===== verification/Prelude.thy ===== *)
theory Prelude
  imports Main "HOL-Library.Word"
begin

section \<open>Prelude: machine integers, results, text and generic lemmas\<close>

text \<open>
  What every component of the model shares: the names of Rust's integer types, the
  \<open>Result\<close> type with the \<open>?\<close> operator and \<open>map_err\<close>, the checked and saturating
  operations of \<open>core::num\<close> the sources call, decimal printing (\<open>format!("{}")\<close>) and
  parsing (\<open>str::parse::<usize>\<close>) of integers, and the lemma collections
  \<open>result_simps\<close>, \<open>guard_simps\<close> and \<open>word_facts\<close> the component theories add to.
  The release profile of the crate compiles \<open>+\<close>, \<open>-\<close>, \<open>*\<close> on machine integers to
  the wrapping operation, which is what \<open>+\<close>, \<open>-\<close>, \<open>*\<close> on words are.
\<close>

named_theorems result_simps \<open>rewriting of results and of the ? operator\<close>
named_theorems guard_simps \<open>what a guard of the program accepts\<close>
named_theorems word_facts \<open>reading machine integers as natural numbers\<close>

subsection \<open>Types\<close>

type_synonym u8 = "8 word"
type_synonym u32 = "32 word"
type_synonym u64 = "64 word"
type_synonym u128 = "128 word"
type_synonym u256 = "256 word"
type_synonym usize = "64 word"

text \<open>\<open>B256\<close> and \<open>Address\<close> are byte arrays, compared byte by byte.\<close>

type_synonym b256 = "u8 list"
type_synonym address = "u8 list"
type_synonym bytes = "u8 list"

definition B256_ZERO :: b256 where
  "B256_ZERO = replicate 32 0"

definition ADDRESS_ZERO :: address where
  "ADDRESS_ZERO = replicate 20 0"

subsection \<open>Results\<close>

text \<open>\<open>Err e\<close> is \<open>Inl e\<close>, \<open>Ok a\<close> is \<open>Inr a\<close>. \<open>rbind\<close> is the \<open>?\<close> operator.\<close>

fun rbind :: "'e + 'a \<Rightarrow> ('a \<Rightarrow> 'e + 'b) \<Rightarrow> 'e + 'b" where
  "rbind (Inl e) f = Inl e"
| "rbind (Inr a) f = f a"

fun map_err :: "('e \<Rightarrow> 'f) \<Rightarrow> 'e + 'a \<Rightarrow> 'f + 'a" where
  "map_err f (Inl e) = Inl (f e)"
| "map_err f (Inr a) = Inr a"

fun is_ok :: "'e + 'a \<Rightarrow> bool" where
  "is_ok (Inl e) = False"
| "is_ok (Inr a) = True"

lemma rbind_eq_Inr [result_simps]:
  "rbind r f = Inr b \<longleftrightarrow> (\<exists>a. r = Inr a \<and> f a = Inr b)"
  by (cases r) auto

lemma rbind_eq_Inl [result_simps]:
  "rbind r f = Inl e \<longleftrightarrow> r = Inl e \<or> (\<exists>a. r = Inr a \<and> f a = Inl e)"
  by (cases r) auto

lemma map_err_eq_Inr [result_simps]: "map_err f r = Inr a \<longleftrightarrow> r = Inr a"
  by (cases r) auto

lemma map_err_eq_Inl [result_simps]: "map_err f r = Inl e' \<longleftrightarrow> (\<exists>e. r = Inl e \<and> e' = f e)"
  by (cases r) auto

lemma is_ok_iff [result_simps]: "is_ok r \<longleftrightarrow> (\<exists>a. r = Inr a)"
  by (cases r) auto

lemma not_ok_iff: "\<not> is_ok r \<longleftrightarrow> (\<exists>e. r = Inl e)"
  by (cases r) auto

lemma is_ok_map_err [simp]: "is_ok (map_err f r) = is_ok r"
  by (cases r) auto

lemma result_unit_cases: "r = Inr () \<or> (\<exists>e. r = Inl e)"
  by (cases r) auto

subsection \<open>Integer operations of the standard library\<close>

definition saturating_mul :: "'a::len word \<Rightarrow> 'a word \<Rightarrow> 'a word" where
  "saturating_mul a b = (if unat a * unat b < 2 ^ LENGTH('a) then a * b else - 1)"

definition saturating_sub :: "'a::len word \<Rightarrow> 'a word \<Rightarrow> 'a word" where
  "saturating_sub a b = (if b \<le> a then a - b else 0)"

definition checked_mul :: "'a::len word \<Rightarrow> 'a word \<Rightarrow> 'a word option" where
  "checked_mul a b = (if unat a * unat b < 2 ^ LENGTH('a) then Some (a * b) else None)"

definition checked_add :: "'a::len word \<Rightarrow> 'a word \<Rightarrow> 'a word option" where
  "checked_add a b = (if unat a + unat b < 2 ^ LENGTH('a) then Some (a + b) else None)"

definition checked_div :: "'a::len word \<Rightarrow> 'a word \<Rightarrow> 'a word option" where
  "checked_div a b = (if b = 0 then None else Some (a div b))"

text \<open>\<open>Vec::len\<close> and \<open>slice::len\<close> as a \<open>usize\<close> (and, by \<open>as u64\<close>, as a \<open>u64\<close>).\<close>

definition vlen :: "'a list \<Rightarrow> usize" where
  "vlen xs = of_nat (length xs)"

lemma unat_saturating_mul [word_facts]:
  fixes a b :: "'a::len word"
  shows "unat (saturating_mul a b) = min (unat a * unat b) (2 ^ LENGTH('a) - 1)"
proof (cases "unat a * unat b < 2 ^ LENGTH('a)")
  case True
  then show ?thesis
    by (simp add: saturating_mul_def unat_mult_lem [THEN iffD1])
next
  case False
  have "unat (- 1 :: 'a word) = 2 ^ LENGTH('a) - 1"
    by (simp add: unsigned_minus_1_eq_mask mask_eq_exp_minus_1)
  with False show ?thesis by (simp add: saturating_mul_def)
qed

lemma unat_saturating_sub [word_facts]: "unat (saturating_sub a b) = unat a - unat b"
  by (simp add: saturating_sub_def unat_sub word_le_nat_alt)

lemma unat_vlen: "length xs < 2 ^ 64 \<Longrightarrow> unat (vlen xs) = length xs"
  by (simp add: vlen_def unat_of_nat)

lemma unat_add_no_overflow:
  fixes a b :: "'a::len word"
  shows "unat a + unat b < 2 ^ LENGTH('a) \<Longrightarrow> unat (a + b) = unat a + unat b"
  by (simp add: unat_add_lem [THEN iffD1])

lemma unat_add_le: "unat (a + b) \<le> unat a + unat b"
  by (simp add: unat_word_ariths)

lemma less_plus_1_iff: "(x :: 'a::len word) < x + 1 \<longleftrightarrow> x \<noteq> - 1"
proof (cases "x = - 1")
  case False
  then have "unat x \<noteq> 2 ^ LENGTH('a) - 1"
    by (metis unsigned_minus_1_eq_mask mask_eq_exp_minus_1 word_unat_eq_iff)
  moreover have "unat x < 2 ^ LENGTH('a)" by (rule unsigned_less)
  ultimately have "unat x + 1 < 2 ^ LENGTH('a)" by linarith
  then have "unat (x + 1) = unat x + 1"
    using unat_add_no_overflow [of x 1] by simp
  with False show ?thesis by (simp add: word_less_nat_alt)
qed simp

lemma unat_less_2_64: "unat (x :: 64 word) < 2 ^ 64"
  using unsigned_less [of x] by simp

lemma unat_less_2_128: "unat (x :: 128 word) < 2 ^ 128"
  using unsigned_less [of x] by simp

subsection \<open>Decimal text\<close>

definition digit_char :: "nat \<Rightarrow> char" where
  "digit_char d = char_of (48 + d)"

fun show_nat :: "nat \<Rightarrow> string" where
  "show_nat n = (if n < 10 then [digit_char n] else show_nat (n div 10) @ [digit_char (n mod 10)])"

declare show_nat.simps [simp del]

text \<open>\<open>format!("{}", x)\<close> for an unsigned machine integer.\<close>

definition show_word :: "'a::len word \<Rightarrow> string" where
  "show_word w = show_nat (unat w)"

datatype int_error = IntEmpty | IntInvalidDigit | IntPosOverflow

definition char_digit :: "char \<Rightarrow> nat option" where
  "char_digit c = (let k = of_char c :: nat in if 48 \<le> k \<and> k \<le> 57 then Some (k - 48) else None)"

fun parse_digits :: "string \<Rightarrow> usize \<Rightarrow> int_error + usize" where
  "parse_digits [] acc = Inr acc"
| "parse_digits (c # cs) acc =
     (case char_digit c of
        None \<Rightarrow> Inl IntInvalidDigit
      | Some d \<Rightarrow>
          (case checked_mul acc 10 of
             None \<Rightarrow> Inl IntPosOverflow
           | Some m \<Rightarrow>
               (case checked_add m (of_nat d) of
                  None \<Rightarrow> Inl IntPosOverflow
                | Some r \<Rightarrow> parse_digits cs r)))"

text \<open>
  \<open><usize as FromStr>::from_str\<close>: an empty string is an error, one leading plus sign is
  skipped unless it is the whole string, every other character must be a digit.
\<close>

definition parse_usize :: "string \<Rightarrow> int_error + usize" where
  "parse_usize s =
     (case s of
        [] \<Rightarrow> Inl IntEmpty
      | c # cs \<Rightarrow>
          if cs = [] \<and> (c = CHR ''+'' \<or> c = CHR ''-'') then Inl IntInvalidDigit
          else if c = CHR ''+'' then parse_digits cs 0
          else parse_digits s 0)"

lemma char_digit_digit_char: "d < 10 \<Longrightarrow> char_digit (digit_char d) = Some d"
  by (simp add: char_digit_def digit_char_def Let_def)

lemma digit_char_not_sign:
  assumes "d < 10"
  shows "digit_char d \<noteq> CHR ''+'' \<and> digit_char d \<noteq> CHR ''-''"
proof -
  have "char_digit (CHR ''+'') = None" "char_digit (CHR ''-'') = None"
    by (simp_all add: char_digit_def)
  with char_digit_digit_char [OF assms] show ?thesis by (metis option.distinct(1))
qed

lemma show_nat_digits: "\<exists>ds. show_nat n = map digit_char ds \<and> ds \<noteq> [] \<and> (\<forall>d \<in> set ds. d < 10)"
proof (induction n rule: show_nat.induct)
  case (1 n)
  show ?case
  proof (cases "n < 10")
    case True
    then show ?thesis by (subst show_nat.simps) (auto intro!: exI [of _ "[n]"])
  next
    case False
    with "1.IH" obtain ds where "show_nat (n div 10) = map digit_char ds" "\<forall>d \<in> set ds. d < 10"
      by auto
    with False show ?thesis
      by (subst show_nat.simps) (auto intro!: exI [of _ "ds @ [n mod 10]"])
  qed
qed

lemma parse_digits_append:
  "parse_digits (xs @ ys) acc = rbind (parse_digits xs acc) (parse_digits ys)"
  by (induction xs acc rule: parse_digits.induct) (auto split: option.splits)

lemma checked_mul_of_nat:
  assumes "a * b < 2 ^ LENGTH('a)"
  shows "checked_mul (of_nat a) (of_nat b :: 'a::len word) = Some (of_nat (a * b))"
proof (cases "a = 0 \<or> b = 0")
  case False
  with assms have "a < 2 ^ LENGTH('a)" "b < 2 ^ LENGTH('a)"
    using le_less_trans [of a "a * b" "2 ^ LENGTH('a)"] le_less_trans [of b "a * b" "2 ^ LENGTH('a)"]
    by simp_all
  with assms show ?thesis by (simp add: checked_mul_def unat_of_nat)
qed (auto simp: checked_mul_def)

lemma checked_add_of_nat:
  assumes "a + b < 2 ^ LENGTH('a)"
  shows "checked_add (of_nat a) (of_nat b :: 'a::len word) = Some (of_nat (a + b))"
  using assms by (simp add: checked_add_def unat_of_nat)

lemma parse_digits_snoc:
  assumes xs: "parse_digits xs 0 = Inr (of_nat k)" and d: "d < 10" and n: "k * 10 + d < 2 ^ 64"
  shows "parse_digits (xs @ [digit_char d]) 0 = Inr (of_nat (k * 10 + d))"
proof -
  have m: "checked_mul (of_nat k) 10 = Some (of_nat (k * 10) :: usize)"
    using checked_mul_of_nat [of k 10, where 'a = 64] n by simp
  have a: "checked_add (of_nat (k * 10)) (of_nat d) = Some (of_nat (k * 10 + d) :: usize)"
    using checked_add_of_nat [of "k * 10" d, where 'a = 64] n by simp
  show ?thesis
    by (simp only: parse_digits_append xs rbind.simps parse_digits.simps
        char_digit_digit_char [OF d] m a option.case)
qed

lemma parse_digits_show_nat: "n < 2 ^ 64 \<Longrightarrow> parse_digits (show_nat n) 0 = Inr (of_nat n)"
proof (induction n rule: show_nat.induct)
  case (1 n)
  show ?case
  proof (cases "n < 10")
    case True
    then show ?thesis using parse_digits_snoc [of "[]" 0 n] by (subst show_nat.simps) simp
  next
    case False
    have "(n div 10) * 10 + n mod 10 = n" by simp
    with False 1 parse_digits_snoc [of "show_nat (n div 10)" "n div 10" "n mod 10"]
    show ?thesis by (subst show_nat.simps) simp
  qed
qed

lemma parse_usize_show_nat: "n < 2 ^ 64 \<Longrightarrow> parse_usize (show_nat n) = Inr (of_nat n)"
proof -
  assume n: "n < 2 ^ 64"
  obtain ds where ds: "show_nat n = map digit_char ds" "ds \<noteq> []" "\<forall>d \<in> set ds. d < 10"
    using show_nat_digits by blast
  then obtain d ds' where "ds = d # ds'" by (cases ds) auto
  with ds have "show_nat n = digit_char d # map digit_char ds'" "d < 10" by auto
  with parse_digits_show_nat [OF n] digit_char_not_sign [OF \<open>d < 10\<close>]
  show ?thesis by (auto simp: parse_usize_def)
qed

lemma parse_usize_show_word: "parse_usize (show_word w) = Inr w"
  using parse_usize_show_nat [of "unat w"] unat_less_2_64 [of w] by (simp add: show_word_def)

text \<open>
  What \<open>parse_usize\<close> is for, stated without machine arithmetic: the natural number a text
  denotes, if it is a nonempty sequence of decimal digits with at most one leading plus sign.
\<close>

definition decimal_value :: "nat \<Rightarrow> string \<Rightarrow> nat" where
  "decimal_value = foldl (\<lambda>n c. 10 * n + the (char_digit c))"

definition number_of_text :: "string \<Rightarrow> nat option" where
  "number_of_text s =
     (let digits = (if take 1 s = ''+'' then drop 1 s else s)
      in if digits \<noteq> [] \<and> list_all (\<lambda>c. char_digit c \<noteq> None) digits
         then Some (decimal_value 0 digits) else None)"

lemma decimal_value_ge: "n \<le> decimal_value n cs"
proof (induction cs arbitrary: n)
  case (Cons c cs)
  have "n \<le> 10 * n + the (char_digit c)" by simp
  also have "\<dots> \<le> decimal_value (10 * n + the (char_digit c)) cs" by (rule Cons)
  finally show ?case by (simp add: decimal_value_def)
qed (simp add: decimal_value_def)

lemma parse_digit:
  assumes "char_digit c = Some d"
  shows "parse_digits (c # cs) acc =
    (if 10 * unat acc + d < 2 ^ 64 then parse_digits cs (of_nat (10 * unat acc + d)) else Inl IntPosOverflow)"
proof -
  have d: "unat (of_nat d :: usize) = d"
    using assms by (auto simp: char_digit_def Let_def unat_of_nat split: if_splits)
  show ?thesis
  proof (cases "unat acc * 10 < 2 ^ 64")
    case True
    then have "unat (acc * 10) = unat acc * 10" by (simp add: unat_mult_lem [THEN iffD1])
    with True d assms show ?thesis
      by (simp add: checked_mul_def checked_add_def mult.commute word_unat_eq_iff)
  next
    case False
    with assms show ?thesis by (simp add: checked_mul_def)
  qed
qed

lemma parse_digits_iff:
  "parse_digits cs acc = Inr w \<longleftrightarrow>
     list_all (\<lambda>c. char_digit c \<noteq> None) cs \<and> decimal_value (unat acc) cs = unat w"
proof (induction cs arbitrary: acc)
  case (Cons c cs)
  show ?case
  proof (cases "char_digit c")
    case (Some d)
    let ?n = "10 * unat acc + d"
    have v: "decimal_value (unat acc) (c # cs) = decimal_value ?n cs"
      using Some by (simp add: decimal_value_def)
    show ?thesis
    proof (cases "?n < 2 ^ 64")
      case True
      then have "unat (of_nat ?n :: usize) = ?n" by (subst unat_of_nat) simp
      with True Some Cons [of "of_nat ?n"] show ?thesis
        by (simp only: parse_digit [OF Some] v) simp
    next
      case False
      with decimal_value_ge [of ?n cs] unat_less_2_64 [of w] have "decimal_value ?n cs \<noteq> unat w" by linarith
      with False Some show ?thesis by (simp only: parse_digit [OF Some] v) simp
    qed
  qed simp
qed (auto simp: decimal_value_def word_unat_eq_iff)

lemma parse_usize_iff: "parse_usize s = Inr w \<longleftrightarrow> number_of_text s = Some (unat w)"
proof (cases s)
  case (Cons c cs)
  have sign: "char_digit CHR ''-'' = None" "char_digit CHR ''+'' = None" by (simp_all add: char_digit_def)
  show ?thesis
  proof (cases "c = CHR ''+''")
    case True
    with Cons show ?thesis
      by (cases cs) (auto simp: parse_usize_def number_of_text_def parse_digits_iff
          simp del: parse_digits.simps)
  next
    case False
    with Cons sign(1) show ?thesis
      by (auto simp: parse_usize_def number_of_text_def parse_digits_iff simp del: parse_digits.simps)
  qed
qed (simp add: parse_usize_def number_of_text_def)

lemma number_of_text_show_word: "number_of_text (show_word (w :: usize)) = Some (unat w)"
  using parse_usize_show_word parse_usize_iff by blast

end
