(* ===== verification/Metrics.thy ===== *)
theory Metrics
  imports Prelude
begin

section \<open>Metrics and client identity (\<open>src/metrics.rs\<close>, \<open>src/version.rs\<close>)\<close>

text \<open>
  The Prometheus handles as state: a histogram is the list of the recorded durations (in
  nanoseconds, newest first), a counter a \<open>u64\<close>, a gauge its last value. Rendering durations
  and gauges as \<open>f64\<close> is left to the exporter. The client identity strings take the values of
  the build environment (\<open>option_env!\<close>, \<open>CARGO_PKG_VERSION\<close>) as arguments.
\<close>

type_synonym duration = nat

record load_engine_rpc_metrics =
  forkchoice_latency :: "duration list"
  get_payload_latency :: "duration list"
  new_payload_latency :: "duration list"
  get_blobs_requests :: u64
  get_blobs_hits :: u64
  get_blobs_misses :: u64

definition engine_metrics_new :: load_engine_rpc_metrics where
  "engine_metrics_new =
     \<lparr>forkchoice_latency = [], get_payload_latency = [], new_payload_latency = [],
      get_blobs_requests = 0, get_blobs_hits = 0, get_blobs_misses = 0\<rparr>"

definition record_forkchoice ::
  "duration \<Rightarrow> load_engine_rpc_metrics \<Rightarrow> load_engine_rpc_metrics" where
  "record_forkchoice d m = m\<lparr>forkchoice_latency := d # forkchoice_latency m\<rparr>"

definition record_get_payload ::
  "duration \<Rightarrow> load_engine_rpc_metrics \<Rightarrow> load_engine_rpc_metrics" where
  "record_get_payload d m = m\<lparr>get_payload_latency := d # get_payload_latency m\<rparr>"

definition record_new_payload ::
  "duration \<Rightarrow> load_engine_rpc_metrics \<Rightarrow> load_engine_rpc_metrics" where
  "record_new_payload d m = m\<lparr>new_payload_latency := d # new_payload_latency m\<rparr>"

definition record_get_blobs ::
  "u64 \<Rightarrow> u64 \<Rightarrow> load_engine_rpc_metrics \<Rightarrow> load_engine_rpc_metrics" where
  "record_get_blobs hits misses m =
     m\<lparr>get_blobs_requests := get_blobs_requests m + 1,
       get_blobs_hits := get_blobs_hits m + hits,
       get_blobs_misses := get_blobs_misses m + misses\<rparr>"

lemmas record_defs = record_forkchoice_def record_get_payload_def record_new_payload_def
  record_get_blobs_def

record load_blob_cache_metrics =
  gauge_items :: "usize option"
  gauge_bytes :: "u64 option"

definition blob_cache_metrics_new :: load_blob_cache_metrics where
  "blob_cache_metrics_new = \<lparr>gauge_items = None, gauge_bytes = None\<rparr>"

definition record_blob_cache ::
  "usize \<Rightarrow> u64 option \<Rightarrow> load_blob_cache_metrics \<Rightarrow> load_blob_cache_metrics" where
  "record_blob_cache items bytes m =
     (let m1 = m\<lparr>gauge_items := Some items\<rparr>
      in case bytes of Some sz \<Rightarrow> m1\<lparr>gauge_bytes := Some sz\<rparr> | None \<Rightarrow> m1)"

subsection \<open>Client identity\<close>

definition DEFAULT_NAME :: string where
  "DEFAULT_NAME = ''load-reth''"

definition load_client_version_string :: "string \<Rightarrow> string option \<Rightarrow> string" where
  "load_client_version_string pkg_version sha_short =
     (let sha = (case sha_short of Some s \<Rightarrow> s | None \<Rightarrow> ''unknown'')
      in DEFAULT_NAME @ ''/v'' @ pkg_version @ ''-'' @ sha)"

definition load_commit :: "string option \<Rightarrow> string" where
  "load_commit sha_long = (case sha_long of Some sha \<Rightarrow> ''0x'' @ sha | None \<Rightarrow> ''0x0'')"

record client_version_v1 =
  cv_code :: string
  cv_name :: string
  cv_version :: string
  cv_commit :: string

text \<open>The values fixed when the binary is built; \<open>CLIENT_CODE\<close> is upstream's.\<close>

record build_env =
  CARGO_PKG_VERSION :: string
  VERGEN_GIT_SHA_SHORT :: "string option"
  VERGEN_GIT_SHA_LONG :: "string option"
  CLIENT_CODE :: string

definition load_client_version_entry :: "build_env \<Rightarrow> client_version_v1" where
  "load_client_version_entry b =
     \<lparr>cv_code = CLIENT_CODE b, cv_name = DEFAULT_NAME,
      cv_version = load_client_version_string (CARGO_PKG_VERSION b) (VERGEN_GIT_SHA_SHORT b),
      cv_commit = load_commit (VERGEN_GIT_SHA_LONG b)\<rparr>"

end
