(* ===== verification/Backpressure.thy ===== *)
theory Backpressure
  imports Metrics
begin

section \<open>RPC backpressure (\<open>src/rpc/backpressure.rs\<close>)\<close>

text \<open>
  The middleware that caps the calls in flight per guarded method: configuration from the
  environment, the gates with their atomic counters, the metrics, and the three entry points of
  the service. Here an operation runs without interference, so the compare-exchange loop of
  \<open>try_acquire\<close> can only fail spuriously; the theory \<open>Backpressure_Conc\<close> interleaves the
  atomic steps of any number of calls. The inner service and the JSON-RPC response types of
  \<open>jsonrpsee\<close> are the fields of \<open>rpc_lib\<close>. Log messages are left out.
\<close>

subsection \<open>Configuration\<close>

definition RPC_BACKPRESSURE_OVERLOAD_CODE :: int where "RPC_BACKPRESSURE_OVERLOAD_CODE = - 32005"
definition RPC_BACKPRESSURE_OVERLOAD_MESSAGE :: string where
  "RPC_BACKPRESSURE_OVERLOAD_MESSAGE = ''load-reth RPC overload: method concurrency limit reached''"

definition ENV_SEND_RAW_TX_LIMIT :: string where
  "ENV_SEND_RAW_TX_LIMIT = ''LOAD_RETH_RPC_SEND_RAW_TX_LIMIT''"
definition ENV_GET_TRANSACTION_COUNT_LIMIT :: string where
  "ENV_GET_TRANSACTION_COUNT_LIMIT = ''LOAD_RETH_RPC_GET_TRANSACTION_COUNT_LIMIT''"
definition ENV_SEND_RAW_TX_SYNC_LIMIT :: string where
  "ENV_SEND_RAW_TX_SYNC_LIMIT = ''LOAD_RETH_RPC_SEND_RAW_TX_SYNC_LIMIT''"
definition ENV_BATCH_RESPONSE_LIMIT_MB :: string where
  "ENV_BATCH_RESPONSE_LIMIT_MB = ''LOAD_RETH_RPC_BATCH_RESPONSE_LIMIT_MB''"

definition DEFAULT_SEND_RAW_TX_LIMIT :: usize where "DEFAULT_SEND_RAW_TX_LIMIT = 1024"
definition DEFAULT_GET_TRANSACTION_COUNT_LIMIT :: usize where "DEFAULT_GET_TRANSACTION_COUNT_LIMIT = 2048"
definition DEFAULT_SEND_RAW_TX_SYNC_LIMIT :: usize where "DEFAULT_SEND_RAW_TX_SYNC_LIMIT = 256"
definition DEFAULT_BATCH_RESPONSE_LIMIT_MB :: usize where "DEFAULT_BATCH_RESPONSE_LIMIT_MB = 200"

lemmas backpressure_constants = DEFAULT_SEND_RAW_TX_LIMIT_def DEFAULT_GET_TRANSACTION_COUNT_LIMIT_def
  DEFAULT_SEND_RAW_TX_SYNC_LIMIT_def DEFAULT_BATCH_RESPONSE_LIMIT_MB_def
  ENV_SEND_RAW_TX_LIMIT_def ENV_GET_TRANSACTION_COUNT_LIMIT_def ENV_SEND_RAW_TX_SYNC_LIMIT_def
  ENV_BATCH_RESPONSE_LIMIT_MB_def

datatype guarded_method = SendRawTransaction | GetTransactionCount | SendRawTransactionSync

definition from_rpc_method :: "string \<Rightarrow> guarded_method option" where
  "from_rpc_method m =
     (if m = ''eth_sendRawTransaction'' then Some SendRawTransaction
      else if m = ''eth_getTransactionCount'' then Some GetTransactionCount
      else if m = ''eth_sendRawTransactionSync'' then Some SendRawTransactionSync
      else None)"

fun rpc_method_name :: "guarded_method \<Rightarrow> string" where
  "rpc_method_name SendRawTransaction = ''eth_sendRawTransaction''"
| "rpc_method_name GetTransactionCount = ''eth_getTransactionCount''"
| "rpc_method_name SendRawTransactionSync = ''eth_sendRawTransactionSync''"

instantiation guarded_method :: linorder
begin

fun method_rank :: "guarded_method \<Rightarrow> nat" where
  "method_rank SendRawTransaction = 0"
| "method_rank GetTransactionCount = 1"
| "method_rank SendRawTransactionSync = 2"

definition less_eq_guarded_method :: "guarded_method \<Rightarrow> guarded_method \<Rightarrow> bool" where
  "less_eq_guarded_method a b \<longleftrightarrow> method_rank a \<le> method_rank b"

definition less_guarded_method :: "guarded_method \<Rightarrow> guarded_method \<Rightarrow> bool" where
  "less_guarded_method a b \<longleftrightarrow> method_rank a < method_rank b"

instance
proof
  fix x y z :: guarded_method
  show "(x < y) = (x \<le> y \<and> \<not> y \<le> x)"
    by (auto simp: less_guarded_method_def less_eq_guarded_method_def)
  show "x \<le> x" by (simp add: less_eq_guarded_method_def)
  show "x \<le> y \<Longrightarrow> y \<le> z \<Longrightarrow> x \<le> z" by (simp add: less_eq_guarded_method_def)
  show "x \<le> y \<Longrightarrow> y \<le> x \<Longrightarrow> x = y"
    by (cases x; cases y) (simp_all add: less_eq_guarded_method_def)
  show "x \<le> y \<or> y \<le> x" by (auto simp: less_eq_guarded_method_def)
qed

end

record backpressure_config =
  send_raw_transaction_limit :: usize
  get_transaction_count_limit :: usize
  send_raw_transaction_sync_limit :: usize
  batch_response_limit_bytes :: usize

definition default_config :: backpressure_config where
  "default_config =
     \<lparr>send_raw_transaction_limit = DEFAULT_SEND_RAW_TX_LIMIT,
      get_transaction_count_limit = DEFAULT_GET_TRANSACTION_COUNT_LIMIT,
      send_raw_transaction_sync_limit = DEFAULT_SEND_RAW_TX_SYNC_LIMIT,
      batch_response_limit_bytes = DEFAULT_BATCH_RESPONSE_LIMIT_MB * 1024 * 1024\<rparr>"

text \<open>\<open>std::env::var\<close>: the process environment is a function from names.\<close>

datatype var_error = NotPresent | NotUnicode

type_synonym environment = "string \<Rightarrow> var_error + string"

definition parse_env_limit :: "environment \<Rightarrow> string \<Rightarrow> usize \<Rightarrow> usize" where
  "parse_env_limit env var default_value =
     (case env var of
        Inr v \<Rightarrow> (case parse_usize v of Inr parsed \<Rightarrow> parsed | Inl err \<Rightarrow> default_value)
      | Inl NotPresent \<Rightarrow> default_value
      | Inl NotUnicode \<Rightarrow> default_value)"

definition parse_env_mb_as_bytes :: "environment \<Rightarrow> string \<Rightarrow> usize \<Rightarrow> usize" where
  "parse_env_mb_as_bytes env var default_mb =
     saturating_mul (parse_env_limit env var default_mb) (1024 * 1024)"

definition config_from_env :: "environment \<Rightarrow> backpressure_config" where
  "config_from_env env =
     \<lparr>send_raw_transaction_limit =
        parse_env_limit env ENV_SEND_RAW_TX_LIMIT (send_raw_transaction_limit default_config),
      get_transaction_count_limit =
        parse_env_limit env ENV_GET_TRANSACTION_COUNT_LIMIT (get_transaction_count_limit default_config),
      send_raw_transaction_sync_limit =
        parse_env_limit env ENV_SEND_RAW_TX_SYNC_LIMIT (send_raw_transaction_sync_limit default_config),
      batch_response_limit_bytes =
        parse_env_mb_as_bytes env ENV_BATCH_RESPONSE_LIMIT_MB DEFAULT_BATCH_RESPONSE_LIMIT_MB\<rparr>"

fun limit_for :: "backpressure_config \<Rightarrow> guarded_method \<Rightarrow> usize" where
  "limit_for self SendRawTransaction = send_raw_transaction_limit self"
| "limit_for self GetTransactionCount = get_transaction_count_limit self"
| "limit_for self SendRawTransactionSync = send_raw_transaction_sync_limit self"

subsection \<open>Metrics and gates\<close>

text \<open>Counters are \<open>u64\<close>, gauges hold the last value set (none before the first).\<close>

record backpressure_metrics =
  accepted_send_raw_transaction :: u64
  accepted_get_transaction_count :: u64
  accepted_send_raw_transaction_sync :: u64
  rejected_send_raw_transaction :: u64
  rejected_get_transaction_count :: u64
  rejected_send_raw_transaction_sync :: u64
  inflight_send_raw_transaction :: "usize option"
  inflight_get_transaction_count :: "usize option"
  inflight_send_raw_transaction_sync :: "usize option"

definition metrics_new :: backpressure_metrics where
  "metrics_new =
     \<lparr>accepted_send_raw_transaction = 0, accepted_get_transaction_count = 0,
      accepted_send_raw_transaction_sync = 0, rejected_send_raw_transaction = 0,
      rejected_get_transaction_count = 0, rejected_send_raw_transaction_sync = 0,
      inflight_send_raw_transaction = None, inflight_get_transaction_count = None,
      inflight_send_raw_transaction_sync = None\<rparr>"

fun accepted_counter :: "guarded_method \<Rightarrow> backpressure_metrics \<Rightarrow> u64" where
  "accepted_counter SendRawTransaction m = accepted_send_raw_transaction m"
| "accepted_counter GetTransactionCount m = accepted_get_transaction_count m"
| "accepted_counter SendRawTransactionSync m = accepted_send_raw_transaction_sync m"

fun rejected_counter :: "guarded_method \<Rightarrow> backpressure_metrics \<Rightarrow> u64" where
  "rejected_counter SendRawTransaction m = rejected_send_raw_transaction m"
| "rejected_counter GetTransactionCount m = rejected_get_transaction_count m"
| "rejected_counter SendRawTransactionSync m = rejected_send_raw_transaction_sync m"

fun inflight_gauge :: "guarded_method \<Rightarrow> backpressure_metrics \<Rightarrow> usize option" where
  "inflight_gauge SendRawTransaction m = inflight_send_raw_transaction m"
| "inflight_gauge GetTransactionCount m = inflight_get_transaction_count m"
| "inflight_gauge SendRawTransactionSync m = inflight_send_raw_transaction_sync m"

fun record_accepted :: "guarded_method \<Rightarrow> backpressure_metrics \<Rightarrow> backpressure_metrics" where
  "record_accepted SendRawTransaction m =
     m\<lparr>accepted_send_raw_transaction := accepted_send_raw_transaction m + 1\<rparr>"
| "record_accepted GetTransactionCount m =
     m\<lparr>accepted_get_transaction_count := accepted_get_transaction_count m + 1\<rparr>"
| "record_accepted SendRawTransactionSync m =
     m\<lparr>accepted_send_raw_transaction_sync := accepted_send_raw_transaction_sync m + 1\<rparr>"

fun record_rejected :: "guarded_method \<Rightarrow> backpressure_metrics \<Rightarrow> backpressure_metrics" where
  "record_rejected SendRawTransaction m =
     m\<lparr>rejected_send_raw_transaction := rejected_send_raw_transaction m + 1\<rparr>"
| "record_rejected GetTransactionCount m =
     m\<lparr>rejected_get_transaction_count := rejected_get_transaction_count m + 1\<rparr>"
| "record_rejected SendRawTransactionSync m =
     m\<lparr>rejected_send_raw_transaction_sync := rejected_send_raw_transaction_sync m + 1\<rparr>"

fun record_inflight :: "guarded_method \<Rightarrow> usize \<Rightarrow> backpressure_metrics \<Rightarrow> backpressure_metrics" where
  "record_inflight SendRawTransaction n m = m\<lparr>inflight_send_raw_transaction := Some n\<rparr>"
| "record_inflight GetTransactionCount n m = m\<lparr>inflight_get_transaction_count := Some n\<rparr>"
| "record_inflight SendRawTransactionSync n m = m\<lparr>inflight_send_raw_transaction_sync := Some n\<rparr>"

record method_gate =
  gate_limit :: usize
  inflight :: usize

definition gate_new :: "usize \<Rightarrow> method_gate" where
  "gate_new limit = \<lparr>gate_limit = limit, inflight = 0\<rparr>"

record backpressure_state =
  bp_config :: backpressure_config
  bp_metrics :: backpressure_metrics
  gate_send_raw_transaction :: method_gate
  gate_get_transaction_count :: method_gate
  gate_send_raw_transaction_sync :: method_gate

definition state_new :: "backpressure_config \<Rightarrow> backpressure_state" where
  "state_new conf =
     \<lparr>bp_config = conf, bp_metrics = metrics_new,
      gate_send_raw_transaction = gate_new (send_raw_transaction_limit conf),
      gate_get_transaction_count = gate_new (get_transaction_count_limit conf),
      gate_send_raw_transaction_sync = gate_new (send_raw_transaction_sync_limit conf)\<rparr>"

fun gate :: "guarded_method \<Rightarrow> backpressure_state \<Rightarrow> method_gate" where
  "gate SendRawTransaction st = gate_send_raw_transaction st"
| "gate GetTransactionCount st = gate_get_transaction_count st"
| "gate SendRawTransactionSync st = gate_send_raw_transaction_sync st"

text \<open>A store to the atomic counter of a gate.\<close>

fun set_inflight :: "guarded_method \<Rightarrow> usize \<Rightarrow> backpressure_state \<Rightarrow> backpressure_state" where
  "set_inflight SendRawTransaction n st =
     st\<lparr>gate_send_raw_transaction := (gate_send_raw_transaction st)\<lparr>inflight := n\<rparr>\<rparr>"
| "set_inflight GetTransactionCount n st =
     st\<lparr>gate_get_transaction_count := (gate_get_transaction_count st)\<lparr>inflight := n\<rparr>\<rparr>"
| "set_inflight SendRawTransactionSync n st =
     st\<lparr>gate_send_raw_transaction_sync := (gate_send_raw_transaction_sync st)\<lparr>inflight := n\<rparr>\<rparr>"

definition on_metrics ::
  "(backpressure_metrics \<Rightarrow> backpressure_metrics) \<Rightarrow> backpressure_state \<Rightarrow> backpressure_state" where
  "on_metrics f st = st\<lparr>bp_metrics := f (bp_metrics st)\<rparr>"

definition classify_method :: "backpressure_state \<Rightarrow> string \<Rightarrow> guarded_method option" where
  "classify_method st m =
     (case from_rpc_method m of
        None \<Rightarrow> None
      | Some method \<Rightarrow> if limit_for (bp_config st) method > 0 then Some method else None)"

text \<open>
  \<open>try_acquire\<close> with a weak compare-exchange that fails spuriously at the attempts \<open>weak\<close> names;
  \<open>None\<close> is a loop that never returns. The boolean is whether a permit was granted.
\<close>

partial_function (option) try_acquire_loop ::
  "(nat \<Rightarrow> bool) \<Rightarrow> nat \<Rightarrow> guarded_method \<Rightarrow> backpressure_state \<Rightarrow> (bool \<times> backpressure_state) option" where
  "try_acquire_loop weak attempt method st =
     (let n = inflight (gate method st)
      in if n \<ge> gate_limit (gate method st)
         then Some (False, on_metrics (record_rejected method) st)
         else if weak attempt then try_acquire_loop weak (attempt + 1) method st
         else Some (True, on_metrics (record_inflight method (n + 1))
                (on_metrics (record_accepted method) (set_inflight method (n + 1) st))))"

text \<open>\<open>try_acquire\<close> when the compare-exchange succeeds.\<close>

definition try_acquire :: "guarded_method \<Rightarrow> backpressure_state \<Rightarrow> bool \<times> backpressure_state" where
  "try_acquire method st =
     (let n = inflight (gate method st)
      in if n \<ge> gate_limit (gate method st)
         then (False, on_metrics (record_rejected method) st)
         else (True, on_metrics (record_inflight method (n + 1))
                (on_metrics (record_accepted method) (set_inflight method (n + 1) st))))"

definition release :: "guarded_method \<Rightarrow> backpressure_state \<Rightarrow> backpressure_state" where
  "release method st =
     (let prev = inflight (gate method st);
          st1 = set_inflight method (prev - 1) st;
          next_value = saturating_sub prev 1;
          st2 = (if prev = 0 then set_inflight method 0 st1 else st1)
      in on_metrics (record_inflight method next_value) st2)"

subsection \<open>The service\<close>

record ('id, 'p) rpc_request =
  method_name :: string
  req_id :: 'id
  req_params :: 'p

record overload_error_data =
  ov_method :: string
  ov_limit :: usize

datatype ('id, 'p, 'n, 'e) batch_entry =
    CallEntry "('id, 'p) rpc_request"
  | NotificationEntry 'n
  | ErrEntry 'e 'id

text \<open>
  The inner service (with state \<open>'s\<close>) and the response types: \<open>'r\<close> is \<open>MethodResponse\<close>, \<open>'bb\<close>
  the \<open>BatchResponseBuilder\<close>, \<open>'e\<close> an error object. Appending to a full builder is \<open>Inl\<close> the
  error response.
\<close>

record ('id, 'p, 'n, 'e, 'r, 'bb, 's) rpc_lib =
  inner_call :: "('id, 'p) rpc_request \<Rightarrow> 's \<Rightarrow> 'r \<times> 's"
  inner_batch :: "('id, 'p, 'n, 'e) batch_entry list \<Rightarrow> 's \<Rightarrow> 'r \<times> 's"
  inner_notification :: "'n \<Rightarrow> 's \<Rightarrow> 'r \<times> 's"
  error_owned :: "int \<Rightarrow> string \<Rightarrow> overload_error_data option \<Rightarrow> 'e"
  error_response :: "'id \<Rightarrow> 'e \<Rightarrow> 'r"
  notification_response :: 'r
  batch_new_with_limit :: "usize \<Rightarrow> 'bb"
  batch_append :: "'bb \<Rightarrow> 'r \<Rightarrow> 'r + 'bb"
  batch_is_empty :: "'bb \<Rightarrow> bool"
  batch_finish :: "'bb \<Rightarrow> 'r"

definition overload_response ::
  "('id, 'p, 'n, 'e, 'r, 'bb, 's) rpc_lib \<Rightarrow> backpressure_state \<Rightarrow> ('id, 'p) rpc_request \<Rightarrow>
   guarded_method \<Rightarrow> 'r" where
  "overload_response lib st req method =
     error_response lib (req_id req)
       (error_owned lib RPC_BACKPRESSURE_OVERLOAD_CODE RPC_BACKPRESSURE_OVERLOAD_MESSAGE
         (Some \<lparr>ov_method = rpc_method_name method, ov_limit = limit_for (bp_config st) method\<rparr>))"

text \<open>
  A permit names the gate it was granted by; dropping it releases the slot. \<open>call\<close> drops it when
  the inner call has returned.
\<close>

record inflight_permit =
  permit_method :: guarded_method

definition permit_drop :: "inflight_permit \<Rightarrow> backpressure_state \<Rightarrow> backpressure_state" where
  "permit_drop permit st = release (permit_method permit) st"

lemma permit_drop_eq [simp]: "permit_drop \<lparr>permit_method = m\<rparr> st = release m st"
  by (simp add: permit_drop_def)

definition service_call ::
  "('id, 'p, 'n, 'e, 'r, 'bb, 's) rpc_lib \<Rightarrow> ('id, 'p) rpc_request \<Rightarrow> backpressure_state \<times> 's \<Rightarrow>
   'r \<times> backpressure_state \<times> 's" where
  "service_call lib req = (\<lambda>(st, s).
     case classify_method st (method_name req) of
       Some method \<Rightarrow>
         (case try_acquire method st of
            (False, st1) \<Rightarrow> (overload_response lib st1 req method, st1, s)
          | (True, st1) \<Rightarrow>
              (case inner_call lib req s of (r, s1) \<Rightarrow>
                 (r, permit_drop \<lparr>permit_method = method\<rparr> st1, s1)))
     | None \<Rightarrow> (case inner_call lib req s of (r, s1) \<Rightarrow> (r, st, s1)))"

definition service_notification ::
  "('id, 'p, 'n, 'e, 'r, 'bb, 's) rpc_lib \<Rightarrow> 'n \<Rightarrow> backpressure_state \<times> 's \<Rightarrow>
   'r \<times> backpressure_state \<times> 's" where
  "service_notification lib n = (\<lambda>(st, s). case inner_notification lib n s of (r, s1) \<Rightarrow> (r, st, s1))"

definition has_guarded_call ::
  "backpressure_state \<Rightarrow> ('id, 'p, 'n, 'e) batch_entry list \<Rightarrow> bool" where
  "has_guarded_call st entries =
     list_ex (\<lambda>entry. case entry of
       CallEntry c \<Rightarrow> classify_method st (method_name c) \<noteq> None | _ \<Rightarrow> False) entries"

text \<open>The loop over the entries; \<open>Inl\<close> is the early return of an overflowing response.\<close>

fun batch_entries ::
  "('id, 'p, 'n, 'e, 'r, 'bb, 's) rpc_lib \<Rightarrow> ('id, 'p, 'n, 'e) batch_entry list \<Rightarrow> 'bb \<Rightarrow> bool \<Rightarrow>
   backpressure_state \<times> 's \<Rightarrow> ('r + 'bb \<times> bool) \<times> backpressure_state \<times> 's" where
  "batch_entries lib [] rp got_notification w = (Inr (rp, got_notification), w)"
| "batch_entries lib (CallEntry c # es) rp got_notification w =
     (case service_call lib c w of (r, w1) \<Rightarrow>
        (case batch_append lib rp r of
           Inl err \<Rightarrow> (Inl err, w1)
         | Inr rp1 \<Rightarrow> batch_entries lib es rp1 got_notification w1))"
| "batch_entries lib (NotificationEntry n # es) rp got_notification w =
     (case service_notification lib n w of (r, w1) \<Rightarrow> batch_entries lib es rp True w1)"
| "batch_entries lib (ErrEntry err i # es) rp got_notification w =
     (case batch_append lib rp (error_response lib i err) of
        Inl e \<Rightarrow> (Inl e, w)
      | Inr rp1 \<Rightarrow> batch_entries lib es rp1 got_notification w)"

definition service_batch ::
  "('id, 'p, 'n, 'e, 'r, 'bb, 's) rpc_lib \<Rightarrow> ('id, 'p, 'n, 'e) batch_entry list \<Rightarrow>
   backpressure_state \<times> 's \<Rightarrow> 'r \<times> backpressure_state \<times> 's" where
  "service_batch lib entries w =
     (if \<not> has_guarded_call (fst w) entries
      then (case inner_batch lib entries (snd w) of (r, s1) \<Rightarrow> (r, fst w, s1))
      else
        case batch_entries lib entries
            (batch_new_with_limit lib (batch_response_limit_bytes (bp_config (fst w)))) False w of
          (Inl err, w1) \<Rightarrow> (err, w1)
        | (Inr (rp, got_notification), w1) \<Rightarrow>
            (if batch_is_empty lib rp \<and> got_notification then notification_response lib
             else batch_finish lib rp, w1))"

text \<open>
  A call whose future is dropped while the inner call is pending (the client has gone): the inner
  call stops after some of its effects (\<open>partial\<close>), the permit goes out of scope, and there is
  no answer. A refused call never waits, so it is answered all the same.
\<close>

definition service_call_dropped ::
  "('id, 'p, 'n, 'e, 'r, 'bb, 's) rpc_lib \<Rightarrow> ('id, 'p) rpc_request \<Rightarrow> ('s \<Rightarrow> 's) \<Rightarrow>
   backpressure_state \<times> 's \<Rightarrow> 'r option \<times> backpressure_state \<times> 's" where
  "service_call_dropped lib req partial = (\<lambda>(st, s).
     case classify_method st (method_name req) of
       Some method \<Rightarrow>
         (case try_acquire method st of
            (False, st1) \<Rightarrow> (Some (overload_response lib st1 req method), st1, s)
          | (True, st1) \<Rightarrow> (None, permit_drop \<lparr>permit_method = method\<rparr> st1, partial s))
     | None \<Rightarrow> (None, st, partial s))"

text \<open>
  The layer holds one state; every service it makes shares it. A connection sends calls, batches
  and notifications to its service, and may abandon a call.
\<close>

definition layer_new :: "backpressure_config \<Rightarrow> backpressure_state" where
  "layer_new conf = state_new conf"

definition layer_from_env :: "environment \<Rightarrow> backpressure_state" where
  "layer_from_env env = layer_new (config_from_env env)"

record 'svc backpressure_service =
  svc_inner :: 'svc
  svc_state :: backpressure_state

definition layer :: "backpressure_state \<Rightarrow> 'svc \<Rightarrow> 'svc backpressure_service" where
  "layer st inner = \<lparr>svc_inner = inner, svc_state = st\<rparr>"

datatype ('id, 'p, 'n, 'e, 's) service_request =
    CallRequest "('id, 'p) rpc_request"
  | DroppedCallRequest "('id, 'p) rpc_request" "'s \<Rightarrow> 's"
  | BatchRequest "('id, 'p, 'n, 'e) batch_entry list"
  | NotificationRequest 'n

fun serve_request ::
  "('id, 'p, 'n, 'e, 'r, 'bb, 's) rpc_lib \<Rightarrow> ('id, 'p, 'n, 'e, 's) service_request \<Rightarrow>
   backpressure_state \<times> 's \<Rightarrow> 'r option \<times> backpressure_state \<times> 's" where
  "serve_request lib (CallRequest req) w = (case service_call lib req w of (r, w1) \<Rightarrow> (Some r, w1))"
| "serve_request lib (DroppedCallRequest req partial) w = service_call_dropped lib req partial w"
| "serve_request lib (BatchRequest entries) w = (case service_batch lib entries w of (r, w1) \<Rightarrow> (Some r, w1))"
| "serve_request lib (NotificationRequest n) w = (case service_notification lib n w of (r, w1) \<Rightarrow> (Some r, w1))"

fun serve_requests ::
  "('id, 'p, 'n, 'e, 'r, 'bb, 's) rpc_lib \<Rightarrow> ('id, 'p, 'n, 'e, 's) service_request list \<Rightarrow>
   backpressure_state \<times> 's \<Rightarrow> 'r option list \<times> backpressure_state \<times> 's" where
  "serve_requests lib [] w = ([], w)"
| "serve_requests lib (r # rs) w =
     (case serve_request lib r w of (a, w1) \<Rightarrow>
        (case serve_requests lib rs w1 of (as, w2) \<Rightarrow> (a # as, w2)))"

subsection \<open>Lemmas on the state\<close>

lemma gate_set_inflight [simp]:
  "gate k (set_inflight m n st) = (if k = m then (gate m st)\<lparr>inflight := n\<rparr> else gate k st)"
  by (cases k; cases m) simp_all

lemma gate_on_metrics [simp]: "gate k (on_metrics f st) = gate k st"
  by (cases k) (simp_all add: on_metrics_def)

lemma set_inflight_frame [simp]:
  "bp_config (set_inflight m n st) = bp_config st" "bp_metrics (set_inflight m n st) = bp_metrics st"
  by (cases m; simp)+

lemma on_metrics_frame [simp]:
  "bp_config (on_metrics f st) = bp_config st" "bp_metrics (on_metrics f st) = f (bp_metrics st)"
  by (simp_all add: on_metrics_def)

lemma counters [simp]:
  "accepted_counter k (record_accepted m mt) = accepted_counter k mt + (if k = m then 1 else 0)"
  "accepted_counter k (record_rejected m mt) = accepted_counter k mt"
  "accepted_counter k (record_inflight m n mt) = accepted_counter k mt"
  "rejected_counter k (record_accepted m mt) = rejected_counter k mt"
  "rejected_counter k (record_rejected m mt) = rejected_counter k mt + (if k = m then 1 else 0)"
  "rejected_counter k (record_inflight m n mt) = rejected_counter k mt"
  "inflight_gauge k (record_inflight m n mt) = (if k = m then Some n else inflight_gauge k mt)"
  "inflight_gauge k (record_accepted m mt) = inflight_gauge k mt"
  "inflight_gauge k (record_rejected m mt) = inflight_gauge k mt"
  by (cases k; cases m; simp)+

lemma from_rpc_method_name [simp]: "from_rpc_method (rpc_method_name m) = Some m"
  by (cases m) (simp_all add: from_rpc_method_def)

lemma from_rpc_method_iff: "from_rpc_method s = Some m \<longleftrightarrow> s = rpc_method_name m"
  by (cases m) (auto simp: from_rpc_method_def split: if_splits)

subsection \<open>The contract of a permit gate\<close>

text \<open>\<open>n\<close> calls that arrive before any of them finishes; how many are admitted.\<close>

fun burst :: "('s \<Rightarrow> bool \<times> 's) \<Rightarrow> nat \<Rightarrow> 's \<Rightarrow> nat \<times> 's" where
  "burst acquire 0 s = (0, s)"
| "burst acquire (Suc n) s =
     (case acquire s of (ok, s1) \<Rightarrow>
        (case burst acquire n s1 of (k, s2) \<Rightarrow> (if ok then k + 1 else k, s2)))"

locale permit_gate =
  fixes acquire :: "'m \<Rightarrow> 's \<Rightarrow> bool \<times> 's"
    and give_back :: "'m \<Rightarrow> 's \<Rightarrow> 's"
    and used :: "'m \<Rightarrow> 's \<Rightarrow> nat"
    and cap :: "'m \<Rightarrow> 's \<Rightarrow> nat"
  assumes admits: "fst (acquire m s) \<longleftrightarrow> used m s < cap m s"
    and used_acquire:
      "used k (snd (acquire m s)) = used k s + (if k = m \<and> used m s < cap m s then 1 else 0)"
    and used_give_back: "0 < used m s \<Longrightarrow> used k (give_back m s) = used k s - (if k = m then 1 else 0)"
    and cap_acquire: "cap k (snd (acquire m s)) = cap k s"
    and cap_give_back: "cap k (give_back m s) = cap k s"
begin

lemma bounded: "used k s \<le> cap k s \<Longrightarrow> used k (snd (acquire m s)) \<le> cap k (snd (acquire m s))"
  by (simp add: used_acquire cap_acquire)

lemma balanced:
  assumes "fst (acquire m s)"
  shows "used k (give_back m (snd (acquire m s))) = used k s"
proof -
  have "0 < used m (snd (acquire m s))" using assms by (simp add: used_acquire admits)
  then show ?thesis using assms by (simp add: used_give_back used_acquire admits)
qed

lemma burst_admitted:
  "fst (burst (acquire m) n s) = min n (cap m s - used m s) \<and>
   used k (snd (burst (acquire m) n s)) = used k s + (if k = m then min n (cap m s - used m s) else 0)"
proof (induction n arbitrary: s)
  case (Suc n)
  obtain ok s1 where a: "acquire m s = (ok, s1)" by (cases "acquire m s")
  obtain j s2 where b: "burst (acquire m) n s1 = (j, s2)" by (cases "burst (acquire m) n s1")
  have "ok \<longleftrightarrow> used m s < cap m s" "cap m s1 = cap m s"
    "used i s1 = used i s + (if i = m \<and> used m s < cap m s then 1 else 0)" for i
    using admits [of m s] cap_acquire [of m m s] used_acquire [of i m s] by (simp_all add: a)
  with Suc [of s1] show ?case by (auto simp: a b)
qed simp

lemma reopens: "0 < used m s \<Longrightarrow> used m s \<le> cap m s \<Longrightarrow> fst (acquire m (give_back m s))"
  by (simp add: admits used_give_back cap_give_back)

end

interpretation gates: permit_gate try_acquire release
    "\<lambda>m st. unat (inflight (gate m st))" "\<lambda>m st. unat (gate_limit (gate m st))"
proof unfold_locales
  fix m k st
  show "fst (try_acquire m st) \<longleftrightarrow> unat (inflight (gate m st)) < unat (gate_limit (gate m st))"
    by (simp add: try_acquire_def Let_def word_le_nat_alt not_le)
  have "unat (inflight (gate m st) + 1) = unat (inflight (gate m st)) + 1"
    if "\<not> gate_limit (gate m st) \<le> inflight (gate m st)"
    using that unat_less_2_64 [of "gate_limit (gate m st)"]
    by (subst unat_add_no_overflow) (simp_all add: word_le_nat_alt)
  then show "unat (inflight (gate k (snd (try_acquire m st)))) = unat (inflight (gate k st)) +
      (if k = m \<and> unat (inflight (gate m st)) < unat (gate_limit (gate m st)) then 1 else 0)"
    by (auto simp: try_acquire_def Let_def word_le_nat_alt not_le)
  show "unat (gate_limit (gate k (snd (try_acquire m st)))) = unat (gate_limit (gate k st))"
    by (simp add: try_acquire_def Let_def)
  show "unat (inflight (gate k (release m st))) = unat (inflight (gate k st)) - (if k = m then 1 else 0)"
    if "0 < unat (inflight (gate m st))"
  proof -
    have "inflight (gate m st) \<noteq> 0" using that by auto
    moreover have "unat (inflight (gate m st) - 1) = unat (inflight (gate m st)) - 1"
      using that by (simp add: unat_sub word_le_nat_alt)
    ultimately show ?thesis by (simp add: release_def Let_def)
  qed
  show "unat (gate_limit (gate k (release m st))) = unat (gate_limit (gate k st))"
    by (simp add: release_def Let_def)
qed

lemma try_acquire_config [simp]: "bp_config (snd (try_acquire m st)) = bp_config st"
  by (simp add: try_acquire_def Let_def)

lemma release_config [simp]: "bp_config (release m st) = bp_config st"
  by (simp add: release_def Let_def)

lemma try_acquire_counters [simp]:
  "rejected_counter k (bp_metrics (snd (try_acquire m st))) = rejected_counter k (bp_metrics st) +
     (if k = m \<and> \<not> fst (try_acquire m st) then 1 else 0)"
  "accepted_counter k (bp_metrics (snd (try_acquire m st))) = accepted_counter k (bp_metrics st) +
     (if k = m \<and> fst (try_acquire m st) then 1 else 0)"
  by (simp_all add: try_acquire_def Let_def)

lemma release_counters [simp]:
  "rejected_counter k (bp_metrics (release m st)) = rejected_counter k (bp_metrics st)"
  "accepted_counter k (bp_metrics (release m st)) = accepted_counter k (bp_metrics st)"
  by (simp_all add: release_def Let_def)

text \<open>The state after a granted permit was returned: only counters and gauges may differ.\<close>

definition same_gates :: "backpressure_state \<Rightarrow> backpressure_state \<Rightarrow> bool" where
  "same_gates st st' \<longleftrightarrow> bp_config st' = bp_config st \<and> (\<forall>m. gate m st' = gate m st)"

lemma same_gates_refl [simp]: "same_gates st st"
  by (simp add: same_gates_def)

lemma same_gates_trans: "same_gates st st1 \<Longrightarrow> same_gates st1 st2 \<Longrightarrow> same_gates st st2"
  by (simp add: same_gates_def)

lemma gate_eqI: "gate_limit g = gate_limit h \<Longrightarrow> inflight g = inflight h \<Longrightarrow> g = (h :: method_gate)"
  by simp

lemma gate_limit_frame [simp]:
  "gate_limit (gate k (snd (try_acquire m st))) = gate_limit (gate k st)"
  "gate_limit (gate k (release m st)) = gate_limit (gate k st)"
  by (simp_all add: try_acquire_def release_def Let_def)

lemma acquire_release_gates:
  assumes "fst (try_acquire m st)"
  shows "same_gates st (release m (snd (try_acquire m st)))"
proof -
  have "inflight (gate k (release m (snd (try_acquire m st)))) = inflight (gate k st)" for k
    using gates.balanced [OF assms, of k] by (simp only: word_unat_eq_iff)
  then show ?thesis by (simp add: same_gates_def gate_eqI)
qed

lemma refused_gates: "\<not> fst (try_acquire m st) \<Longrightarrow> same_gates st (snd (try_acquire m st))"
  by (auto simp: try_acquire_def Let_def same_gates_def split: if_splits)

subsection \<open>Lemmas on the service\<close>

lemma service_call_None:
  "classify_method st (method_name req) = None \<Longrightarrow>
   service_call lib req (st, s) =
     (fst (inner_call lib req s), st, snd (inner_call lib req s))"
  by (simp add: service_call_def split: prod.splits)

lemma service_call_admitted:
  "classify_method st (method_name req) = Some m \<Longrightarrow> fst (try_acquire m st) \<Longrightarrow>
   service_call lib req (st, s) =
     (fst (inner_call lib req s), release m (snd (try_acquire m st)), snd (inner_call lib req s))"
  by (cases "try_acquire m st") (simp add: service_call_def split: prod.splits)

lemma service_call_refused:
  "classify_method st (method_name req) = Some m \<Longrightarrow> \<not> fst (try_acquire m st) \<Longrightarrow>
   service_call lib req (st, s) =
     (overload_response lib st req m, snd (try_acquire m st), s)"
  by (cases "try_acquire m st")
    (auto simp: service_call_def overload_response_def dest!: arg_cong [of _ _ "bp_config \<circ> snd"])

lemma service_call_gates: "same_gates (fst w) (fst (snd (service_call lib req w)))"
proof -
  obtain st s where w: "w = (st, s)" by (cases w)
  show ?thesis
  proof (cases "classify_method st (method_name req)")
    case (Some m)
    then show ?thesis
      by (cases "fst (try_acquire m st)")
        (simp_all add: w service_call_admitted service_call_refused acquire_release_gates refused_gates)
  qed (simp add: w service_call_None)
qed

lemma batch_entries_gates:
  "same_gates (fst w) (fst (snd (batch_entries lib es rp got w)))"
proof (induction lib es rp got w rule: batch_entries.induct)
  case (2 lib c es rp got w)
  have call: "same_gates (fst w) (fst (snd (service_call lib c w)))" by (rule service_call_gates)
  obtain r w1 where sc: "service_call lib c w = (r, w1)" by (cases "service_call lib c w")
  show ?case
  proof (cases "batch_append lib rp r")
    case (Inr rp1)
    with 2 sc have "same_gates (fst w1) (fst (snd (batch_entries lib es rp1 got w1)))" by auto
    with call sc Inr show ?thesis by (auto intro: same_gates_trans)
  qed (use call sc in simp)
next
  case (3 lib n es rp got w)
  obtain r w1 where sn: "service_notification lib n w = (r, w1)" by (cases "service_notification lib n w")
  then have "fst w1 = fst w" by (auto simp: service_notification_def split: prod.splits)
  with 3 sn show ?case by auto
qed (simp_all split: sum.splits)

text \<open>The state of a service in which every gate of a guarded method has a free slot.\<close>

definition free_slots :: "backpressure_state \<Rightarrow> bool" where
  "free_slots st \<longleftrightarrow> (\<forall>name m. classify_method st name = Some m \<longrightarrow>
     unat (inflight (gate m st)) < unat (gate_limit (gate m st)))"

lemma classify_same: "same_gates st st' \<Longrightarrow> classify_method st' = classify_method st"
  by (rule ext) (simp add: classify_method_def same_gates_def cong: option.case_cong)

lemma free_slots_same: "same_gates st st' \<Longrightarrow> free_slots st' \<longleftrightarrow> free_slots st"
  by (simp add: free_slots_def classify_same) (simp add: same_gates_def)

lemma service_call_not_rejected:
  assumes "free_slots (fst w)"
  shows "rejected_counter k (bp_metrics (fst (snd (service_call lib req w)))) =
    rejected_counter k (bp_metrics (fst w))"
proof -
  obtain st s where w: "w = (st, s)" by (cases w)
  show ?thesis
  proof (cases "classify_method st (method_name req)")
    case (Some m)
    with assms have "fst (try_acquire m st)" by (auto simp: w free_slots_def gates.admits)
    with Some show ?thesis by (simp add: w service_call_admitted)
  qed (simp add: w service_call_None)
qed

lemma batch_entries_not_rejected:
  "free_slots (fst w) \<Longrightarrow> rejected_counter k (bp_metrics (fst (snd (batch_entries lib es rp got w)))) =
    rejected_counter k (bp_metrics (fst w))"
proof (induction lib es rp got w rule: batch_entries.induct)
  case (2 lib c es rp got w)
  obtain r w1 where sc: "service_call lib c w = (r, w1)" by (cases "service_call lib c w")
  with service_call_gates [of w lib c] 2(2) have free: "free_slots (fst w1)"
    using free_slots_same [of "fst w" "fst w1"] by simp
  have rej: "rejected_counter k (bp_metrics (fst w1)) = rejected_counter k (bp_metrics (fst w))"
    using service_call_not_rejected [OF 2(2), of k lib c] sc by simp
  show ?case
  proof (cases "batch_append lib rp r")
    case (Inr rp1)
    with 2(1) [OF sc [symmetric] Inr] sc free rej show ?thesis by simp
  qed (use rej sc in simp)
next
  case (3 lib n es rp got w)
  obtain r w1 where sn: "service_notification lib n w = (r, w1)" by (cases "service_notification lib n w")
  then have "fst w1 = fst w" by (auto simp: service_notification_def split: prod.splits)
  with 3 sn show ?case by auto
qed (simp_all split: sum.splits)

text \<open>What the entries of a batch answer when they run one after the other.\<close>

fun entry_responses ::
  "('id, 'p, 'n, 'e, 'r, 'bb, 's) rpc_lib \<Rightarrow> ('id, 'p, 'n, 'e) batch_entry list \<Rightarrow>
   backpressure_state \<times> 's \<Rightarrow> 'r list \<times> backpressure_state \<times> 's" where
  "entry_responses lib [] w = ([], w)"
| "entry_responses lib (CallEntry c # es) w =
     (case service_call lib c w of (r, w1) \<Rightarrow>
        (case entry_responses lib es w1 of (rs, w2) \<Rightarrow> (r # rs, w2)))"
| "entry_responses lib (NotificationEntry n # es) w =
     (case service_notification lib n w of (r, w1) \<Rightarrow> entry_responses lib es w1)"
| "entry_responses lib (ErrEntry err i # es) w =
     (case entry_responses lib es w of (rs, w2) \<Rightarrow> (error_response lib i err # rs, w2))"

fun append_all :: "('bb \<Rightarrow> 'r \<Rightarrow> 'r + 'bb) \<Rightarrow> 'bb \<Rightarrow> 'r list \<Rightarrow> 'r + 'bb" where
  "append_all app b [] = Inr b"
| "append_all app b (r # rs) = rbind (app b r) (\<lambda>b1. append_all app b1 rs)"

lemma batch_entries_complete:
  assumes "append_all (batch_append lib) rp (fst (entry_responses lib es w)) = Inr rp'"
  shows "\<exists>got'. batch_entries lib es rp got w = (Inr (rp', got'), snd (entry_responses lib es w))"
  using assms
proof (induction lib es rp got w rule: batch_entries.induct)
  case (2 lib c es rp got w)
  obtain r w1 where sc: "service_call lib c w = (r, w1)" by (cases "service_call lib c w")
  obtain rs w2 where er: "entry_responses lib es w1 = (rs, w2)" by (cases "entry_responses lib es w1")
  from 2(2) sc er obtain rp1 where rp1: "batch_append lib rp r = Inr rp1"
    "append_all (batch_append lib) rp1 rs = Inr rp'"
    by (auto simp: rbind_eq_Inr)
  with 2(1) [OF sc [symmetric] rp1(1)] sc er show ?case by simp
next
  case (3 lib n es rp got w)
  then show ?case by (cases "service_notification lib n w") auto
next
  case (4 lib err i es rp got w)
  obtain rs w2 where er: "entry_responses lib es w = (rs, w2)" by (cases "entry_responses lib es w")
  from 4(2) er obtain rp1 where rp1: "batch_append lib rp (error_response lib i err) = Inr rp1"
    "append_all (batch_append lib) rp1 rs = Inr rp'"
    by (auto simp: rbind_eq_Inr)
  with 4(1) [OF rp1(1)] er show ?case by simp
qed simp

text \<open>A builder something was appended to is not empty.\<close>

definition append_law :: "('id, 'p, 'n, 'e, 'r, 'bb, 's) rpc_lib \<Rightarrow> bool" where
  "append_law lib \<longleftrightarrow> (\<forall>b r b'. batch_append lib b r = Inr b' \<longrightarrow> \<not> batch_is_empty lib b')"

lemma append_all_not_empty:
  "append_law lib \<Longrightarrow> append_all (batch_append lib) b rs = Inr b' \<Longrightarrow>
   rs \<noteq> [] \<or> \<not> batch_is_empty lib b \<Longrightarrow> \<not> batch_is_empty lib b'"
proof (induction rs arbitrary: b)
  case (Cons r rs)
  then obtain b1 where "batch_append lib b r = Inr b1" "append_all (batch_append lib) b1 rs = Inr b'"
    by (auto simp: rbind_eq_Inr)
  with Cons.IH [of b1] Cons.prems(1) show ?case by (auto simp: append_law_def)
qed simp

lemma guarded_call_responds:
  "has_guarded_call st es \<Longrightarrow> fst (entry_responses lib es w) \<noteq> []"
proof (induction es arbitrary: w)
  case (Cons e es)
  then show ?case
    by (cases e) (auto simp: has_guarded_call_def split: prod.splits)
qed (simp add: has_guarded_call_def)

subsection \<open>Properties\<close>

text \<open>C23. Admission: a guarded call is admitted exactly when its gate is below the limit. Then the
  answer is the inner service's and the permit is returned, leaving every gate as it was;
  otherwise the answer is the overload error with code, method and limit, the inner service is
  not called, and exactly one rejection is counted. A call of any other method, or of a guarded
  one with limit 0, goes straight through.\<close>

theorem call_outcome:
  "(case classify_method st (method_name req) of
      None \<Rightarrow> service_call lib req (st, s) = (fst (inner_call lib req s), st, snd (inner_call lib req s))
    | Some m \<Rightarrow>
        (if inflight (gate m st) < gate_limit (gate m st)
         then \<exists>st'. service_call lib req (st, s) = (fst (inner_call lib req s), st', snd (inner_call lib req s)) \<and>
           bp_config st' = bp_config st \<and> (\<forall>k. gate k st' = gate k st) \<and>
           accepted_counter m (bp_metrics st') = accepted_counter m (bp_metrics st) + 1 \<and>
           rejected_counter m (bp_metrics st') = rejected_counter m (bp_metrics st)
         else \<exists>st'. service_call lib req (st, s) =
             (error_response lib (req_id req) (error_owned lib (- 32005)
                ''load-reth RPC overload: method concurrency limit reached''
                (Some \<lparr>ov_method = method_name req, ov_limit = limit_for (bp_config st) m\<rparr>)), st', s) \<and>
           bp_config st' = bp_config st \<and> (\<forall>k. gate k st' = gate k st) \<and>
           accepted_counter m (bp_metrics st') = accepted_counter m (bp_metrics st) \<and>
           rejected_counter m (bp_metrics st') = rejected_counter m (bp_metrics st) + 1))"
proof (cases "classify_method st (method_name req)")
  case None
  then show ?thesis by (simp add: service_call_None)
next
  case (Some m)
  then have name: "method_name req = rpc_method_name m"
    by (auto simp: classify_method_def from_rpc_method_iff split: option.splits if_splits)
  show ?thesis
  proof (cases "fst (try_acquire m st)")
    case True
    with Some acquire_release_gates [OF True] gates.admits [of m st] show ?thesis
      by (simp add: service_call_admitted same_gates_def word_less_nat_alt)
  next
    case False
    with Some refused_gates [OF False] gates.admits [of m st] show ?thesis
      by (simp add: service_call_refused same_gates_def word_less_nat_alt overload_response_def name
          RPC_BACKPRESSURE_OVERLOAD_CODE_def RPC_BACKPRESSURE_OVERLOAD_MESSAGE_def)
  qed
qed

text \<open>No permit leaks through a batch: whatever its entries, and even when it ends early with an
  oversized response, every gate is left as it was. And a batch runs its calls one at a time:
  when every guarded gate has a free slot at the start, none of its calls is rejected, however
  many there are.\<close>

lemma batch_no_leak:
  "bp_config (fst (snd (service_batch lib es w))) = bp_config (fst w) \<and>
   (\<forall>m. gate m (fst (snd (service_batch lib es w))) = gate m (fst w)) \<and>
   (if free_slots (fst w) then \<forall>m. rejected_counter m (bp_metrics (fst (snd (service_batch lib es w)))) =
      rejected_counter m (bp_metrics (fst w)) else True)"
proof -
  let ?rp = "batch_new_with_limit lib (batch_response_limit_bytes (bp_config (fst w)))"
  have same: "same_gates (fst w) (fst (snd (service_batch lib es w)))"
    using batch_entries_gates [of w lib es ?rp False]
    by (auto simp: service_batch_def split: prod.splits sum.splits)
  moreover have "rejected_counter m (bp_metrics (fst (snd (service_batch lib es w)))) =
      rejected_counter m (bp_metrics (fst w))" if "free_slots (fst w)" for m
    using batch_entries_not_rejected [OF that, of m lib es ?rp False]
    by (auto simp: service_batch_def split: prod.splits sum.splits)
  ultimately show ?thesis by (simp add: same_gates_def)
qed

text \<open>C33. A batch with a guarded call whose responses fit the limit answers exactly what its entries
  answer when they run in order, each call through its gate, and leaves the state they leave;
  the "notification" answer of the code cannot occur there.\<close>

theorem batch_answers_in_order:
  assumes "append_law lib" and "has_guarded_call (fst w) es"
    and "append_all (batch_append lib)
      (batch_new_with_limit lib (batch_response_limit_bytes (bp_config (fst w))))
      (fst (entry_responses lib es w)) = Inr rp"
  shows "service_batch lib es w = (batch_finish lib rp, snd (entry_responses lib es w))"
proof -
  obtain got where "batch_entries lib es
      (batch_new_with_limit lib (batch_response_limit_bytes (bp_config (fst w)))) False w =
        (Inr (rp, got), snd (entry_responses lib es w))"
    using batch_entries_complete [OF assms(3)] by blast
  moreover have "\<not> batch_is_empty lib rp"
    using append_all_not_empty [OF assms(1,3)] guarded_call_responds [OF assms(2)] by blast
  ultimately show ?thesis using assms(2) by (simp add: service_batch_def)
qed

text \<open>The compare-exchange loop: if the weak exchange eventually succeeds, \<open>try_acquire\<close> returns,
  and with the same result and state as one atomic test and increment.\<close>

lemma try_acquire_loop_returns:
  assumes "\<exists>k \<ge> attempt. \<not> weak k"
  shows "try_acquire_loop weak attempt m st = Some (try_acquire m st)"
proof -
  obtain k where k: "k \<ge> attempt" "\<not> weak k" using assms by blast
  show ?thesis
    using k(1)
  proof (induction "k - attempt" arbitrary: attempt)
    case 0
    with k(2) have "\<not> weak attempt" by simp
    then show ?case by (subst try_acquire_loop.simps) (simp add: try_acquire_def Let_def)
  next
    case (Suc d)
    then have "try_acquire_loop weak (attempt + 1) m st = Some (try_acquire m st)" by simp
    moreover have "try_acquire_loop weak attempt m st = Some (try_acquire m st)"
      if "\<not> weak attempt"
      using that by (subst try_acquire_loop.simps) (simp add: try_acquire_def Let_def)
    ultimately show ?case
      by (cases "weak attempt")
        (subst try_acquire_loop.simps, simp add: try_acquire_def Let_def)+
  qed
qed

text \<open>The limit a variable asks for, without machine arithmetic.\<close>

definition env_number :: "environment \<Rightarrow> string \<Rightarrow> nat \<Rightarrow> nat" where
  "env_number env var default_value =
     (case env var of
        Inl err \<Rightarrow> default_value
      | Inr text \<Rightarrow> (case number_of_text text of
          None \<Rightarrow> default_value
        | Some n \<Rightarrow> if n < 2 ^ 64 then n else default_value))"

lemma parse_env_limit_number: "unat (parse_env_limit env var d) = env_number env var (unat d)"
proof (cases "env var")
  case (Inr s)
  show ?thesis
  proof (cases "parse_usize s")
    case (Inl err)
    have "number_of_text s \<noteq> Some n" if "n < 2 ^ 64" for n
      using parse_usize_iff [of s "of_nat n"] that Inl by (simp add: unat_of_nat)
    with Inr Inl show ?thesis
      by (auto simp: parse_env_limit_def env_number_def split: option.split)
  next
    case p: (Inr w)
    with parse_usize_iff [of s w] unat_less_2_64 [of w] Inr show ?thesis
      by (simp add: parse_env_limit_def env_number_def)
  qed
qed (auto simp: parse_env_limit_def env_number_def split: var_error.split)

lemma env_number_malformed:
  "env var = Inr text \<Longrightarrow> number_of_text text = None \<Longrightarrow> env_number env var d = d"
  by (simp add: env_number_def)

lemma config_from_env_numbers:
  "unat (send_raw_transaction_limit (config_from_env env)) =
     env_number env ''LOAD_RETH_RPC_SEND_RAW_TX_LIMIT'' 1024"
  "unat (get_transaction_count_limit (config_from_env env)) =
     env_number env ''LOAD_RETH_RPC_GET_TRANSACTION_COUNT_LIMIT'' 2048"
  "unat (send_raw_transaction_sync_limit (config_from_env env)) =
     env_number env ''LOAD_RETH_RPC_SEND_RAW_TX_SYNC_LIMIT'' 256"
  "unat (batch_response_limit_bytes (config_from_env env)) =
     min (env_number env ''LOAD_RETH_RPC_BATCH_RESPONSE_LIMIT_MB'' 200 * 1048576) (2 ^ 64 - 1)"
  by (simp_all add: config_from_env_def parse_env_mb_as_bytes_def parse_env_limit_number
      unat_saturating_mul default_config_def backpressure_constants)

text \<open>C40. Configuration, for every environment and every variable by itself: a limit is the number its
  variable denotes if that is a text of decimal digits (with at most one leading plus sign) below
  2^64, and its documented default (1024, 2048, 256 calls and 200 MiB) whenever the variable is unset, undecodable,
  empty, holds any other character or denotes a number of 2^64 or more; megabytes become bytes
  with saturation. In particular limits written in decimal are read back exactly.\<close>

theorem config_roundtrip:
  "unat (send_raw_transaction_limit (config_from_env env)) =
     env_number env ''LOAD_RETH_RPC_SEND_RAW_TX_LIMIT'' 1024 \<and>
   unat (get_transaction_count_limit (config_from_env env)) =
     env_number env ''LOAD_RETH_RPC_GET_TRANSACTION_COUNT_LIMIT'' 2048 \<and>
   unat (send_raw_transaction_sync_limit (config_from_env env)) =
     env_number env ''LOAD_RETH_RPC_SEND_RAW_TX_SYNC_LIMIT'' 256 \<and>
   unat (batch_response_limit_bytes (config_from_env env)) =
     min (env_number env ''LOAD_RETH_RPC_BATCH_RESPONSE_LIMIT_MB'' 200 * 1048576) (2 ^ 64 - 1) \<and>
   config_from_env (\<lambda>var.
      if var = ''LOAD_RETH_RPC_SEND_RAW_TX_LIMIT'' then Inr (show_word a)
      else if var = ''LOAD_RETH_RPC_GET_TRANSACTION_COUNT_LIMIT'' then Inr (show_word b)
      else if var = ''LOAD_RETH_RPC_SEND_RAW_TX_SYNC_LIMIT'' then Inr (show_word c)
      else if var = ''LOAD_RETH_RPC_BATCH_RESPONSE_LIMIT_MB'' then Inr (show_word mb)
      else Inl NotPresent) =
     \<lparr>send_raw_transaction_limit = a, get_transaction_count_limit = b,
      send_raw_transaction_sync_limit = c, batch_response_limit_bytes = saturating_mul mb 1048576\<rparr> \<and>
   config_from_env (\<lambda>var. Inl err) =
     \<lparr>send_raw_transaction_limit = 1024, get_transaction_count_limit = 2048,
      send_raw_transaction_sync_limit = 256, batch_response_limit_bytes = 209715200\<rparr>"
proof (intro conjI)
  show "config_from_env (\<lambda>var. Inl err) =
     \<lparr>send_raw_transaction_limit = 1024, get_transaction_count_limit = 2048,
      send_raw_transaction_sync_limit = 256, batch_response_limit_bytes = 209715200\<rparr>"
    by (cases err) (simp_all add: config_from_env_def parse_env_limit_def parse_env_mb_as_bytes_def
        default_config_def backpressure_constants saturating_mul_def)
qed (simp_all only: config_from_env_numbers, simp add: config_from_env_def parse_env_limit_def
    parse_env_mb_as_bytes_def backpressure_constants parse_usize_show_word)

text \<open>Texts that denote no limit: empty, a lone or a minus sign, a unit, spaces, 2^64.\<close>

lemma malformed_limits:
  "map number_of_text [[], ''+'', ''-1'', ''++1'', ''200MB'', '' 5'', ''0x10''] =
     [None, None, None, None, None, None, None]"
  "map number_of_text [''0'', ''+7'', ''00042'', ''18446744073709551616''] =
     [Some 0, Some 7, Some 42, Some (2 ^ 64)]"
  by (simp_all add: number_of_text_def decimal_value_def char_digit_def Let_def)

text \<open>A burst: of \<open>n\<close> calls of a method that arrive before any finishes, exactly as many are
  admitted as there were free slots (all of them if they fit); the gate then holds that many
  more permits, never above its limit, and the other gates are untouched.\<close>

lemma burst_admission:
  "fst (burst (try_acquire m) n st) =
     min n (unat (gate_limit (gate m st)) - unat (inflight (gate m st))) \<and>
   unat (inflight (gate k (snd (burst (try_acquire m) n st)))) =
     unat (inflight (gate k st)) +
       (if k = m then min n (unat (gate_limit (gate m st)) - unat (inflight (gate m st))) else 0)"
  by (rule gates.burst_admitted)

text \<open>An instance: an echoing inner service, and a batch builder that is a bounded list.\<close>

definition example_rpc :: "(nat, unit, unit, string, string, nat \<times> string list, nat) rpc_lib" where
  "example_rpc = \<lparr>
     inner_call = (\<lambda>r s. (method_name r, s + 1)),
     inner_batch = (\<lambda>es s. (''batch'', s)),
     inner_notification = (\<lambda>n s. ('''', s)),
     error_owned = (\<lambda>code msg d. msg),
     error_response = (\<lambda>i e. e),
     notification_response = '''',
     batch_new_with_limit = (\<lambda>l. (unat l, [])),
     batch_append = (\<lambda>b r. if length (snd b) < fst b then Inr (fst b, snd b @ [r]) else Inl ''too big''),
     batch_is_empty = (\<lambda>b. snd b = []),
     batch_finish = (\<lambda>b. concat (snd b))\<rparr>"

definition example_batch :: "(nat, unit, unit, string) batch_entry list" where
  "example_batch =
     [CallEntry \<lparr>method_name = ''eth_sendRawTransaction'', req_id = 7, req_params = ()\<rparr>,
      NotificationEntry (), ErrEntry ''bad'' 2,
      CallEntry \<lparr>method_name = ''eth_chainId'', req_id = 3, req_params = ()\<rparr>]"

theorem batch_answers_in_order_witness:
  "fst (service_batch example_rpc example_batch (state_new default_config, 0)) =
     ''eth_sendRawTransactionbadeth_chainId''"
proof -
  let ?st = "state_new default_config"
  let ?send = "\<lparr>method_name = ''eth_sendRawTransaction'', req_id = 7 :: nat, req_params = ()\<rparr>"
  have law: "append_law example_rpc" by (auto simp: append_law_def example_rpc_def)
  have c1: "classify_method ?st ''eth_sendRawTransaction'' = Some SendRawTransaction"
    by (simp add: classify_method_def from_rpc_method_def state_new_def default_config_def
        backpressure_constants word_less_nat_alt)
  have c2: "classify_method st ''eth_chainId'' = None" for st
    by (simp add: classify_method_def from_rpc_method_def)
  have "fst (try_acquire SendRawTransaction ?st)"
    by (simp add: gates.admits state_new_def gate_new_def default_config_def backpressure_constants)
  with c1 have sent: "service_call example_rpc ?send (?st, 0) = (''eth_sendRawTransaction'',
      release SendRawTransaction (snd (try_acquire SendRawTransaction ?st)), 1)"
    by (simp add: service_call_admitted example_rpc_def)
  have fst_er: "fst (entry_responses example_rpc example_batch (?st, 0)) =
      [''eth_sendRawTransaction'', ''bad'', ''eth_chainId'']"
    by (simp add: example_batch_def sent service_notification_def service_call_None c2 split: prod.splits)
      (simp add: example_rpc_def)
  have guarded: "has_guarded_call (fst (?st, 0 :: nat)) example_batch"
    by (simp add: has_guarded_call_def example_batch_def c1)
  have "append_all (batch_append example_rpc)
      (batch_new_with_limit example_rpc (batch_response_limit_bytes (bp_config (fst (?st, 0 :: nat)))))
      (fst (entry_responses example_rpc example_batch (?st, 0))) =
      Inr (209715200, [''eth_sendRawTransaction'', ''bad'', ''eth_chainId''])"
    unfolding fst_er by (simp add: example_rpc_def state_new_def default_config_def backpressure_constants)
  from batch_answers_in_order [OF law guarded this] show ?thesis by (simp add: example_rpc_def)
qed

lemma try_acquire_loop_returns_witness:
  "try_acquire_loop (\<lambda>k. k < 3) 0 SendRawTransaction (state_new default_config) =
     Some (try_acquire SendRawTransaction (state_new default_config))"
  by (rule try_acquire_loop_returns) (auto intro: exI [of _ 3])

subsection \<open>Well-formed states\<close>

text \<open>Every gate has the limit of the configuration and holds no more calls than that.\<close>

definition gates_wf :: "backpressure_state \<Rightarrow> bool" where
  "gates_wf st \<longleftrightarrow> (\<forall>m. gate_limit (gate m st) = limit_for (bp_config st) m \<and>
     inflight (gate m st) \<le> gate_limit (gate m st))"

lemma gates_wf_same: "same_gates st st' \<Longrightarrow> gates_wf st \<Longrightarrow> gates_wf st'"
  unfolding same_gates_def gates_wf_def by metis

lemma gates_wf_within: "gates_wf st \<Longrightarrow> unat (inflight (gate k st)) \<le> unat (gate_limit (gate k st))"
  unfolding gates_wf_def word_le_nat_alt by blast

lemma gates_wf_limit: "gates_wf st \<Longrightarrow> gate_limit (gate k st) = limit_for (bp_config st) k"
  unfolding gates_wf_def by blast

lemma gates_wfI:
  assumes "\<And>k. gate_limit (gate k st) = limit_for (bp_config st) k"
    and "\<And>k. unat (inflight (gate k st)) \<le> unat (gate_limit (gate k st))"
  shows "gates_wf st"
  unfolding gates_wf_def word_le_nat_alt using assms by blast

lemma gate_layer_new: "gate m (layer_new conf) = gate_new (limit_for conf m)"
  by (cases m) (simp_all add: layer_new_def state_new_def)

lemma gates_wf_layer: "gates_wf (layer_new conf)"
proof -
  have "bp_config (layer_new conf) = conf" by (simp add: layer_new_def state_new_def)
  then show ?thesis by (simp add: gates_wf_def gate_layer_new gate_new_def)
qed

lemma gates_wf_acquire:
  assumes "gates_wf st"
  shows "gates_wf (snd (try_acquire m st))"
proof (rule gates_wfI)
  fix k
  show "gate_limit (gate k (snd (try_acquire m st))) = limit_for (bp_config (snd (try_acquire m st))) k"
    using gates_wf_limit [OF assms, of k] by simp
  show "unat (inflight (gate k (snd (try_acquire m st))))
      \<le> unat (gate_limit (gate k (snd (try_acquire m st))))"
    by (rule gates.bounded) (rule gates_wf_within [OF assms])
qed

lemma gates_wf_release:
  assumes "gates_wf st" and "inflight (gate m st) \<noteq> 0"
  shows "gates_wf (release m st)"
proof (rule gates_wfI)
  fix k
  show "gate_limit (gate k (release m st)) = limit_for (bp_config (release m st)) k"
    using gates_wf_limit [OF assms(1), of k] by simp
  have "0 < unat (inflight (gate m st))" using assms(2) by (simp add: unat_gt_0)
  from gates.used_give_back [OF this, of k]
  have "unat (inflight (gate k (release m st))) \<le> unat (inflight (gate k st))" by simp
  also have "\<dots> \<le> unat (gate_limit (gate k st))" by (rule gates_wf_within [OF assms(1)])
  finally show "unat (inflight (gate k (release m st))) \<le> unat (gate_limit (gate k (release m st)))"
    by simp
qed

lemma service_batch_gates: "same_gates (fst w) (fst (snd (service_batch lib es w)))"
  using batch_entries_gates [of w lib es
      "batch_new_with_limit lib (batch_response_limit_bytes (bp_config (fst w)))" False]
  by (auto simp: service_batch_def split: prod.splits sum.splits)

lemma service_call_dropped_gates:
  "same_gates (fst w) (fst (snd (service_call_dropped lib req partial w)))"
proof -
  obtain st s where w: "w = (st, s)" by (cases w)
  show ?thesis
  proof (cases "classify_method st (method_name req)")
    case (Some m)
    obtain b st1 where "try_acquire m st = (b, st1)" by (cases "try_acquire m st")
    with Some acquire_release_gates [of m st] refused_gates [of m st] show ?thesis
      by (cases b) (simp_all add: w service_call_dropped_def)
  qed (simp add: w service_call_dropped_def)
qed

lemma serve_request_gates: "same_gates (fst w) (fst (snd (serve_request lib r w)))"
proof (cases r)
  case (CallRequest req)
  then show ?thesis using service_call_gates [of w lib req] by (cases "service_call lib req w") simp
next
  case (BatchRequest es)
  then show ?thesis using service_batch_gates [of w lib es] by (cases "service_batch lib es w") simp
qed (simp_all add: service_call_dropped_gates service_notification_def split: prod.split)

lemma serve_requests_gates: "same_gates (fst w) (fst (snd (serve_requests lib rs w)))"
proof (induction rs arbitrary: w)
  case (Cons r rs)
  obtain a w1 where r: "serve_request lib r w = (a, w1)" by (cases "serve_request lib r w")
  obtain as w2 where rs: "serve_requests lib rs w1 = (as, w2)" by (cases "serve_requests lib rs w1")
  have "same_gates (fst w) (fst w1)" using serve_request_gates [of w lib r] by (simp add: r)
  moreover have "same_gates (fst w1) (fst w2)" using Cons [of w1] by (simp add: rs)
  ultimately show ?case by (simp add: r rs same_gates_trans)
qed simp

text \<open>C24. The state of the layer stays well formed: a new layer is, granting a permit and returning one
  that was granted keep every gate within the limit of the configuration, and after any
  sequence of calls, batches and notifications, calls abandoned by their client included, all
  gates of the layer are open and empty again, with the limits read from the environment at
  start-up.\<close>

theorem gates_stay_well_formed:
  "gates_wf (layer_from_env env) \<and>
   (gates_wf st \<longrightarrow> gates_wf (snd (try_acquire m st))) \<and>
   (gates_wf st \<and> inflight (gate m st) \<noteq> 0 \<longrightarrow> gates_wf (release m st)) \<and>
   (gates_wf (fst w) \<longrightarrow> gates_wf (fst (snd (serve_requests lib rs w)))) \<and>
   (\<forall>k. gate k (fst (snd (serve_requests lib rs (layer_from_env env, s)))) =
      \<lparr>gate_limit = limit_for (config_from_env env) k, inflight = 0\<rparr>)"
proof -
  have "gate k (fst (snd (serve_requests lib rs (layer_from_env env, s)))) =
      gate k (layer_from_env env)" for k
    using serve_requests_gates [of "(layer_from_env env, s)" lib rs] by (simp add: same_gates_def)
  then show ?thesis
    using gates_wf_layer gates_wf_acquire gates_wf_release
      gates_wf_same [OF serve_requests_gates [of w lib rs]]
    by (simp add: layer_from_env_def gate_layer_new gate_new_def)
qed

definition example_rpc_lib :: "(nat, unit, unit, nat, nat, nat list, nat) rpc_lib" where
  "example_rpc_lib = \<lparr>inner_call = (\<lambda>r n. (n, n + 1)), inner_batch = (\<lambda>es n. (n, n)),
     inner_notification = (\<lambda>u n. (n, n)), error_owned = (\<lambda>c m d. 0), error_response = (\<lambda>i e. i),
     notification_response = 0, batch_new_with_limit = (\<lambda>n. []), batch_append = (\<lambda>b r. Inr (b @ [r])),
     batch_is_empty = (\<lambda>b. b = []), batch_finish = length\<rparr>"

theorem gates_stay_well_formed_witness:
  "gates_wf (snd (try_acquire GetTransactionCount (layer_from_env (\<lambda>v. Inl NotPresent)))) \<and>
   gates_wf (release GetTransactionCount
     (snd (try_acquire GetTransactionCount (layer_from_env (\<lambda>v. Inl NotPresent)))))"
proof -
  let ?st = "layer_from_env (\<lambda>v. Inl NotPresent)"
  let ?w = "(?st, 0 :: nat)"
  note wf = gates_stay_well_formed [of "\<lambda>v. Inl NotPresent" _ GetTransactionCount ?w example_rpc_lib "[]" 0]
  have "gates_wf ?st" using wf by blast
  with wf have 1: "gates_wf (snd (try_acquire GetTransactionCount ?st))" by blast
  have "inflight (gate GetTransactionCount (snd (try_acquire GetTransactionCount ?st))) \<noteq> 0"
    by (simp add: try_acquire_def layer_from_env_def gate_layer_new gate_new_def config_from_env_def
        parse_env_limit_def default_config_def backpressure_constants)
  with 1 wf have "gates_wf (release GetTransactionCount (snd (try_acquire GetTransactionCount ?st)))"
    by blast
  with 1 show ?thesis ..
qed

end
