(* ===== verification/Backpressure_Conc.thy ===== *)
theory Backpressure_Conc
  imports Backpressure
begin

section \<open>Backpressure under concurrency (\<open>try_acquire\<close> and \<open>release\<close> step by step)\<close>

text \<open>
  One gate of \<open>src/rpc/backpressure.rs\<close> with any number of calls on it, interleaved at the
  granularity of their atomic operations: the relaxed load, the weak compare-exchange (which may
  fail for no reason), the metric updates, \<open>fetch_sub\<close>, and the store of the \<open>prev == 0\<close> branch.
  A relaxed load may return any value the counter has ever held; an atomic update acts on
  the current one. Calls are numbered by \<open>nat\<close>. The abstract specification is a counting
  semaphore, and the events of every execution are shown to be one of its traces.
\<close>

subsection \<open>States and steps\<close>

text \<open>
  Where a call is: before the load, after it, after a successful exchange (the permit is counted),
  with its acceptance recorded but not the gauge, running the inner service, after \<open>fetch_sub\<close>, about to
  publish the gauge, done, refused.
\<close>

datatype pc =
    Arrived
  | Loaded usize
  | Counted usize
  | Accepted usize
  | Holding
  | Subtracted usize
  | Publishing usize
  | Done
  | Refused

record conc =
  ctr :: usize
  hist :: "usize list"
  pcs :: "nat \<Rightarrow> pc"
  gauge :: "usize option"
  accepted :: u64
  rejected :: u64

definition conc_init :: conc where
  "conc_init = \<lparr>ctr = 0, hist = [0], pcs = (\<lambda>t. Arrived), gauge = None, accepted = 0, rejected = 0\<rparr>"

definition move :: "nat \<Rightarrow> pc \<Rightarrow> conc \<Rightarrow> conc" where
  "move t p c = c\<lparr>pcs := (pcs c)(t := p)\<rparr>"

text \<open>A store to the counter, which becomes part of its history.\<close>

definition put :: "usize \<Rightarrow> conc \<Rightarrow> conc" where
  "put v c = c\<lparr>ctr := v, hist := v # hist c\<rparr>"

inductive step :: "usize \<Rightarrow> conc \<Rightarrow> conc \<Rightarrow> bool" for limit :: usize where
  load: "pcs c t = Arrived \<Longrightarrow> v \<in> set (hist c) \<Longrightarrow> step limit c (move t (Loaded v) c)"
| refuse: "pcs c t = Loaded v \<Longrightarrow> v \<ge> limit \<Longrightarrow>
    step limit c (move t Refused (c\<lparr>rejected := rejected c + 1\<rparr>))"
| exchange: "pcs c t = Loaded v \<Longrightarrow> v < limit \<Longrightarrow> ctr c = v \<Longrightarrow>
    step limit c (move t (Counted v) (put (v + 1) c))"
| exchange_fails: "pcs c t = Loaded v \<Longrightarrow> v < limit \<Longrightarrow> step limit c (move t Arrived c)"
| accept: "pcs c t = Counted v \<Longrightarrow>
    step limit c (move t (Accepted v) (c\<lparr>accepted := accepted c + 1\<rparr>))"
| granted: "pcs c t = Accepted v \<Longrightarrow> step limit c (move t Holding (c\<lparr>gauge := Some (v + 1)\<rparr>))"
| fetch_sub: "pcs c t = Holding \<Longrightarrow> step limit c (move t (Subtracted (ctr c)) (put (ctr c - 1) c))"
| prev_zero: "pcs c t = Subtracted prev \<Longrightarrow> prev = 0 \<Longrightarrow>
    step limit c (move t (Publishing (saturating_sub prev 1)) (put 0 c))"
| prev_positive: "pcs c t = Subtracted prev \<Longrightarrow> prev \<noteq> 0 \<Longrightarrow>
    step limit c (move t (Publishing (saturating_sub prev 1)) c)"
| publish: "pcs c t = Publishing n \<Longrightarrow> step limit c (move t Done (c\<lparr>gauge := Some n\<rparr>))"

definition reachable :: "usize \<Rightarrow> conc \<Rightarrow> bool" where
  "reachable limit c \<longleftrightarrow> (step limit)\<^sup>*\<^sup>* conc_init c"

inductive_cases stepE: "step limit c c'"

lemma move_sel [simp]:
  "pcs (move t p c) = (pcs c)(t := p)" "ctr (move t p c) = ctr c" "hist (move t p c) = hist c"
  "gauge (move t p c) = gauge c" "accepted (move t p c) = accepted c" "rejected (move t p c) = rejected c"
  by (simp_all add: move_def)

lemma put_sel [simp]:
  "pcs (put v c) = pcs c" "ctr (put v c) = v" "hist (put v c) = v # hist c"
  "gauge (put v c) = gauge c"
  by (simp_all add: put_def)

subsection \<open>The permit holders\<close>

fun holds :: "pc \<Rightarrow> bool" where
  "holds (Counted v) = True"
| "holds (Accepted v) = True"
| "holds Holding = True"
| "holds p = False"

definition holders :: "conc \<Rightarrow> nat set" where
  "holders c = {t. holds (pcs c t)}"

lemma holders_move: "holders (move t p c) = (if holds p then insert t (holders c) else holders c - {t})"
  by (auto simp: holders_def)

lemma holders_cong [simp]:
  "holders (put v c) = holders c" "holders (c\<lparr>rejected := n\<rparr>) = holders c"
  "holders (c\<lparr>accepted := n\<rparr>) = holders c" "holders (c\<lparr>gauge := g\<rparr>) = holders c"
  by (simp_all add: holders_def)

lemma holders_pc: "t \<in> holders c \<longleftrightarrow> holds (pcs c t)"
  by (simp add: holders_def)

subsection \<open>The abstract specification\<close>

text \<open>What a client sees of a gate: a call that gets a permit, one that gives it back, one that is refused.\<close>

datatype gate_event = Acquired nat | Released nat | Denied nat

text \<open>A semaphore with \<open>n\<close> permits: who holds one, and whether all were ever taken. It hands out a
  permit only while one is free, and turns a call away only if it has been full.\<close>

record semaphore =
  held :: "nat set"
  was_full :: bool

definition semaphore_new :: "nat \<Rightarrow> semaphore" where
  "semaphore_new n = \<lparr>held = {}, was_full = (n = 0)\<rparr>"

inductive semaphore_step :: "nat \<Rightarrow> semaphore \<Rightarrow> gate_event \<Rightarrow> semaphore \<Rightarrow> bool" for n :: nat where
  acquire: "t \<notin> held s \<Longrightarrow> card (held s) < n \<Longrightarrow>
    semaphore_step n s (Acquired t)
      \<lparr>held = insert t (held s), was_full = (was_full s \<or> Suc (card (held s)) = n)\<rparr>"
| release: "t \<in> held s \<Longrightarrow> semaphore_step n s (Released t) (s\<lparr>held := held s - {t}\<rparr>)"
| deny: "t \<notin> held s \<Longrightarrow> was_full s \<Longrightarrow> semaphore_step n s (Denied t) s"

inductive semaphore_trace :: "nat \<Rightarrow> gate_event list \<Rightarrow> semaphore \<Rightarrow> bool" for n :: nat where
  trace_nil: "semaphore_trace n [] (semaphore_new n)"
| trace_snoc: "semaphore_trace n tr s \<Longrightarrow> semaphore_step n s ev s' \<Longrightarrow> semaphore_trace n (tr @ [ev]) s'"

text \<open>The events of the code: a permit is taken by a successful exchange and given back by
  \<open>fetch_sub\<close>, and a call is refused on the value it loaded; every other step is silent.\<close>

fun emits :: "conc \<Rightarrow> gate_event \<Rightarrow> conc \<Rightarrow> bool" where
  "emits c (Acquired t) c' \<longleftrightarrow> (case pcs c t of Loaded v \<Rightarrow> pcs c' t = Counted v | _ \<Rightarrow> False)"
| "emits c (Released t) c' \<longleftrightarrow> pcs c t = Holding \<and> (case pcs c' t of Subtracted prev \<Rightarrow> True | _ \<Rightarrow> False)"
| "emits c (Denied t) c' \<longleftrightarrow> (case pcs c t of Loaded v \<Rightarrow> pcs c' t = Refused | _ \<Rightarrow> False)"

text \<open>Executions from the initial state with the trace of their events.\<close>

inductive execution :: "usize \<Rightarrow> gate_event list \<Rightarrow> conc \<Rightarrow> bool" for limit :: usize where
  initial: "execution limit [] conc_init"
| silent: "execution limit tr c \<Longrightarrow> step limit c c' \<Longrightarrow> (\<And>ev. \<not> emits c ev c') \<Longrightarrow> execution limit tr c'"
| visible: "execution limit tr c \<Longrightarrow> step limit c c' \<Longrightarrow> emits c ev c' \<Longrightarrow> execution limit (tr @ [ev]) c'"

subsection \<open>The invariant\<close>

definition conc_inv :: "usize \<Rightarrow> conc \<Rightarrow> bool" where
  "conc_inv limit c \<longleftrightarrow>
     finite (holders c) \<and> unat (ctr c) = card (holders c) \<and> ctr c \<le> limit \<and>
     ctr c \<in> set (hist c) \<and> (\<forall>v \<in> set (hist c). v \<le> limit) \<and>
     (\<forall>t. case pcs c t of
        Loaded v \<Rightarrow> v \<in> set (hist c)
      | Subtracted prev \<Rightarrow> prev \<noteq> 0
      | Refused \<Rightarrow> limit \<in> set (hist c)
      | _ \<Rightarrow> True)"

lemma conc_inv_init: "conc_inv limit conc_init"
  by (simp add: conc_inv_def conc_init_def holders_def)

lemma holder_positive:
  "conc_inv limit c \<Longrightarrow> holds (pcs c t) \<Longrightarrow> 0 < card (holders c) \<and> ctr c \<noteq> 0"
proof -
  assume inv: "conc_inv limit c" and t: "holds (pcs c t)"
  then have "t \<in> holders c" "finite (holders c)" by (simp_all add: holders_pc conc_inv_def)
  then have "0 < card (holders c)" by (auto simp: card_gt_0_iff)
  with inv show ?thesis by (auto simp: conc_inv_def)
qed

lemma unat_plus_1_less: "(v :: usize) < limit \<Longrightarrow> unat (v + 1) = unat v + 1 \<and> v + 1 \<le> limit"
proof -
  assume v: "v < limit"
  then have "unat v + 1 < 2 ^ 64"
    using unat_less_2_64 [of limit] by (simp add: word_less_nat_alt)
  then have "unat (v + 1) = unat v + 1" by (subst unat_add_no_overflow) simp_all
  with v show ?thesis by (simp add: word_less_nat_alt word_le_nat_alt)
qed

lemma conc_inv_step:
  assumes "step limit c c'" and inv: "conc_inv limit c"
  shows "conc_inv limit c'"
  using assms(1)
proof (cases rule: step.cases)
  case (load t v)
  with inv show ?thesis by (auto simp: conc_inv_def holders_move holders_pc split: pc.splits)
next
  case (refuse t v)
  then have "holds (pcs c t) = False" by simp
  moreover have "v \<in> set (hist c)" "\<forall>v \<in> set (hist c). v \<le> limit"
    using refuse inv by (auto simp: conc_inv_def dest!: spec [of _ t])
  then have "v = limit" using refuse by (auto intro: antisym)
  ultimately show ?thesis using refuse inv
    by (auto simp: conc_inv_def holders_move holders_pc dest: spec [of _ t] split: pc.splits)
next
  case (exchange t v)
  then have "t \<notin> holders c" by (simp add: holders_pc)
  with exchange inv unat_plus_1_less [of v limit] show ?thesis
    by (auto simp: conc_inv_def holders_move split: pc.splits)
next
  case (exchange_fails t v)
  with inv show ?thesis by (auto simp: conc_inv_def holders_move holders_pc split: pc.splits)
next
  case (accept t v)
  then have "insert t (holders c) = holders c" by (auto simp: holders_pc)
  with accept inv show ?thesis by (auto simp: conc_inv_def holders_move split: pc.splits)
next
  case (granted t v)
  then have "insert t (holders c) = holders c" by (auto simp: holders_pc)
  with granted inv show ?thesis by (auto simp: conc_inv_def holders_move split: pc.splits)
next
  case (fetch_sub t)
  then have t: "t \<in> holders c" "ctr c \<noteq> 0" "0 < card (holders c)"
    using holder_positive [OF inv, of t] by (simp_all add: holders_pc)
  then have "unat (ctr c - 1) = card (holders c) - 1"
    using inv by (simp add: conc_inv_def unat_sub word_le_nat_alt)
  moreover from this inv t have "ctr c - 1 \<le> limit" by (auto simp: conc_inv_def word_le_nat_alt)
  ultimately show ?thesis using fetch_sub inv t
    by (auto simp: conc_inv_def holders_move split: pc.splits)
next
  case (prev_zero t prev)
  with inv have False by (auto simp: conc_inv_def dest!: spec [of _ t])
  then show ?thesis ..
next
  case (prev_positive t prev)
  with inv show ?thesis by (auto simp: conc_inv_def holders_move holders_pc split: pc.splits)
next
  case (publish t n)
  with inv show ?thesis by (auto simp: conc_inv_def holders_move holders_pc split: pc.splits)
qed

lemma reachable_inv: "reachable limit c \<Longrightarrow> conc_inv limit c"
  unfolding reachable_def
  by (induction rule: rtranclp_induct) (auto intro: conc_inv_init conc_inv_step)

lemma reachable_init: "reachable limit conc_init"
  by (simp add: reachable_def)

lemma reachable_step: "reachable limit c \<Longrightarrow> step limit c c' \<Longrightarrow> reachable limit c'"
  unfolding reachable_def by (rule rtranclp.rtrancl_into_rtrancl)

subsection \<open>The simulation\<close>

definition simulates :: "usize \<Rightarrow> conc \<Rightarrow> semaphore \<Rightarrow> bool" where
  "simulates limit c s \<longleftrightarrow> held s = holders c \<and> (was_full s \<longleftrightarrow> limit \<in> set (hist c))"

lemma simulates_init: "simulates limit conc_init (semaphore_new (unat limit))"
  by (simp add: simulates_def semaphore_new_def conc_init_def holders_def unat_eq_zero)

text \<open>The steps that emit an event, by the call that moves.\<close>

lemma move_emits:
  assumes "pcs c' = (pcs c)(t := p)" and "emits c ev c'"
  shows "(\<exists>v. ev = Acquired t \<and> pcs c t = Loaded v \<and> p = Counted v) \<or>
    (\<exists>prev. ev = Released t \<and> pcs c t = Holding \<and> p = Subtracted prev) \<or>
    (\<exists>v. ev = Denied t \<and> pcs c t = Loaded v \<and> p = Refused)"
  using assms by (cases ev) (auto split: pc.splits if_splits)

lemma exchange_simulated:
  assumes "conc_inv limit c" and "simulates limit c s"
    and "pcs c t = Loaded v" and "v < limit" and "ctr c = v"
  shows "\<exists>s'. semaphore_step (unat limit) s (Acquired t) s' \<and>
    simulates limit (move t (Counted v) (put (v + 1) c)) s'"
proof -
  have card: "card (held s) = unat v" using assms(1,2,5) by (simp add: conc_inv_def simulates_def)
  have full: "Suc (card (held s)) = unat limit \<longleftrightarrow> limit = v + 1"
    using unat_plus_1_less [OF assms(4)] by (auto simp: card word_unat_eq_iff)
  have "semaphore_step (unat limit) s (Acquired t)
      \<lparr>held = insert t (held s), was_full = (was_full s \<or> Suc (card (held s)) = unat limit)\<rparr>"
    using assms(2-4) card
    by (intro semaphore_step.acquire) (simp_all add: simulates_def holders_pc word_less_nat_alt)
  moreover have "simulates limit (move t (Counted v) (put (v + 1) c))
      \<lparr>held = insert t (held s), was_full = (was_full s \<or> Suc (card (held s)) = unat limit)\<rparr>"
    using assms(2) unfolding full by (auto simp: simulates_def holders_move)
  ultimately show ?thesis by blast
qed

lemma fetch_sub_simulated:
  assumes "conc_inv limit c" and "simulates limit c s" and "pcs c t = Holding"
  shows "semaphore_step (unat limit) s (Released t) (s\<lparr>held := held s - {t}\<rparr>)"
    and "simulates limit (move t (Subtracted (ctr c)) (put (ctr c - 1) c)) (s\<lparr>held := held s - {t}\<rparr>)"
proof -
  show "semaphore_step (unat limit) s (Released t) (s\<lparr>held := held s - {t}\<rparr>)"
    using assms(2,3) by (intro semaphore_step.release) (simp add: simulates_def holders_pc)
  have "ctr c \<noteq> 0" "ctr c \<le> limit"
    using holder_positive [OF assms(1), of t] assms(1,3) by (simp_all add: conc_inv_def)
  then have "unat (ctr c - 1) < unat limit"
    by (simp add: unat_sub word_le_nat_alt unat_gt_0 [symmetric] less_eq_Suc_le [symmetric] diff_less)
  then have "limit \<noteq> ctr c - 1" by auto
  with assms(2) show "simulates limit (move t (Subtracted (ctr c)) (put (ctr c - 1) c)) (s\<lparr>held := held s - {t}\<rparr>)"
    by (auto simp: simulates_def holders_move)
qed

text \<open>Every step is one of the semaphore with the same event, or silent and invisible to it; in
  particular no step takes or gives back a permit of a call other than the one that moves.\<close>

lemma step_simulated:
  assumes "step limit c c'" and inv: "conc_inv limit c" and sim: "simulates limit c s"
  shows "(\<forall>ev. emits c ev c' \<longrightarrow> (\<exists>s'. semaphore_step (unat limit) s ev s' \<and> simulates limit c' s')) \<and>
    ((\<forall>ev. \<not> emits c ev c') \<longrightarrow> simulates limit c' s)"
  using assms(1)
proof (cases rule: step.cases)
  case (refuse t v)
  with inv have v: "v \<in> set (hist c)" "\<forall>v \<in> set (hist c). v \<le> limit"
    by (auto simp: conc_inv_def dest!: spec [of _ t])
  with refuse(3) have "v = limit" by (auto intro: antisym)
  with v have full: "limit \<in> set (hist c)" by simp
  have "emits c (Denied t) c'" using refuse by simp
  moreover have "semaphore_step (unat limit) s (Denied t) s"
    using sim refuse full by (intro semaphore_step.deny) (simp_all add: simulates_def holders_pc)
  moreover have "simulates limit c' s" using sim refuse by (auto simp: simulates_def holders_move holders_pc)
  moreover have "ev = Denied t" if "emits c ev c'" for ev
    using move_emits [OF _ that, of t Refused] refuse by auto
  ultimately show ?thesis by blast
next
  case (exchange t v)
  have "emits c (Acquired t) c'" using exchange by simp
  moreover have "\<exists>s'. semaphore_step (unat limit) s (Acquired t) s' \<and> simulates limit c' s'"
    using exchange_simulated [OF inv sim exchange(2-4)] exchange(1) by simp
  moreover have "ev = Acquired t" if "emits c ev c'" for ev
    using move_emits [OF _ that, of t "Counted v"] exchange by auto
  ultimately show ?thesis by blast
next
  case (fetch_sub t)
  have "emits c (Released t) c'" using fetch_sub by simp
  moreover note fetch_sub_simulated [OF inv sim fetch_sub(2)]
  moreover have "ev = Released t" if "emits c ev c'" for ev
    using move_emits [OF _ that, of t "Subtracted (ctr c)"] fetch_sub by auto
  ultimately show ?thesis using fetch_sub(1) by blast
next
  case (prev_zero t prev)
  with inv have False by (auto simp: conc_inv_def dest!: spec [of _ t])
  then show ?thesis ..
qed (use sim in \<open>auto simp: simulates_def holders_move holders_pc dest!: move_emits [rotated]\<close>)

lemma execution_reachable: "execution limit tr c \<Longrightarrow> reachable limit c"
  by (induction rule: execution.induct) (auto intro: reachable_init reachable_step)

subsection \<open>Properties\<close>

text \<open>C7. In every interleaving the counter is exactly the number of permit holders and never exceeds
  the limit, every value it ever held is within the limit, and \<open>fetch_sub\<close> never sees 0: the
  \<open>prev == 0\<close> branch of \<open>release\<close>, whose store could lose concurrent updates, is never taken.\<close>

theorem permits_bounded:
  assumes "reachable limit c"
  shows "finite (holders c) \<and> card (holders c) = unat (ctr c) \<and> card (holders c) \<le> unat limit \<and>
    (\<forall>v \<in> set (hist c). v \<le> limit) \<and> pcs c t \<noteq> Subtracted 0"
proof -
  have inv: "conc_inv limit c" by (rule reachable_inv [OF assms])
  then have "pcs c t \<noteq> Subtracted 0" by (auto simp: conc_inv_def dest!: spec [of _ t])
  with inv show ?thesis by (auto simp: conc_inv_def word_le_nat_alt)
qed

text \<open>A call is only ever refused if the gate was full: in every interleaving, even with stale
  loads, a refusal implies that at some moment all permits were taken.\<close>

lemma refusal_justified:
  assumes "reachable limit c" and "pcs c t = Refused"
  shows "limit \<in> set (hist c)"
  using reachable_inv [OF assms(1)] assms(2) by (auto simp: conc_inv_def dest!: spec [of _ t])

text \<open>C19. Refinement of executions: whatever calls interleave on a gate, the sequence of its events (a call
  takes a permit at its exchange, gives it back at its \<open>fetch_sub\<close>, or is refused) is a trace
  of a counting semaphore with as many permits as the limit, which then has exactly the same
  permit holders, and which turns calls away only after all permits were taken. Every
  step of the code extends the trace by at most one event.\<close>

theorem gate_refines_semaphore:
  assumes "execution limit tr c"
  shows "reachable limit c \<and>
    (\<exists>s. semaphore_trace (unat limit) tr s \<and> held s = holders c \<and> (was_full s \<longleftrightarrow> limit \<in> set (hist c))) \<and>
    (\<forall>c'. step limit c c' \<longrightarrow> execution limit tr c' \<or> (\<exists>ev. execution limit (tr @ [ev]) c'))"
proof -
  have "\<exists>s. semaphore_trace (unat limit) tr s \<and> simulates limit c s"
    using assms
  proof (induction rule: execution.induct)
    case initial
    show ?case using semaphore_trace.trace_nil simulates_init by blast
  next
    case (silent tr c c')
    then show ?case
      using step_simulated [OF silent(2) reachable_inv [OF execution_reachable]] by blast
  next
    case (visible tr c c' ev)
    then obtain s where s: "semaphore_trace (unat limit) tr s" "simulates limit c s" by blast
    from step_simulated [OF visible(2) reachable_inv [OF execution_reachable [OF visible(1)]] s(2)] visible(3)
    obtain s' where "semaphore_step (unat limit) s ev s'" "simulates limit c' s'" by blast
    with s(1) show ?case using semaphore_trace.trace_snoc by blast
  qed
  moreover have "execution limit tr c' \<or> (\<exists>ev. execution limit (tr @ [ev]) c')" if "step limit c c'" for c'
    using execution.silent [OF assms that] execution.visible [OF assms that] by blast
  ultimately show ?thesis using execution_reachable [OF assms] by (simp add: simulates_def)
qed

text \<open>A call that runs without interference does what the sequential \<open>try_acquire\<close> does: with a
  fresh load it ends with the same decision, the same counter and the same gauge.\<close>

lemma uninterrupted_acquire:
  assumes "pcs c t = Arrived" and "ctr c \<in> set (hist c)"
    and "inflight (gate m st) = ctr c" and "inflight_gauge m (bp_metrics st) = gauge c"
  shows "\<exists>c'. (step (gate_limit (gate m st)))\<^sup>*\<^sup>* c c' \<and>
    pcs c' t = (if fst (try_acquire m st) then Holding else Refused) \<and>
    ctr c' = inflight (gate m (snd (try_acquire m st))) \<and>
    gauge c' = inflight_gauge m (bp_metrics (snd (try_acquire m st)))"
proof -
  let ?limit = "gate_limit (gate m st)"
  let ?c1 = "move t (Loaded (ctr c)) c"
  have 1: "(step ?limit)\<^sup>*\<^sup>* c ?c1" using step.load [OF assms(1,2)] by blast
  show ?thesis
  proof (cases "ctr c < ?limit")
    case True
    let ?c2 = "move t (Counted (ctr c)) (put (ctr c + 1) ?c1)"
    let ?c3 = "move t (Accepted (ctr c)) (?c2\<lparr>accepted := accepted ?c2 + 1\<rparr>)"
    let ?c4 = "move t Holding (?c3\<lparr>gauge := Some (ctr c + 1)\<rparr>)"
    have "step ?limit ?c1 ?c2" using True by (intro step.exchange) simp_all
    moreover have "step ?limit ?c2 ?c3" by (rule step.accept) simp
    moreover have "step ?limit ?c3 ?c4" by (rule step.granted) simp
    ultimately have "(step ?limit)\<^sup>*\<^sup>* c ?c4" using 1 by (meson rtranclp.rtrancl_into_rtrancl)
    then show ?thesis using True assms(3)
      by (intro exI [of _ ?c4]) (simp add: try_acquire_def Let_def not_le [symmetric])
  next
    case False
    let ?c2 = "move t Refused (?c1\<lparr>rejected := rejected ?c1 + 1\<rparr>)"
    have "step ?limit ?c1 ?c2" using False by (intro step.refuse) (simp_all add: not_less)
    with 1 have "(step ?limit)\<^sup>*\<^sup>* c ?c2" by (rule rtranclp.rtrancl_into_rtrancl)
    then show ?thesis using False assms(3,4)
      by (intro exI [of _ ?c2]) (simp add: try_acquire_def Let_def not_less)
  qed
qed

text \<open>C38. The inflight gauge can be left wrong: the counter is updated atomically but the gauge is set
  in a separate step, so two calls that finish in overlapping order leave the gauge at 1 although
  no call is running.\<close>

theorem gauge_drifts:
  "\<exists>c. reachable 2 c \<and> ctr c = 0 \<and> holders c = {} \<and> (\<forall>t. pcs c t = Arrived \<or> pcs c t = Done) \<and>
     gauge c = Some 1"
proof -
  let ?c1 = "move 0 (Loaded 0) conc_init"
  let ?c2 = "move 0 (Counted 0) (put (0 + 1) ?c1)"
  let ?a2 = "move 0 (Accepted 0) (?c2\<lparr>accepted := accepted ?c2 + 1\<rparr>)"
  let ?c3 = "move 0 Holding (?a2\<lparr>gauge := Some (0 + 1)\<rparr>)"
  let ?c4 = "move 1 (Loaded 1) ?c3"
  let ?c5 = "move 1 (Counted 1) (put (1 + 1) ?c4)"
  let ?a5 = "move 1 (Accepted 1) (?c5\<lparr>accepted := accepted ?c5 + 1\<rparr>)"
  let ?c6 = "move 1 Holding (?a5\<lparr>gauge := Some (1 + 1)\<rparr>)"
  let ?c7 = "move 0 (Subtracted (ctr ?c6)) (put (ctr ?c6 - 1) ?c6)"
  let ?c8 = "move 1 (Subtracted (ctr ?c7)) (put (ctr ?c7 - 1) ?c7)"
  let ?c9 = "move 0 (Publishing (saturating_sub 2 1)) ?c8"
  let ?c10 = "move 1 (Publishing (saturating_sub 1 1)) ?c9"
  let ?c11 = "move 1 Done (?c10\<lparr>gauge := Some (saturating_sub 1 1)\<rparr>)"
  let ?c12 = "move 0 Done (?c11\<lparr>gauge := Some (saturating_sub 2 1)\<rparr>)"
  have "reachable 2 ?c1" by (rule reachable_step [OF reachable_init step.load]) (simp_all add: conc_init_def)
  then have "reachable 2 ?c2" by (rule reachable_step [OF _ step.exchange]) (simp_all add: conc_init_def)
  then have "reachable 2 ?a2" by (rule reachable_step [OF _ step.accept]) simp
  then have "reachable 2 ?c3" by (rule reachable_step [OF _ step.granted]) simp
  then have "reachable 2 ?c4" by (rule reachable_step [OF _ step.load]) (simp_all add: conc_init_def)
  then have "reachable 2 ?c5"
    by (rule reachable_step [OF _ step.exchange]) (simp_all add: conc_init_def word_less_nat_alt)
  then have "reachable 2 ?a5" by (rule reachable_step [OF _ step.accept]) simp
  then have "reachable 2 ?c6" by (rule reachable_step [OF _ step.granted]) simp
  then have "reachable 2 ?c7" by (rule reachable_step [OF _ step.fetch_sub]) simp
  then have "reachable 2 ?c8" by (rule reachable_step [OF _ step.fetch_sub]) simp
  then have "reachable 2 ?c9" by (rule reachable_step [OF _ step.prev_positive]) simp_all
  then have "reachable 2 ?c10" by (rule reachable_step [OF _ step.prev_positive]) simp_all
  then have "reachable 2 ?c11" by (rule reachable_step [OF _ step.publish]) simp
  then have "reachable 2 ?c12" by (rule reachable_step [OF _ step.publish]) simp
  then show ?thesis
    by (intro exI [of _ ?c12])
      (simp add: holders_def conc_init_def saturating_sub_def word_le_nat_alt)
qed

text \<open>Instances: one call that holds the only permit, and one that a closed gate refuses.\<close>

definition one_holder :: conc where
  "one_holder = move 0 (Counted 0) (put (0 + 1) (move 0 (Loaded 0) conc_init))"

lemma one_holder_reachable: "reachable 1 one_holder"
proof -
  have "reachable 1 (move 0 (Loaded 0) conc_init)"
    by (rule reachable_step [OF reachable_init step.load]) (simp_all add: conc_init_def)
  then show ?thesis unfolding one_holder_def
    by (rule reachable_step [OF _ step.exchange]) (simp_all add: conc_init_def)
qed

lemma one_holder_holders: "holders one_holder = {0}"
  by (auto simp: one_holder_def holders_def conc_init_def split: if_splits)

theorem permits_bounded_witness:
  "card (holders one_holder) = 1 \<and> card (holders one_holder) \<le> unat (1 :: usize)"
  using permits_bounded [OF one_holder_reachable, of 0] by (simp add: one_holder_holders)

text \<open>A second call loads the counter while the first one holds the only permit and is refused.\<close>

definition one_refused :: conc where
  "one_refused = move 1 Refused ((move 1 (Loaded 1) one_holder)\<lparr>rejected := 1\<rparr>)"

lemma one_refused_execution: "execution 1 [Acquired 0, Denied 1] one_refused"
proof -
  let ?c1 = "move 0 (Loaded 0) conc_init"
  let ?c2 = "move 1 (Loaded 1) one_holder"
  have "execution 1 [] ?c1"
  proof (rule execution.silent [OF execution.initial])
    show "step 1 conc_init ?c1" by (rule step.load) (simp_all add: conc_init_def)
    show "\<not> emits conc_init ev ?c1" for ev by (cases ev) (simp_all add: conc_init_def)
  qed
  then have "execution 1 ([] @ [Acquired 0]) one_holder" unfolding one_holder_def
  proof (rule execution.visible)
    show "step 1 ?c1 (move 0 (Counted 0) (put (0 + 1) ?c1))"
      by (rule step.exchange) (simp_all add: conc_init_def)
    show "emits ?c1 (Acquired 0) (move 0 (Counted 0) (put (0 + 1) ?c1))" by simp
  qed
  then have "execution 1 [Acquired 0] one_holder" by simp
  then have "execution 1 [Acquired 0] ?c2"
  proof (rule execution.silent)
    show "step 1 one_holder ?c2" by (rule step.load) (simp_all add: one_holder_def conc_init_def)
    show "\<not> emits one_holder ev ?c2" for ev
      by (cases ev) (simp_all add: one_holder_def conc_init_def)
  qed
  then have "execution 1 ([Acquired 0] @ [Denied 1]) one_refused"
  proof (rule execution.visible)
    show "step 1 ?c2 one_refused" unfolding one_refused_def
      using step.refuse [where c = ?c2 and t = 1 and v = 1 and limit = 1]
      by (simp add: one_holder_def conc_init_def move_def put_def)
  qed (simp add: one_refused_def)
  then show ?thesis by simp
qed

theorem gate_refines_semaphore_witness:
  "\<exists>s. semaphore_trace 1 [Acquired 0, Denied 1] s \<and> held s = {0} \<and> was_full s"
proof -
  have "holders one_refused = {0}" "1 \<in> set (hist one_refused)"
    by (auto simp: one_refused_def one_holder_def holders_def conc_init_def split: if_splits)
  with gate_refines_semaphore [OF one_refused_execution] show ?thesis by auto
qed

lemma refusal_justified_witness: "\<exists>c :: conc. pcs c 0 = Refused \<and> 0 \<in> set (hist c)"
proof -
  let ?c1 = "move 0 (Loaded 0) conc_init"
  let ?c2 = "move 0 Refused (?c1\<lparr>rejected := rejected ?c1 + 1\<rparr>)"
  have "reachable 0 ?c1"
    by (rule reachable_step [OF reachable_init step.load]) (simp_all add: conc_init_def)
  then have r: "reachable 0 ?c2" by (rule reachable_step [OF _ step.refuse]) simp_all
  have "pcs ?c2 0 = Refused" by simp
  from refusal_justified [OF r this] this show ?thesis by (intro exI [of _ ?c2] conjI)
qed

lemma uninterrupted_acquire_witness:
  "\<exists>c :: conc. pcs c 0 = Holding \<and> ctr c = 1"
proof -
  let ?st = "state_new default_config"
  have "fst (try_acquire GetTransactionCount ?st)" "inflight (gate GetTransactionCount (snd (try_acquire GetTransactionCount ?st))) = 1"
    by (simp_all add: try_acquire_def state_new_def gate_new_def default_config_def
        backpressure_constants word_le_nat_alt)
  moreover have "pcs conc_init 0 = Arrived" "ctr conc_init \<in> set (hist conc_init)"
    "inflight (gate GetTransactionCount ?st) = ctr conc_init"
    "inflight_gauge GetTransactionCount (bp_metrics ?st) = gauge conc_init"
    by (simp_all add: conc_init_def state_new_def gate_new_def metrics_new_def)
  from uninterrupted_acquire [OF this] obtain c :: conc where
    "pcs c 0 = (if fst (try_acquire GetTransactionCount ?st) then Holding else Refused)"
    "ctr c = inflight (gate GetTransactionCount (snd (try_acquire GetTransactionCount ?st)))"
    by blast
  ultimately show ?thesis by auto
qed

subsection \<open>No permit is lost\<close>

text \<open>The calls that are under way, and how each of them can be brought to its end.\<close>

definition active :: "conc \<Rightarrow> nat set" where
  "active c = {t. pcs c t \<notin> {Arrived, Done, Refused}}"

lemma active_move:
  "active (move t p c) = (if p \<in> {Arrived, Done, Refused} then active c - {t} else insert t (active c))"
  by (auto simp: active_def)

lemma active_cong [simp]:
  "active (put v c) = active c" "active (c\<lparr>rejected := n\<rparr>) = active c"
  "active (c\<lparr>accepted := n\<rparr>) = active c" "active (c\<lparr>gauge := g\<rparr>) = active c"
  by (simp_all add: active_def)

lemma active_pcs: "pcs c' = (pcs c)(t := p) \<Longrightarrow> p \<in> {Arrived, Done, Refused} \<Longrightarrow> active c' = active c - {t}"
  by (auto simp: active_def)

lemma holders_active: "holders c \<subseteq> active c"
  by (auto simp: holders_def active_def elim: holds.elims)

lemma active_finite_step: "step limit c c' \<Longrightarrow> finite (active c) \<Longrightarrow> finite (active c')"
  by (erule step.cases) (simp_all add: active_move)

lemma active_init: "active conc_init = {}"
  by (simp add: active_def conc_init_def)

lemma active_finite: "reachable limit c \<Longrightarrow> finite (active c)"
  unfolding reachable_def
  by (induction rule: rtranclp_induct) (simp add: active_init, rule active_finite_step)

lemma settle_publishing:
  assumes "pcs c t = Publishing n"
  shows "\<exists>c'. (step limit)\<^sup>*\<^sup>* c c' \<and> pcs c' = (pcs c)(t := Done)"
  using step.publish [OF assms, of limit] by (intro exI conjI) (erule r_into_rtranclp, simp)

lemma settle_after:
  assumes "step limit c c1" and "pcs c1 = (pcs c)(t := p)"
    and "\<exists>c'. (step limit)\<^sup>*\<^sup>* c1 c' \<and> pcs c' = (pcs c1)(t := q)"
  shows "\<exists>c'. (step limit)\<^sup>*\<^sup>* c c' \<and> pcs c' = (pcs c)(t := q)"
  using assms by (auto intro: converse_rtranclp_into_rtranclp)

lemma settle_subtracted:
  assumes "pcs c t = Subtracted prev"
  shows "\<exists>c'. (step limit)\<^sup>*\<^sup>* c c' \<and> pcs c' = (pcs c)(t := Done)"
proof (cases "prev = 0")
  case True
  show ?thesis
    by (rule settle_after [where p = "Publishing (saturating_sub prev 1)",
        OF step.prev_zero [OF assms True] _ settle_publishing]) simp_all
next
  case False
  show ?thesis
    by (rule settle_after [where p = "Publishing (saturating_sub prev 1)",
        OF step.prev_positive [OF assms False] _ settle_publishing]) simp_all
qed

lemma settle_holding:
  assumes "pcs c t = Holding"
  shows "\<exists>c'. (step limit)\<^sup>*\<^sup>* c c' \<and> pcs c' = (pcs c)(t := Done)"
  by (rule settle_after [where p = "Subtracted (ctr c)",
      OF step.fetch_sub [OF assms] _ settle_subtracted]) simp_all

lemma settle_accepted:
  assumes "pcs c t = Accepted v"
  shows "\<exists>c'. (step limit)\<^sup>*\<^sup>* c c' \<and> pcs c' = (pcs c)(t := Done)"
  by (rule settle_after [where p = Holding, OF step.granted [OF assms] _ settle_holding]) simp_all

lemma settle_counted:
  assumes "pcs c t = Counted v"
  shows "\<exists>c'. (step limit)\<^sup>*\<^sup>* c c' \<and> pcs c' = (pcs c)(t := Done)"
  by (rule settle_after [where p = "Accepted v", OF step.accept [OF assms] _ settle_accepted]) simp_all

lemma settle_loaded:
  assumes "pcs c t = Loaded v"
  shows "\<exists>c' p. (step limit)\<^sup>*\<^sup>* c c' \<and> pcs c' = (pcs c)(t := p) \<and> p \<in> {Arrived, Refused}"
proof (cases "v < limit")
  case True
  from step.exchange_fails [OF assms True] show ?thesis
    by (intro exI [of _ "move t Arrived c"] exI [of _ Arrived]) auto
next
  case False
  then have "v \<ge> limit" by simp
  from step.refuse [OF assms this] show ?thesis
    by (intro exI [of _ "move t Refused (c\<lparr>rejected := rejected c + 1\<rparr>)"] exI [of _ Refused]) auto
qed

lemma settle:
  assumes "t \<in> active c"
  shows "\<exists>c'. (step limit)\<^sup>*\<^sup>* c c' \<and> active c' = active c - {t}"
proof -
  have "\<exists>c' p. (step limit)\<^sup>*\<^sup>* c c' \<and> pcs c' = (pcs c)(t := p) \<and> p \<in> {Arrived, Done, Refused}"
  proof (cases "pcs c t")
    case (Loaded v)
    from settle_loaded [OF this] show ?thesis by blast
  next
    case (Counted v)
    from settle_counted [OF this] show ?thesis by blast
  next
    case (Accepted v)
    from settle_accepted [OF this] show ?thesis by blast
  next
    case Holding
    from settle_holding [OF this] show ?thesis by blast
  next
    case (Subtracted v)
    from settle_subtracted [OF this] show ?thesis by blast
  next
    case (Publishing n)
    from settle_publishing [OF this] show ?thesis by blast
  qed (use assms in \<open>simp_all add: active_def\<close>)
  then show ?thesis using active_pcs by blast
qed

lemma settle_all:
  assumes "finite (active c)"
  shows "\<exists>c'. (step limit)\<^sup>*\<^sup>* c c' \<and> active c' = {}"
  using assms
proof (induction "card (active c)" arbitrary: c)
  case (Suc n)
  then obtain t where t: "t \<in> active c" by (metis card.empty equals0I nat.simps(3))
  then obtain c1 where c1: "(step limit)\<^sup>*\<^sup>* c c1" "active c1 = active c - {t}" using settle by blast
  with Suc t have "n = card (active c1)" "finite (active c1)" by simp_all
  from Suc(1) [OF this] obtain c' where "(step limit)\<^sup>*\<^sup>* c1 c'" "active c' = {}" by blast
  with c1 show ?case by (meson rtranclp_trans)
qed auto

lemma reachable_steps: "reachable limit c \<Longrightarrow> (step limit)\<^sup>*\<^sup>* c c' \<Longrightarrow> reachable limit c'"
  unfolding reachable_def by (rule rtranclp_trans)

text \<open>No permit is ever lost: from every reachable state the calls under way can all run to
  their end, after which the counter is 0 again; and if the limit is not 0, a call that arrives
  then is admitted. So no interleaving of calls, refusals and spurious failures closes a gate
  for good.\<close>

lemma gate_drains:
  assumes "reachable limit c"
  shows "\<exists>c'. (step limit)\<^sup>*\<^sup>* c c' \<and> active c' = {} \<and> ctr c' = 0 \<and>
    (\<forall>t. limit \<noteq> 0 \<longrightarrow> pcs c' t = Arrived \<longrightarrow>
      (\<exists>c''. (step limit)\<^sup>*\<^sup>* c' c'' \<and> holders c'' = {t}))"
proof -
  obtain c' where c': "(step limit)\<^sup>*\<^sup>* c c'" "active c' = {}"
    using settle_all [OF active_finite [OF assms]] by blast
  have inv: "conc_inv limit c'" by (rule reachable_inv [OF reachable_steps [OF assms c'(1)]])
  have empty: "holders c' = {}" using holders_active c'(2) by blast
  with inv have "unat (ctr c') = 0" by (simp add: conc_inv_def)
  then have ctr: "ctr c' = 0" by (simp only: unat_eq_zero)
  have "\<exists>c''. (step limit)\<^sup>*\<^sup>* c' c'' \<and> holders c'' = {t}"
    if "limit \<noteq> 0" "pcs c' t = Arrived" for t
  proof -
    let ?c1 = "move t (Loaded 0) c'"
    have "step limit c' ?c1" using that inv ctr by (intro step.load) (auto simp: conc_inv_def)
    moreover have "step limit ?c1 (move t (Counted 0) (put (0 + 1) ?c1))"
      using that ctr by (intro step.exchange) (simp_all add: word_neq_0_conv)
    ultimately have "(step limit)\<^sup>*\<^sup>* c' (move t (Counted 0) (put (0 + 1) ?c1))" by auto
    then show ?thesis
      by (intro exI [of _ "move t (Counted 0) (put (0 + 1) ?c1)"]) (simp add: holders_move empty)
  qed
  with c' ctr show ?thesis by blast
qed

lemma gate_drains_witness:
  "\<exists>c'. (step 1)\<^sup>*\<^sup>* one_holder c' \<and> ctr c' = 0 \<and> active c' = {}"
  using gate_drains [OF one_holder_reachable] by blast

end
