(* ===== verification/Backpressure_Layer.thy ===== *)
theory Backpressure_Layer
  imports Backpressure_Conc
begin

section \<open>The whole layer under concurrency (\<open>src/rpc/backpressure.rs\<close>)\<close>

text \<open>
  The three gates of a layer with their calls side by side: an atomic operation acts on the gate
  of one method, with the limit of the configuration. Beside the counters of the gates this
  theory follows the two metric counters of every method, which are updated by atomic increments.
\<close>

subsection \<open>Metric counters of one gate\<close>

text \<open>The calls whose grant or refusal has been recorded.\<close>

fun recorded :: "pc \<Rightarrow> bool" where
  "recorded (Accepted v) = True"
| "recorded Holding = True"
| "recorded (Subtracted v) = True"
| "recorded (Publishing v) = True"
| "recorded Done = True"
| "recorded p = False"

definition calls_at :: "(pc \<Rightarrow> bool) \<Rightarrow> conc \<Rightarrow> nat set" where
  "calls_at P c = {t. P (pcs c t)}"

lemma calls_at_move:
  "calls_at P (move t p c) = (if P p then insert t (calls_at P c) else calls_at P c - {t})"
  by (auto simp: calls_at_def)

lemma calls_at_cong [simp]:
  "calls_at P (put v c) = calls_at P c" "calls_at P (c\<lparr>rejected := n\<rparr>) = calls_at P c"
  "calls_at P (c\<lparr>accepted := n\<rparr>) = calls_at P c" "calls_at P (c\<lparr>gauge := g\<rparr>) = calls_at P c"
  by (simp_all add: calls_at_def)

lemma calls_at_pc: "t \<in> calls_at P c \<longleftrightarrow> P (pcs c t)"
  by (simp add: calls_at_def)

lemma put_counters [simp]: "accepted (put v c) = accepted c" "rejected (put v c) = rejected c"
  by (simp_all add: put_def)

definition counters_inv :: "conc \<Rightarrow> bool" where
  "counters_inv c \<longleftrightarrow>
     finite (calls_at recorded c) \<and> accepted c = of_nat (card (calls_at recorded c)) \<and>
     finite (calls_at (\<lambda>p. p = Refused) c) \<and> rejected c = of_nat (card (calls_at (\<lambda>p. p = Refused) c))"

text \<open>A step that moves a call between two points of the same kind counts nothing.\<close>

lemma calls_at_same: "P p = P (pcs c t) \<Longrightarrow> calls_at P (move t p c) = calls_at P c"
  by (auto simp: calls_at_move calls_at_pc)

lemma counters_inv_step:
  assumes "step limit c c'" and "counters_inv c"
  shows "counters_inv c'"
  using assms(1)
proof (cases rule: step.cases)
  case (refuse t v)
  have "t \<notin> calls_at (\<lambda>p. p = Refused) c" using refuse by (simp add: calls_at_pc)
  moreover have "calls_at recorded (move t Refused (c\<lparr>rejected := rejected c + 1\<rparr>)) = calls_at recorded c"
    using refuse by (simp add: calls_at_same)
  ultimately show ?thesis using refuse assms(2) by (simp add: counters_inv_def calls_at_move)
next
  case (accept t v)
  have "t \<notin> calls_at recorded c" using accept by (simp add: calls_at_pc)
  then show ?thesis using accept assms(2) calls_at_same [of "\<lambda>p. p = Refused" "Accepted v" c t]
    by (simp add: counters_inv_def calls_at_move)
qed (use assms(2) in \<open>simp_all add: counters_inv_def calls_at_same\<close>)

lemma counters_inv_init: "counters_inv conc_init"
  by (simp add: counters_inv_def calls_at_def conc_init_def)

lemma reachable_counters: "reachable limit c \<Longrightarrow> counters_inv c"
  unfolding reachable_def
  by (induction rule: rtranclp_induct) (auto intro: counters_inv_init counters_inv_step)

subsection \<open>Three gates\<close>

type_synonym layer_state = "guarded_method \<Rightarrow> conc"

inductive layer_step :: "backpressure_config \<Rightarrow> layer_state \<Rightarrow> layer_state \<Rightarrow> bool"
  for conf :: backpressure_config where
  on_gate: "step (limit_for conf m) (g m) c \<Longrightarrow> layer_step conf g (g(m := c))"

definition layer_init :: layer_state where
  "layer_init = (\<lambda>m. conc_init)"

text \<open>Every execution of the layer is, gate by gate, an execution of that gate alone.\<close>

lemma layer_reachable: "(layer_step conf)\<^sup>*\<^sup>* layer_init g \<Longrightarrow> reachable (limit_for conf m) (g m)"
proof (induction rule: rtranclp_induct)
  case (step g g')
  from step(2) show ?case
    by cases (use step(3) in \<open>auto intro: reachable_step\<close>)
qed (simp add: layer_init_def reachable_init)

text \<open>An execution of one gate is one of the layer.\<close>

lemma gate_in_layer:
  assumes "reachable (limit_for conf m) c"
  shows "(layer_step conf)\<^sup>*\<^sup>* layer_init (layer_init(m := c))"
  using assms unfolding reachable_def
proof (induction rule: rtranclp_induct)
  case base
  have "layer_init(m := conc_init) = layer_init" by (simp add: layer_init_def fun_eq_iff)
  then show ?case by simp
next
  case (step c c')
  have "layer_step conf (layer_init(m := c)) ((layer_init(m := c))(m := c'))"
    using step(2) by (intro layer_step.on_gate) simp
  then have one: "layer_step conf (layer_init(m := c)) (layer_init(m := c'))" by (simp only: fun_upd_upd)
  show ?case by (rule rtranclp.rtrancl_into_rtrancl) (rule step.IH, rule one)
qed

subsection \<open>Properties\<close>

text \<open>C37. The counters of a whole layer are exact in every interleaving of all its calls: for every
  method the calls in flight are at most the limit read from the environment and are what the
  gate counts, and the accepted and rejected counters are the numbers of the calls that were
  granted and refused so far (modulo their width), unlike the gauge.\<close>

theorem layer_counters_exact:
  assumes "(layer_step (config_from_env env))\<^sup>*\<^sup>* layer_init g"
  shows "unat (ctr (g m)) = card (holders (g m)) \<and>
    card (holders (g m)) \<le> unat (limit_for (config_from_env env) m) \<and>
    accepted (g m) = of_nat (card (calls_at recorded (g m))) \<and>
    rejected (g m) = of_nat (card {t. pcs (g m) t = Refused})"
proof -
  note r = layer_reachable [OF assms, of m]
  from reachable_inv [OF r] have
    "unat (ctr (g m)) = card (holders (g m))" "ctr (g m) \<le> limit_for (config_from_env env) m"
    by (simp_all add: conc_inv_def)
  moreover have "calls_at (\<lambda>p. p = Refused) (g m) = {t. pcs (g m) t = Refused}"
    by (simp add: calls_at_def)
  ultimately show ?thesis
    using reachable_counters [OF r] by (simp add: counters_inv_def word_le_nat_alt)
qed

theorem layer_counters_exact_witness:
  "\<exists>env g. (layer_step (config_from_env env))\<^sup>*\<^sup>* layer_init g \<and>
     card (holders (g SendRawTransaction)) = 1 \<and> rejected (g SendRawTransaction) = 0"
proof -
  let ?env = "\<lambda>v. if v = ENV_SEND_RAW_TX_LIMIT then Inr ''1'' else Inl NotPresent"
  let ?g = "layer_init(SendRawTransaction := one_holder)"
  have "limit_for (config_from_env ?env) SendRawTransaction = 1"
    by (simp add: config_from_env_def parse_env_limit_def parse_usize_def char_digit_def checked_mul_def checked_add_def)
  then have "(layer_step (config_from_env ?env))\<^sup>*\<^sup>* layer_init ?g"
    using gate_in_layer [of "config_from_env ?env" SendRawTransaction one_holder] one_holder_reachable by simp
  moreover from layer_counters_exact [OF this, of SendRawTransaction]
  have "rejected (?g SendRawTransaction) = of_nat (card {t. pcs (?g SendRawTransaction) t = Refused})" by blast
  then have "rejected (?g SendRawTransaction) = 0"
    by (simp add: one_holder_def conc_init_def if_distrib [of "\<lambda>p. p = Refused"])
  ultimately show ?thesis
    by (intro exI [of _ ?env] exI [of _ ?g]) (simp add: one_holder_holders)
qed

end
