(* ===== verification/Backpressure_Service.thy ===== *)
theory Backpressure_Service
  imports Backpressure_Layer
begin

section \<open>Clients of the layer under concurrency (\<open>src/rpc/backpressure.rs\<close>)\<close>

text \<open>
  Any number of clients of one layer, each a future that works through one request of \<open>RpcServiceT\<close> at
  a time: a call, a notification, or the entries of a batch one after another. The futures are
  interleaved at the granularity of the atomic operations on the gates; a future waits only
  while the inner service is running, and may be dropped exactly there. The inner service
  answers whatever it likes. A projection to the gates shows that this is an execution of
  \<open>Backpressure_Layer\<close>.
\<close>

subsection \<open>States\<close>

text \<open>
  Where a future is: between two entries, in \<open>try_acquire\<close> or in the drop of its permit (with the gate
  and the number of its call), in the inner service with a permit, in the inner service without, in
  the inner service with a whole batch.
\<close>

datatype stage =
    Ready
  | Acquiring guarded_method nat
  | InnerGuarded guarded_method nat
  | Releasing guarded_method nat
  | InnerPlain
  | InnerBatch

datatype ('id, 'e, 'r) answer =
    Answered 'r
  | EntryError 'e 'id
  | Overloaded 'id overload_error_data

record ('id, 'p, 'n, 'e, 'r) task =
  queue :: "('id, 'p, 'n, 'e) batch_entry list"
  stage :: stage
  answers :: "('id, 'e, 'r) answer list"

record ('id, 'p, 'n, 'e, 'r) service_state =
  gates :: layer_state
  next_call :: nat
  tasks :: "nat \<Rightarrow> ('id, 'p, 'n, 'e, 'r) task"

definition idle_task :: "('id, 'p, 'n, 'e, 'r) task" where
  "idle_task = \<lparr>queue = [], stage = Ready, answers = []\<rparr>"

definition service_init :: "('id, 'p, 'n, 'e, 'r) service_state" where
  "service_init = \<lparr>gates = layer_init, next_call = 0, tasks = (\<lambda>c. idle_task)\<rparr>"

definition idle :: "('id, 'p, 'n, 'e, 'r) task \<Rightarrow> bool" where
  "idle tk \<longleftrightarrow> queue tk = [] \<and> stage tk = Ready"

text \<open>The entries that go to the inner service without a permit.\<close>

fun plain :: "backpressure_config \<Rightarrow> ('id, 'p, 'n, 'e) batch_entry \<Rightarrow> bool" where
  "plain conf (CallEntry req) \<longleftrightarrow> classify_method (layer_new conf) (method_name req) = None"
| "plain conf (NotificationEntry n) \<longleftrightarrow> True"
| "plain conf (ErrEntry e i) \<longleftrightarrow> False"

text \<open>A notification is not answered.\<close>

fun is_notification :: "('id, 'p, 'n, 'e) batch_entry \<Rightarrow> bool" where
  "is_notification (NotificationEntry n) = True"
| "is_notification e = False"

definition plain_answer :: "('id, 'p, 'n, 'e) batch_entry \<Rightarrow> 'r \<Rightarrow> ('id, 'e, 'r) answer list" where
  "plain_answer e r = (if is_notification e then [] else [Answered r])"

definition overload_answer ::
  "backpressure_config \<Rightarrow> guarded_method \<Rightarrow> ('id, 'p) rpc_request \<Rightarrow> ('id, 'e, 'r) answer" where
  "overload_answer conf m req =
     Overloaded (req_id req) \<lparr>ov_method = rpc_method_name m, ov_limit = limit_for conf m\<rparr>"

text \<open>The future after an operation of \<open>try_acquire\<close>, and of \<open>release\<close>, that left its call at \<open>p\<close>.\<close>

definition after_acquire ::
  "backpressure_config \<Rightarrow> guarded_method \<Rightarrow> nat \<Rightarrow> pc \<Rightarrow> ('id, 'p, 'n, 'e, 'r) task \<Rightarrow>
   ('id, 'p, 'n, 'e, 'r) task" where
  "after_acquire conf m t p tk =
     (if p = Holding then tk\<lparr>stage := InnerGuarded m t\<rparr>
      else if p = Refused then
        (case queue tk of
           CallEntry req # es \<Rightarrow> tk\<lparr>queue := es, stage := Ready,
             answers := answers tk @ [overload_answer conf m req]\<rparr>
         | _ \<Rightarrow> tk)
      else tk)"

definition after_release :: "pc \<Rightarrow> ('id, 'p, 'n, 'e, 'r) task \<Rightarrow> ('id, 'p, 'n, 'e, 'r) task" where
  "after_release p tk = (if p = Done then tk\<lparr>stage := Ready\<rparr> else tk)"

definition set_task ::
  "nat \<Rightarrow> ('id, 'p, 'n, 'e, 'r) task \<Rightarrow> ('id, 'p, 'n, 'e, 'r) service_state \<Rightarrow>
   ('id, 'p, 'n, 'e, 'r) service_state" where
  "set_task c tk s = s\<lparr>tasks := (tasks s)(c := tk)\<rparr>"

definition set_gate ::
  "guarded_method \<Rightarrow> conc \<Rightarrow> ('id, 'p, 'n, 'e, 'r) service_state \<Rightarrow>
   ('id, 'p, 'n, 'e, 'r) service_state" where
  "set_gate m g s = s\<lparr>gates := (gates s)(m := g)\<rparr>"

subsection \<open>Steps\<close>

text \<open>
  A client sends a request when its last one is done. A batch without a guarded call goes to the
  inner service as a whole. \<open>cut_short\<close> is the early return of a batch whose response is full. A
  step of a gate is the future's own if it moves the future's call. The inner service is left by
  an answer or by dropping the future, which gives up the remaining entries.
\<close>

inductive service_step ::
  "backpressure_config \<Rightarrow> ('id, 'p, 'n, 'e, 'r) service_state \<Rightarrow>
   ('id, 'p, 'n, 'e, 'r) service_state \<Rightarrow> bool" for conf :: backpressure_config where
  send_call: "idle (tasks s c) \<Longrightarrow>
    service_step conf s (set_task c \<lparr>queue = [CallEntry req], stage = Ready, answers = []\<rparr> s)"
| send_notification: "idle (tasks s c) \<Longrightarrow>
    service_step conf s (set_task c \<lparr>queue = [NotificationEntry n], stage = Ready, answers = []\<rparr> s)"
| send_batch: "idle (tasks s c) \<Longrightarrow>
    service_step conf s (set_task c \<lparr>queue = es,
      stage = (if has_guarded_call (layer_new conf) es then Ready else InnerBatch), answers = []\<rparr> s)"
| err_entry: "stage (tasks s c) = Ready \<Longrightarrow> queue (tasks s c) = ErrEntry e i # es \<Longrightarrow>
    service_step conf s (set_task c ((tasks s c)\<lparr>queue := es,
      answers := answers (tasks s c) @ [EntryError e i]\<rparr>) s)"
| begin_plain: "stage (tasks s c) = Ready \<Longrightarrow> queue (tasks s c) = e # es \<Longrightarrow> plain conf e \<Longrightarrow>
    service_step conf s (set_task c ((tasks s c)\<lparr>stage := InnerPlain\<rparr>) s)"
| plain_returns: "stage (tasks s c) = InnerPlain \<Longrightarrow> queue (tasks s c) = e # es \<Longrightarrow>
    service_step conf s (set_task c \<lparr>queue = es, stage = Ready,
      answers = answers (tasks s c) @ plain_answer e r\<rparr> s)"
| batch_returns: "stage (tasks s c) = InnerBatch \<Longrightarrow>
    service_step conf s (set_task c \<lparr>queue = [], stage = Ready,
      answers = answers (tasks s c) @ [Answered r]\<rparr> s)"
| begin_guarded: "stage (tasks s c) = Ready \<Longrightarrow> queue (tasks s c) = CallEntry req # es \<Longrightarrow>
    classify_method (layer_new conf) (method_name req) = Some m \<Longrightarrow>
    service_step conf s (set_task c ((tasks s c)\<lparr>stage := Acquiring m (next_call s)\<rparr>)
      (s\<lparr>next_call := next_call s + 1\<rparr>))"
| acquire_op: "stage (tasks s c) = Acquiring m t \<Longrightarrow> step (limit_for conf m) (gates s m) g \<Longrightarrow>
    pcs g t \<noteq> pcs (gates s m) t \<Longrightarrow>
    service_step conf s (set_task c (after_acquire conf m t (pcs g t) (tasks s c)) (set_gate m g s))"
| inner_returns: "stage (tasks s c) = InnerGuarded m t \<Longrightarrow> queue (tasks s c) = e # es \<Longrightarrow>
    service_step conf s (set_task c \<lparr>queue = es, stage = Releasing m t,
      answers = answers (tasks s c) @ [Answered r]\<rparr> s)"
| release_op: "stage (tasks s c) = Releasing m t \<Longrightarrow> step (limit_for conf m) (gates s m) g \<Longrightarrow>
    pcs g t \<noteq> pcs (gates s m) t \<Longrightarrow>
    service_step conf s (set_task c (after_release (pcs g t) (tasks s c)) (set_gate m g s))"
| inner_dropped: "stage (tasks s c) = InnerGuarded m t \<Longrightarrow>
    service_step conf s (set_task c ((tasks s c)\<lparr>queue := [], stage := Releasing m t\<rparr>) s)"
| plain_dropped: "stage (tasks s c) \<in> {InnerPlain, InnerBatch} \<Longrightarrow>
    service_step conf s (set_task c ((tasks s c)\<lparr>queue := [], stage := Ready\<rparr>) s)"
| cut_short: "stage (tasks s c) = Ready \<Longrightarrow>
    service_step conf s (set_task c ((tasks s c)\<lparr>queue := []\<rparr>) s)"

definition service_reachable ::
  "backpressure_config \<Rightarrow> ('id, 'p, 'n, 'e, 'r) service_state \<Rightarrow> bool" where
  "service_reachable conf s \<longleftrightarrow> (service_step conf)\<^sup>*\<^sup>* service_init s"

lemma set_task_sel [simp]:
  "tasks (set_task c tk s) = (tasks s)(c := tk)" "gates (set_task c tk s) = gates s"
  "next_call (set_task c tk s) = next_call s"
  by (simp_all add: set_task_def)

lemma set_gate_sel [simp]:
  "tasks (set_gate m g s) = tasks s" "gates (set_gate m g s) = (gates s)(m := g)"
  "next_call (set_gate m g s) = next_call s"
  by (simp_all add: set_gate_def)

subsection \<open>The gates of the clients are the gates of the layer\<close>

lemma service_step_gates:
  "service_step conf s s' \<Longrightarrow> gates s' = gates s \<or> layer_step conf (gates s) (gates s')"
  by (erule service_step.cases) (auto intro: layer_step.on_gate)

lemma service_refines_layer:
  "service_reachable conf s \<Longrightarrow> (layer_step conf)\<^sup>*\<^sup>* layer_init (gates s)"
  unfolding service_reachable_def
proof (induction rule: rtranclp_induct)
  case (step s s')
  from service_step_gates [OF step(2)] step(3) show ?case
    by (auto intro: rtranclp.rtrancl_into_rtrancl)
qed (simp add: service_init_def)

lemma service_gate_reachable: "service_reachable conf s \<Longrightarrow> reachable (limit_for conf m) (gates s m)"
  by (rule layer_reachable) (rule service_refines_layer)

subsection \<open>Steps of one call\<close>

fun acquiring :: "pc \<Rightarrow> bool" where
  "acquiring Arrived = True"
| "acquiring (Loaded v) = True"
| "acquiring (Counted v) = True"
| "acquiring (Accepted v) = True"
| "acquiring p = False"

fun releasing :: "pc \<Rightarrow> bool" where
  "releasing Holding = True"
| "releasing (Subtracted v) = True"
| "releasing (Publishing v) = True"
| "releasing p = False"

lemma step_moves_one: "step limit g g' \<Longrightarrow> pcs g' t \<noteq> pcs g t \<Longrightarrow> pcs g' = (pcs g)(t := pcs g' t)"
  by (erule step.cases) (auto split: if_splits)

lemma step_acquiring:
  "step limit g g' \<Longrightarrow> acquiring (pcs g t) \<Longrightarrow> acquiring (pcs g' t) \<or> pcs g' t \<in> {Holding, Refused}"
  by (erule step.cases) (auto split: if_splits)

lemma step_releasing: "step limit g g' \<Longrightarrow> releasing (pcs g t) \<Longrightarrow> releasing (pcs g' t) \<or> pcs g' t = Done"
  by (erule step.cases) (auto split: if_splits)

lemma step_hist: "step limit g g' \<Longrightarrow> set (hist g) \<subseteq> set (hist g')"
  by (erule step.cases) auto

lemma not_acquiring_final: "acquiring p \<Longrightarrow> p \<noteq> Holding \<and> p \<noteq> Refused \<and> p \<noteq> Done"
  by (cases p) simp_all

lemma not_releasing_final: "releasing p \<Longrightarrow> p \<noteq> Done \<and> p \<noteq> Refused \<and> p \<noteq> Arrived"
  by (cases p) simp_all

subsection \<open>The invariant\<close>

text \<open>The call a future has under way, and what its stage says of it and of its queue.\<close>

fun stage_call :: "stage \<Rightarrow> (guarded_method \<times> nat) option" where
  "stage_call (Acquiring m t) = Some (m, t)"
| "stage_call (InnerGuarded m t) = Some (m, t)"
| "stage_call (Releasing m t) = Some (m, t)"
| "stage_call st = None"

fun stage_pc :: "stage \<Rightarrow> pc \<Rightarrow> bool" where
  "stage_pc (Acquiring m t) p = acquiring p"
| "stage_pc (InnerGuarded m t) p = (p = Holding)"
| "stage_pc (Releasing m t) p = releasing p"
| "stage_pc st p = True"

definition guarded_head ::
  "backpressure_config \<Rightarrow> guarded_method \<Rightarrow> ('id, 'p, 'n, 'e) batch_entry list \<Rightarrow> bool" where
  "guarded_head conf m q \<longleftrightarrow> (\<exists>req es. q = CallEntry req # es \<and>
     classify_method (layer_new conf) (method_name req) = Some m)"

fun stage_queue :: "backpressure_config \<Rightarrow> stage \<Rightarrow> ('id, 'p, 'n, 'e) batch_entry list \<Rightarrow> bool" where
  "stage_queue conf (Acquiring m t) q = guarded_head conf m q"
| "stage_queue conf (InnerGuarded m t) q = guarded_head conf m q"
| "stage_queue conf InnerPlain q = (\<exists>e es. q = e # es \<and> plain conf e)"
| "stage_queue conf InnerBatch q = (\<not> has_guarded_call (layer_new conf) q)"
| "stage_queue conf st q = True"

text \<open>An overload error names the gate that refused, which is not disabled and had been full.\<close>

definition answer_ok :: "backpressure_config \<Rightarrow> layer_state \<Rightarrow> ('id, 'e, 'r) answer \<Rightarrow> bool" where
  "answer_ok conf g a \<longleftrightarrow> (\<forall>i d. a = Overloaded i d \<longrightarrow>
     (\<exists>m. d = \<lparr>ov_method = rpc_method_name m, ov_limit = limit_for conf m\<rparr> \<and>
       limit_for conf m \<noteq> 0 \<and> limit_for conf m \<in> set (hist (g m))))"

lemma answer_ok_mono:
  "answer_ok conf g a \<Longrightarrow> \<forall>k. set (hist (g k)) \<subseteq> set (hist (g' k)) \<Longrightarrow> answer_ok conf g' a"
  unfolding answer_ok_def by blast

definition task_ok ::
  "backpressure_config \<Rightarrow> layer_state \<Rightarrow> nat \<Rightarrow> ('id, 'p, 'n, 'e, 'r) task \<Rightarrow> bool" where
  "task_ok conf g n tk \<longleftrightarrow>
     (\<forall>m t. stage_call (stage tk) = Some (m, t) \<longrightarrow> t < n \<and> stage_pc (stage tk) (pcs (g m) t)) \<and>
     stage_queue conf (stage tk) (queue tk) \<and> (\<forall>a \<in> set (answers tk). answer_ok conf g a)"

text \<open>
  Numbers not given out yet have no call, every call under way belongs to one future, and only
  finitely many futures are at work.
\<close>

definition service_inv :: "backpressure_config \<Rightarrow> ('id, 'p, 'n, 'e, 'r) service_state \<Rightarrow> bool" where
  "service_inv conf s \<longleftrightarrow>
     (\<forall>m t. next_call s \<le> t \<longrightarrow> pcs (gates s m) t = Arrived) \<and>
     (\<forall>c. task_ok conf (gates s) (next_call s) (tasks s c)) \<and>
     (\<forall>c d. stage_call (stage (tasks s c)) \<noteq> None \<longrightarrow>
        stage_call (stage (tasks s c)) = stage_call (stage (tasks s d)) \<longrightarrow> c = d) \<and>
     (\<forall>m. \<forall>t \<in> active (gates s m). \<exists>c. stage_call (stage (tasks s c)) = Some (m, t)) \<and>
     finite {c. \<not> idle (tasks s c)}"

lemma service_inv_init: "service_inv conf service_init"
  by (simp add: service_inv_def service_init_def idle_task_def idle_def task_ok_def layer_init_def
      active_init) (simp add: conc_init_def)

lemma working_finite: "finite {d. \<not> idle (f d)} \<Longrightarrow> finite {d. \<not> idle ((f(c := tk)) d)}"
  by (rule finite_subset [of _ "insert c {d. \<not> idle (f d)}"]) auto

lemma task_ok_mono: "task_ok conf g n tk \<Longrightarrow> n \<le> n' \<Longrightarrow> task_ok conf g n' tk"
  unfolding task_ok_def by force

lemma service_invD:
  assumes "service_inv conf s"
  shows "next_call s \<le> t \<Longrightarrow> pcs (gates s m) t = Arrived"
    and "task_ok conf (gates s) (next_call s) (tasks s c)"
    and "stage_call (stage (tasks s c)) = Some k \<Longrightarrow> stage_call (stage (tasks s d)) = Some k \<Longrightarrow> c = d"
    and "t \<in> active (gates s m) \<Longrightarrow> \<exists>c. stage_call (stage (tasks s c)) = Some (m, t)"
    and "finite {c. \<not> idle (tasks s c)}"
  using assms unfolding service_inv_def by (blast, blast, metis option.distinct(1), blast, blast)

text \<open>A step of a future alone keeps its call, or has none.\<close>

lemma service_inv_task:
  assumes "service_inv conf s" and "task_ok conf (gates s) (next_call s) tk"
    and "stage_call (stage tk) = stage_call (stage (tasks s c))"
  shows "service_inv conf (set_task c tk s)"
proof -
  have same: "stage_call (stage (((tasks s)(c := tk)) d)) = stage_call (stage (tasks s d))" for d
    using assms(3) by simp
  have "finite {d. \<not> idle (((tasks s)(c := tk)) d)}"
    by (rule working_finite) (rule service_invD(5) [OF assms(1)])
  then show ?thesis using assms(1,2) unfolding service_inv_def set_task_sel same
    by - (elim conjE, intro conjI, assumption, simp, assumption, simp, assumption)
qed

text \<open>A new call takes the next number.\<close>

lemma service_inv_begin:
  assumes "service_inv conf s" and "stage_call (stage (tasks s c)) = None"
    and "stage_call (stage tk) = Some (m, next_call s)"
    and "task_ok conf (gates s) (next_call s + 1) tk"
  shows "service_inv conf (set_task c tk (s\<lparr>next_call := next_call s + 1\<rparr>))"
proof -
  note inv = service_invD [OF assms(1)]
  have fresh: "stage_call (stage (tasks s d)) \<noteq> Some (m, next_call s)" for d
    using inv(2) [of d] by (auto simp: task_ok_def)
  show ?thesis unfolding service_inv_def set_task_sel
  proof (intro conjI allI ballI impI)
    fix d show "task_ok conf (gates (s\<lparr>next_call := next_call s + 1\<rparr>)) (next_call (s\<lparr>next_call := next_call s + 1\<rparr>))
        (((tasks (s\<lparr>next_call := next_call s + 1\<rparr>))(c := tk)) d)"
      using assms(4) task_ok_mono [OF inv(2) [of d], of "next_call s + 1"] by simp
  next
    fix d d'
    assume "stage_call (stage (((tasks (s\<lparr>next_call := next_call s + 1\<rparr>))(c := tk)) d)) \<noteq> None"
      and "stage_call (stage (((tasks (s\<lparr>next_call := next_call s + 1\<rparr>))(c := tk)) d)) =
        stage_call (stage (((tasks (s\<lparr>next_call := next_call s + 1\<rparr>))(c := tk)) d'))"
    then show "d = d'" using assms(3) fresh [of d] fresh [of d'] inv(3) by (auto split: if_splits)
  next
    fix k t assume "t \<in> active (gates (s\<lparr>next_call := next_call s + 1\<rparr>) k)"
    then obtain d where "stage_call (stage (tasks s d)) = Some (k, t)" using inv(4) by auto
    then show "\<exists>d. stage_call (stage (((tasks (s\<lparr>next_call := next_call s + 1\<rparr>))(c := tk)) d)) = Some (k, t)"
      using assms(2) by (intro exI [of _ d]) auto
  qed (use inv(1) working_finite [OF inv(5)] in \<open>simp_all\<close>)
qed

text \<open>An operation of a call on its gate; the call may end.\<close>

lemma service_inv_gate:
  assumes "service_inv conf s" and own: "stage_call (stage (tasks s c)) = Some (m, t)"
    and step: "step (limit_for conf m) (gates s m) g" "pcs g t \<noteq> pcs (gates s m) t"
    and ok: "task_ok conf ((gates s)(m := g)) (next_call s) tk"
    and call: "stage_call (stage tk) = Some (m, t) \<or>
      stage_call (stage tk) = None \<and> pcs g t \<in> {Arrived, Done, Refused}"
  shows "service_inv conf (set_task c tk (set_gate m g s))"
proof -
  note inv = service_invD [OF assms(1)]
  have pcs: "pcs g = (pcs (gates s m))(t := pcs g t)" by (rule step_moves_one [OF step])
  have t: "t < next_call s" using inv(2) [of c] own by (simp add: task_ok_def)
  have hist: "\<forall>k. set (hist (gates s k)) \<subseteq> set (hist (((gates s)(m := g)) k))"
    using step_hist [OF step(1)] by simp
  have others: "task_ok conf ((gates s)(m := g)) (next_call s) (tasks s d)" if "d \<noteq> c" for d
  proof -
    have "stage_call (stage (tasks s d)) \<noteq> Some (m, t)" using inv(3) own that by blast
    then have "pcs (((gates s)(m := g)) k) u = pcs (gates s k) u"
      if "stage_call (stage (tasks s d)) = Some (k, u)" for k u
      using that fun_cong [OF pcs, of u] by (cases "k = m"; cases "u = t") auto
    moreover have "\<forall>a \<in> set (answers (tasks s d)). answer_ok conf ((gates s)(m := g)) a"
      using inv(2) [of d] answer_ok_mono [OF _ hist] unfolding task_ok_def by blast
    ultimately show ?thesis using inv(2) [of d] unfolding task_ok_def by (simp del: fun_upd_apply)
  qed
  show ?thesis unfolding service_inv_def set_task_sel set_gate_sel
  proof (intro conjI allI ballI impI)
    fix k u assume "next_call s \<le> u"
    with t inv(1) fun_cong [OF pcs, of u] show "pcs (((gates s)(m := g)) k) u = Arrived"
      by (cases "k = m") auto
  next
    fix d show "task_ok conf ((gates s)(m := g)) (next_call s) (((tasks s)(c := tk)) d)"
      using ok others by simp
  next
    fix d d' assume "stage_call (stage (((tasks s)(c := tk)) d)) \<noteq> None"
      and "stage_call (stage (((tasks s)(c := tk)) d)) = stage_call (stage (((tasks s)(c := tk)) d'))"
    with call inv(3) own show "d = d'" by (auto split: if_splits)
  next
    fix k u assume u: "u \<in> active (((gates s)(m := g)) k)"
    show "\<exists>d. stage_call (stage (((tasks s)(c := tk)) d)) = Some (k, u)"
    proof (cases "k = m \<and> u = t")
      case True
      with u call show ?thesis by (intro exI [of _ c]) (auto simp: active_def)
    next
      case False
      with u fun_cong [OF pcs, of u] have "u \<in> active (gates s k)"
        by (cases "k = m") (auto simp: active_def)
      with inv(4) obtain d where d: "stage_call (stage (tasks s d)) = Some (k, u)" by blast
      with own False have "d \<noteq> c" by auto
      with d show ?thesis by (intro exI [of _ d]) simp
    qed
  qed (rule working_finite [OF inv(5)])
qed

lemma refused_full:
  assumes "reachable limit g" and "pcs g t = Refused"
  shows "limit \<in> set (hist g)"
  using reachable_inv [OF assms(1)] assms(2) by (auto simp: conc_inv_def dest!: spec [of _ t])

lemma classify_SomeD:
  "classify_method (layer_new conf) n = Some m \<Longrightarrow> from_rpc_method n = Some m \<and> limit_for conf m \<noteq> 0"
  unfolding classify_method_def layer_new_def state_new_def by (simp split: option.splits if_splits)

lemma classify_NoneD:
  "classify_method (layer_new conf) n = None \<Longrightarrow> from_rpc_method n = Some m \<Longrightarrow> limit_for conf m = 0"
  unfolding classify_method_def layer_new_def state_new_def
  by (simp add: word_gt_0 split: if_splits)

lemma guarded_head_limit: "guarded_head conf m q \<Longrightarrow> limit_for conf m \<noteq> 0"
  unfolding guarded_head_def using classify_SomeD by blast

lemma acquire_keeps_inv:
  assumes inv: "service_inv conf s" and r: "reachable (limit_for conf m) (gates s m)"
    and st: "stage (tasks s c) = Acquiring m t"
    and step: "step (limit_for conf m) (gates s m) g" "pcs g t \<noteq> pcs (gates s m) t"
  shows "service_inv conf (set_task c (after_acquire conf m t (pcs g t) (tasks s c)) (set_gate m g s))"
proof -
  let ?tk = "after_acquire conf m t (pcs g t) (tasks s c)"
  note ok = service_invD(2) [OF inv, of c, unfolded task_ok_def]
  have acq: "acquiring (pcs (gates s m) t)" and t: "t < next_call s"
    and head: "guarded_head conf m (queue (tasks s c))" using ok st by auto
  have hist: "\<forall>k. set (hist (gates s k)) \<subseteq> set (hist (((gates s)(m := g)) k))"
    using step_hist [OF step(1)] by simp
  have refused: "limit_for conf m \<in> set (hist g)" if "pcs g t = Refused"
    by (rule refused_full [OF reachable_step [OF r step(1)] that])
  have old: "\<forall>a \<in> set (answers (tasks s c)). answer_ok conf ((gates s)(m := g)) a"
    using ok answer_ok_mono [OF _ hist] by blast
  have new: "answer_ok conf ((gates s)(m := g)) (overload_answer conf m req)" if "pcs g t = Refused"
    for req :: "('a, 'b) rpc_request"
    using refused [OF that] guarded_head_limit [OF head] by (auto simp: answer_ok_def overload_answer_def)
  have "stage_call (stage (tasks s c)) = Some (m, t)" by (simp add: st)
  note upd = service_inv_gate [OF inv this step]
  consider "acquiring (pcs g t)" | "pcs g t = Holding" | "pcs g t = Refused"
    using step_acquiring [OF step(1) acq] by blast
  then show ?thesis
  proof cases
    case 1
    then have "?tk = tasks s c" using not_acquiring_final [OF 1] by (simp add: after_acquire_def)
    with 1 st t head old show ?thesis by (intro upd) (simp_all add: task_ok_def)
  next
    case 2
    then have "?tk = (tasks s c)\<lparr>stage := InnerGuarded m t\<rparr>" by (simp add: after_acquire_def)
    with 2 t head old show ?thesis by (intro upd) (simp_all add: task_ok_def)
  next
    case 3
    obtain req es where "queue (tasks s c) = CallEntry req # es"
      using head by (auto simp: guarded_head_def)
    with 3 have "?tk = (tasks s c)\<lparr>queue := es, stage := Ready,
        answers := answers (tasks s c) @ [overload_answer conf m req]\<rparr>"
      by (simp add: after_acquire_def)
    with 3 old new [OF 3] show ?thesis by (intro upd) (simp_all add: task_ok_def ball_Un)
  qed
qed

lemma release_keeps_inv:
  assumes inv: "service_inv conf s" and st: "stage (tasks s c) = Releasing m t"
    and step: "step (limit_for conf m) (gates s m) g" "pcs g t \<noteq> pcs (gates s m) t"
  shows "service_inv conf (set_task c (after_release (pcs g t) (tasks s c)) (set_gate m g s))"
proof -
  let ?tk = "after_release (pcs g t) (tasks s c)"
  note ok = service_invD(2) [OF inv, of c, unfolded task_ok_def]
  have rel: "releasing (pcs (gates s m) t)" and t: "t < next_call s" using ok st by auto
  have hist: "\<forall>k. set (hist (gates s k)) \<subseteq> set (hist (((gates s)(m := g)) k))"
    using step_hist [OF step(1)] by simp
  have old: "\<forall>a \<in> set (answers (tasks s c)). answer_ok conf ((gates s)(m := g)) a"
    using ok answer_ok_mono [OF _ hist] by blast
  have "stage_call (stage (tasks s c)) = Some (m, t)" by (simp add: st)
  note upd = service_inv_gate [OF inv this step]
  consider "releasing (pcs g t)" | "pcs g t = Done" using step_releasing [OF step(1) rel] by blast
  then show ?thesis
  proof cases
    case 1
    then have "?tk = tasks s c" using not_releasing_final [OF 1] by (simp add: after_release_def)
    with 1 st t old show ?thesis by (intro upd) (simp_all add: task_ok_def)
  next
    case 2
    then have "?tk = (tasks s c)\<lparr>stage := Ready\<rparr>" by (simp add: after_release_def)
    with 2 old show ?thesis by (intro upd) (simp_all add: task_ok_def)
  qed
qed

lemma answer_ok_simps [simp]:
  "answer_ok conf g (Answered r)" "answer_ok conf g (EntryError e i)"
  by (simp_all add: answer_ok_def)

lemma service_inv_step:
  assumes "service_step conf s s'" and inv: "service_inv conf s"
    and r: "\<And>m. reachable (limit_for conf m) (gates s m)"
  shows "service_inv conf s'"
  using assms(1)
proof (cases rule: service_step.cases)
  case (begin_guarded c req es m)
  have "task_ok conf (gates s) (next_call s + 1) ((tasks s c)\<lparr>stage := Acquiring m (next_call s)\<rparr>)"
    using service_invD(1,2) [OF inv] begin_guarded by (auto simp: task_ok_def guarded_head_def)
  from service_inv_begin [OF inv _ _ this] begin_guarded show ?thesis by simp
next
  case (acquire_op c m t g)
  with acquire_keeps_inv [OF inv r] show ?thesis by simp
next
  case (release_op c m t g)
  with release_keeps_inv [OF inv] show ?thesis by simp
next
  case (inner_returns c m t e es r)
  show ?thesis unfolding inner_returns(1)
    by (rule service_inv_task [OF inv])
      (use service_invD(2) [OF inv, of c] inner_returns in \<open>auto simp: task_ok_def\<close>)
next
  case (inner_dropped c m t)
  show ?thesis unfolding inner_dropped(1)
    by (rule service_inv_task [OF inv])
      (use service_invD(2) [OF inv, of c] inner_dropped in \<open>auto simp: task_ok_def\<close>)
next
  case (plain_dropped c)
  show ?thesis unfolding plain_dropped(1)
    by (rule service_inv_task [OF inv])
      (use service_invD(2) [OF inv, of c] plain_dropped in \<open>auto simp: task_ok_def\<close>)
next
  case (cut_short c)
  show ?thesis unfolding cut_short(1)
    by (rule service_inv_task [OF inv])
      (use service_invD(2) [OF inv, of c] cut_short in \<open>auto simp: task_ok_def\<close>)
qed (use service_invD(2) [OF inv] in
    \<open>fastforce intro!: service_inv_task [OF inv] simp: idle_def task_ok_def plain_answer_def\<close>)+

lemma service_reachable_inv: "service_reachable conf s \<Longrightarrow> service_inv conf s"
  unfolding service_reachable_def
proof (induction rule: rtranclp_induct)
  case (step s s')
  then have "service_reachable conf s" by (simp add: service_reachable_def)
  with step show ?case by (blast intro: service_inv_step service_gate_reachable)
qed (rule service_inv_init)

subsection \<open>Every request can be completed\<close>

text \<open>The responses a future still owes.\<close>

definition awaited :: "('id, 'p, 'n, 'e, 'r) task \<Rightarrow> nat" where
  "awaited tk = (if stage tk = InnerBatch then 1
     else length (filter (\<lambda>e. \<not> is_notification e) (queue tk)))"

text \<open>Some steps of one future, none of which drops it or cuts its batch short.\<close>

definition advances ::
  "backpressure_config \<Rightarrow> nat \<Rightarrow> ('id, 'p, 'n, 'e, 'r) service_state \<Rightarrow>
   ('id, 'p, 'n, 'e, 'r) service_state \<Rightarrow> bool" where
  "advances conf c s s' \<longleftrightarrow> (service_step conf)\<^sup>*\<^sup>* s s' \<and> (\<forall>d. d \<noteq> c \<longrightarrow> tasks s' d = tasks s d) \<and>
     length (answers (tasks s' c)) + awaited (tasks s' c) =
       length (answers (tasks s c)) + awaited (tasks s c)"

lemma advances_refl: "advances conf c s s"
  by (simp add: advances_def)

lemma advances_trans: "advances conf c s s1 \<Longrightarrow> advances conf c s1 s2 \<Longrightarrow> advances conf c s s2"
  by (auto simp: advances_def intro: rtranclp_trans)

lemma advances_step:
  assumes "service_step conf s (set_task c tk s1)" and "tasks s1 = tasks s"
    and "length (answers tk) + awaited tk = length (answers (tasks s c)) + awaited (tasks s c)"
  shows "advances conf c s (set_task c tk s1)"
  using assms by (auto simp: advances_def)

lemma advances_reachable: "advances conf c s s' \<Longrightarrow> service_reachable conf s \<Longrightarrow> service_reachable conf s'"
  by (auto simp: advances_def service_reachable_def intro: rtranclp_trans)

text \<open>A call can be brought through \<open>try_acquire\<close>, and through \<open>release\<close>, without the others.\<close>

inductive acquire_run :: "usize \<Rightarrow> nat \<Rightarrow> conc \<Rightarrow> conc \<Rightarrow> bool" for limit :: usize and t :: nat where
  last_step: "step limit g g' \<Longrightarrow> pcs g' t \<noteq> pcs g t \<Longrightarrow> pcs g' t \<in> {Holding, Refused} \<Longrightarrow>
    acquire_run limit t g g'"
| next_step: "step limit g g1 \<Longrightarrow> pcs g1 t \<noteq> pcs g t \<Longrightarrow> acquiring (pcs g1 t) \<Longrightarrow>
    acquire_run limit t g1 g' \<Longrightarrow> acquire_run limit t g g'"

inductive release_run :: "usize \<Rightarrow> nat \<Rightarrow> conc \<Rightarrow> conc \<Rightarrow> bool" for limit :: usize and t :: nat where
  last_release: "step limit g g' \<Longrightarrow> pcs g' t \<noteq> pcs g t \<Longrightarrow> pcs g' t = Done \<Longrightarrow> release_run limit t g g'"
| next_release: "step limit g g1 \<Longrightarrow> pcs g1 t \<noteq> pcs g t \<Longrightarrow> releasing (pcs g1 t) \<Longrightarrow>
    release_run limit t g1 g' \<Longrightarrow> release_run limit t g g'"

lemma acquire_run_final: "acquire_run limit t g g' \<Longrightarrow> pcs g' t \<in> {Holding, Refused}"
  by (induction rule: acquire_run.induct) auto

text \<open>The result of a run that no other call interferes with.\<close>

definition fresh_acquire :: "usize \<Rightarrow> nat \<Rightarrow> conc \<Rightarrow> conc" where
  "fresh_acquire limit t g =
     (if ctr g < limit
      then move t Holding ((put (ctr g + 1) g)\<lparr>accepted := accepted g + 1, gauge := Some (ctr g + 1)\<rparr>)
      else move t Refused (g\<lparr>rejected := rejected g + 1\<rparr>))"

definition fresh_release :: "nat \<Rightarrow> conc \<Rightarrow> conc" where
  "fresh_release t g =
     move t Done ((if ctr g = 0 then put 0 (put (ctr g - 1) g) else put (ctr g - 1) g)
       \<lparr>gauge := Some (saturating_sub (ctr g) 1)\<rparr>)"

lemma run_accepted:
  assumes "pcs g t = Accepted v"
  shows "acquire_run limit t g (move t Holding (g\<lparr>gauge := Some (v + 1)\<rparr>))"
  by (rule acquire_run.last_step [OF step.granted [OF assms]]) (simp_all add: assms)

lemma run_counted:
  assumes "pcs g t = Counted v"
  shows "acquire_run limit t g (move t Holding (g\<lparr>accepted := accepted g + 1, gauge := Some (v + 1)\<rparr>))"
proof (rule acquire_run.next_step [OF step.accept [OF assms]])
  let ?g1 = "move t (Accepted v) (g\<lparr>accepted := accepted g + 1\<rparr>)"
  have "acquire_run limit t ?g1 (move t Holding (?g1\<lparr>gauge := Some (v + 1)\<rparr>))"
    by (rule run_accepted) simp
  moreover have "move t Holding (?g1\<lparr>gauge := Some (v + 1)\<rparr>) =
      move t Holding (g\<lparr>accepted := accepted g + 1, gauge := Some (v + 1)\<rparr>)"
    by (simp add: move_def)
  ultimately show "acquire_run limit t ?g1 (move t Holding (g\<lparr>accepted := accepted g + 1, gauge := Some (v + 1)\<rparr>))"
    by simp
qed (simp_all add: assms)

lemma run_loaded_fresh:
  assumes "pcs g t = Loaded (ctr g)"
  shows "acquire_run limit t g (fresh_acquire limit t g)"
proof (cases "ctr g < limit")
  case True
  let ?g1 = "move t (Counted (ctr g)) (put (ctr g + 1) g)"
  have "acquire_run limit t ?g1 (move t Holding (?g1\<lparr>accepted := accepted ?g1 + 1, gauge := Some (ctr g + 1)\<rparr>))"
    by (rule run_counted) simp
  moreover have "move t Holding (?g1\<lparr>accepted := accepted ?g1 + 1, gauge := Some (ctr g + 1)\<rparr>) =
      fresh_acquire limit t g"
    using True by (simp add: fresh_acquire_def move_def put_def)
  ultimately have "acquire_run limit t ?g1 (fresh_acquire limit t g)" by simp
  then show ?thesis
    by (rule acquire_run.next_step [OF step.exchange [OF assms True refl], rotated 2]) (simp_all add: assms)
next
  case False
  then have "ctr g \<ge> limit" by simp
  from acquire_run.last_step [OF step.refuse [OF assms this], of t] False assms show ?thesis
    by (simp add: fresh_acquire_def)
qed

lemma run_arrived:
  assumes "pcs g t = Arrived" and "ctr g \<in> set (hist g)"
  shows "acquire_run limit t g (fresh_acquire limit t g)"
proof -
  let ?g1 = "move t (Loaded (ctr g)) g"
  have "acquire_run limit t ?g1 (fresh_acquire limit t ?g1)" by (rule run_loaded_fresh) simp
  moreover have "fresh_acquire limit t ?g1 = fresh_acquire limit t g"
    by (simp add: fresh_acquire_def move_def put_def)
  ultimately have "acquire_run limit t ?g1 (fresh_acquire limit t g)" by simp
  then show ?thesis
    by (rule acquire_run.next_step [OF step.load [OF assms], rotated 2]) (simp_all add: assms)
qed

lemma acquire_run_exists:
  assumes "acquiring (pcs g t)" and "ctr g \<in> set (hist g)"
  shows "\<exists>g'. acquire_run limit t g g'"
  using assms(1)
proof (cases "pcs g t")
  case Arrived
  from run_arrived [OF this assms(2)] show ?thesis by blast
next
  case (Loaded v)
  show ?thesis
  proof (cases "v < limit")
    case True
    have "\<exists>g'. acquire_run limit t (move t Arrived g) g'"
      using run_arrived [of "move t Arrived g" t limit] assms(2) by auto
    then obtain g' where "acquire_run limit t (move t Arrived g) g'" ..
    then have "acquire_run limit t g g'"
      by (rule acquire_run.next_step [OF step.exchange_fails [OF Loaded True], rotated 2])
        (simp_all add: Loaded)
    then show ?thesis ..
  next
    case False
    then have "v \<ge> limit" by simp
    from acquire_run.last_step [OF step.refuse [OF Loaded this], of t] Loaded show ?thesis by auto
  qed
next
  case (Counted v)
  from run_counted [OF this] show ?thesis ..
next
  case (Accepted v)
  from run_accepted [OF this] show ?thesis ..
qed simp_all

lemma run_publishing:
  assumes "pcs g t = Publishing n"
  shows "release_run limit t g (move t Done (g\<lparr>gauge := Some n\<rparr>))"
  by (rule release_run.last_release [OF step.publish [OF assms]]) (simp_all add: assms)

lemma run_subtracted:
  assumes "pcs g t = Subtracted n"
  shows "release_run limit t g
    (move t Done ((if n = 0 then put 0 g else g)\<lparr>gauge := Some (saturating_sub n 1)\<rparr>))"
proof (cases "n = 0")
  case True
  let ?g1 = "move t (Publishing (saturating_sub n 1)) (put 0 g)"
  have "release_run limit t ?g1 (move t Done (?g1\<lparr>gauge := Some (saturating_sub n 1)\<rparr>))"
    by (rule run_publishing) simp
  then have "release_run limit t g (move t Done (?g1\<lparr>gauge := Some (saturating_sub n 1)\<rparr>))"
    by (rule release_run.next_release [OF step.prev_zero [OF assms True], rotated 2]) (simp_all add: assms)
  then show ?thesis using True by (simp add: move_def)
next
  case False
  let ?g1 = "move t (Publishing (saturating_sub n 1)) g"
  have "release_run limit t ?g1 (move t Done (?g1\<lparr>gauge := Some (saturating_sub n 1)\<rparr>))"
    by (rule run_publishing) simp
  then have "release_run limit t g (move t Done (?g1\<lparr>gauge := Some (saturating_sub n 1)\<rparr>))"
    by (rule release_run.next_release [OF step.prev_positive [OF assms False], rotated 2])
      (simp_all add: assms)
  then show ?thesis using False by (simp add: move_def)
qed

lemma run_holding:
  assumes "pcs g t = Holding"
  shows "release_run limit t g (fresh_release t g)"
proof -
  let ?g1 = "move t (Subtracted (ctr g)) (put (ctr g - 1) g)"
  have "release_run limit t ?g1 (move t Done ((if ctr g = 0 then put 0 ?g1 else ?g1)
      \<lparr>gauge := Some (saturating_sub (ctr g) 1)\<rparr>))"
    by (rule run_subtracted) simp
  moreover have "move t Done ((if ctr g = 0 then put 0 ?g1 else ?g1)
      \<lparr>gauge := Some (saturating_sub (ctr g) 1)\<rparr>) = fresh_release t g"
    by (simp add: fresh_release_def move_def put_def)
  ultimately have "release_run limit t ?g1 (fresh_release t g)" by simp
  then show ?thesis
    by (rule release_run.next_release [OF step.fetch_sub [OF assms], rotated 2]) (simp_all add: assms)
qed

lemma release_run_exists: "releasing (pcs g t) \<Longrightarrow> \<exists>g'. release_run limit t g g'"
proof (cases "pcs g t")
  case Holding
  from run_holding [OF this] show ?thesis ..
next
  case (Subtracted n)
  from run_subtracted [OF this] show ?thesis ..
next
  case (Publishing n)
  from run_publishing [OF this] show ?thesis ..
qed simp_all

text \<open>The same run, done by the future that owns the call.\<close>

lemma acquire_lift:
  assumes "acquire_run (limit_for conf m) t (gates s m) g'" and "stage (tasks s c) = Acquiring m t"
  shows "\<exists>s'. (service_step conf)\<^sup>*\<^sup>* s s' \<and> gates s' = (gates s)(m := g') \<and>
    tasks s' = (tasks s)(c := after_acquire conf m t (pcs g' t) (tasks s c))"
  using assms
proof (induction "gates s m" g' arbitrary: s rule: acquire_run.induct)
  case (last_step g')
  from service_step.acquire_op [OF last_step(4,1,2)] show ?case
    by (intro exI conjI) (erule r_into_rtranclp, simp_all)
next
  case (next_step g1 g')
  let ?s1 = "set_task c (tasks s c) (set_gate m g1 s)"
  have "after_acquire conf m t (pcs g1 t) (tasks s c) = tasks s c"
    using not_acquiring_final [OF next_step(3)] by (simp add: after_acquire_def)
  with service_step.acquire_op [OF next_step(6,1,2)] have 1: "service_step conf s ?s1" by simp
  have "g1 = gates ?s1 m" "stage (tasks ?s1 c) = Acquiring m t" using next_step(6) by simp_all
  from next_step(5) [OF this] obtain s' where "(service_step conf)\<^sup>*\<^sup>* ?s1 s'" "gates s' = (gates ?s1)(m := g')"
    "tasks s' = (tasks ?s1)(c := after_acquire conf m t (pcs g' t) (tasks ?s1 c))" by blast
  with 1 show ?case by (intro exI [of _ s']) (auto intro: converse_rtranclp_into_rtranclp)
qed

lemma release_lift:
  assumes "release_run (limit_for conf m) t (gates s m) g'" and "stage (tasks s c) = Releasing m t"
  shows "\<exists>s'. (service_step conf)\<^sup>*\<^sup>* s s' \<and> gates s' = (gates s)(m := g') \<and>
    tasks s' = (tasks s)(c := (tasks s c)\<lparr>stage := Ready\<rparr>)"
  using assms
proof (induction "gates s m" g' arbitrary: s rule: release_run.induct)
  case (last_release g')
  from service_step.release_op [OF last_release(4,1,2)] last_release(3) show ?case
    by (intro exI conjI) (erule r_into_rtranclp, simp_all add: after_release_def)
next
  case (next_release g1 g')
  let ?s1 = "set_task c (tasks s c) (set_gate m g1 s)"
  have "after_release (pcs g1 t) (tasks s c) = tasks s c"
    using not_releasing_final [OF next_release(3)] by (simp add: after_release_def)
  with service_step.release_op [OF next_release(6,1,2)] have 1: "service_step conf s ?s1" by simp
  have "g1 = gates ?s1 m" "stage (tasks ?s1 c) = Releasing m t" using next_release(6) by simp_all
  from next_release(5) [OF this] obtain s' where "(service_step conf)\<^sup>*\<^sup>* ?s1 s'" "gates s' = (gates ?s1)(m := g')"
    "tasks s' = (tasks ?s1)(c := (tasks ?s1 c)\<lparr>stage := Ready\<rparr>)" by blast
  with 1 show ?case by (intro exI [of _ s']) (auto intro: converse_rtranclp_into_rtranclp)
qed

lemma advances_release:
  assumes "service_reachable conf s" and st: "stage (tasks s c) = Releasing m t"
  shows "\<exists>s'. advances conf c s s' \<and> stage (tasks s' c) = Ready \<and> queue (tasks s' c) = queue (tasks s c)"
proof -
  have "releasing (pcs (gates s m) t)"
    using service_invD(2) [OF service_reachable_inv [OF assms(1)], of c] st by (auto simp: task_ok_def)
  then obtain g where "release_run (limit_for conf m) t (gates s m) g" using release_run_exists by blast
  from release_lift [OF this st] obtain s' where
    "(service_step conf)\<^sup>*\<^sup>* s s'" "tasks s' = (tasks s)(c := (tasks s c)\<lparr>stage := Ready\<rparr>)" by blast
  then show ?thesis using st by (intro exI [of _ s']) (simp add: advances_def awaited_def)
qed

lemma advances_inner:
  assumes r: "service_reachable conf s" and st: "stage (tasks s c) = InnerGuarded m t"
  shows "\<exists>s'. advances conf c s s' \<and> stage (tasks s' c) = Ready \<and> queue (tasks s' c) = tl (queue (tasks s c))"
proof -
  have "guarded_head conf m (queue (tasks s c))"
    using service_invD(2) [OF service_reachable_inv [OF r], of c] st by (simp add: task_ok_def)
  then obtain req es where q: "queue (tasks s c) = CallEntry req # es" by (auto simp: guarded_head_def)
  let ?tk = "\<lparr>queue = es, stage = Releasing m t, answers = answers (tasks s c) @ [Answered undefined]\<rparr>"
  have one: "advances conf c s (set_task c ?tk s)"
    by (rule advances_step [OF service_step.inner_returns [OF st q]]) (simp_all add: awaited_def st q)
  from advances_release [OF advances_reachable [OF one r], of c m t] obtain s' where
    "advances conf c (set_task c ?tk s) s'" "stage (tasks s' c) = Ready" "queue (tasks s' c) = es" by auto
  with advances_trans [OF one] q show ?thesis by auto
qed

lemma advances_acquire:
  assumes r: "service_reachable conf s" and st: "stage (tasks s c) = Acquiring m t"
  shows "\<exists>s'. advances conf c s s' \<and> stage (tasks s' c) = Ready \<and> queue (tasks s' c) = tl (queue (tasks s c))"
proof -
  let ?tk = "tasks s c"
  have "guarded_head conf m (queue ?tk)" and acq: "acquiring (pcs (gates s m) t)"
    using service_invD(2) [OF service_reachable_inv [OF r], of c] st by (simp_all add: task_ok_def)
  then obtain req es where q: "queue ?tk = CallEntry req # es" by (auto simp: guarded_head_def)
  have "ctr (gates s m) \<in> set (hist (gates s m))"
    using reachable_inv [OF service_gate_reachable [OF r]] by (simp add: conc_inv_def)
  from acquire_run_exists [OF acq this] obtain g where g: "acquire_run (limit_for conf m) t (gates s m) g"
    by blast
  define p where "p = pcs g t"
  with acquire_run_final [OF g] have p: "p \<in> {Holding, Refused}" by simp
  from acquire_lift [OF g st] obtain s1 where s1: "(service_step conf)\<^sup>*\<^sup>* s s1"
    "tasks s1 = (tasks s)(c := after_acquire conf m t p ?tk)" unfolding p_def by blast
  have adv: "advances conf c s s1" unfolding advances_def
    using s1 p st q by (auto simp: after_acquire_def awaited_def)
  show ?thesis
  proof (cases "p = Holding")
    case True
    then have "stage (tasks s1 c) = InnerGuarded m t" "queue (tasks s1 c) = queue ?tk"
      using s1(2) by (simp_all add: after_acquire_def)
    with advances_inner [OF advances_reachable [OF adv r], of c m t] advances_trans [OF adv]
    show ?thesis by auto
  next
    case False
    with p s1(2) q have "stage (tasks s1 c) = Ready" "queue (tasks s1 c) = tl (queue ?tk)"
      by (auto simp: after_acquire_def)
    with adv show ?thesis by blast
  qed
qed

text \<open>From anywhere to the next entry.\<close>

lemma advances_ready:
  assumes r: "service_reachable conf s"
  shows "\<exists>s'. advances conf c s s' \<and> stage (tasks s' c) = Ready"
proof (cases "stage (tasks s c)")
  case Ready
  with advances_refl show ?thesis by blast
next
  case (Acquiring m t)
  from advances_acquire [OF r this] show ?thesis by blast
next
  case (InnerGuarded m t)
  from advances_inner [OF r this] show ?thesis by blast
next
  case (Releasing m t)
  from advances_release [OF r this] show ?thesis by blast
next
  case InnerPlain
  then obtain e es where q: "queue (tasks s c) = e # es"
    using service_invD(2) [OF service_reachable_inv [OF r], of c] by (auto simp: task_ok_def)
  let ?tk = "\<lparr>queue = es, stage = Ready, answers = answers (tasks s c) @ plain_answer e undefined\<rparr>"
  have "advances conf c s (set_task c ?tk s)"
    by (rule advances_step [OF service_step.plain_returns [OF InnerPlain q]])
      (simp_all add: awaited_def InnerPlain q plain_answer_def)
  then show ?thesis by (intro exI [of _ "set_task c ?tk s"]) simp
next
  case InnerBatch
  let ?tk = "\<lparr>queue = [], stage = Ready, answers = answers (tasks s c) @ [Answered undefined]\<rparr>"
  have "advances conf c s (set_task c ?tk s)"
    by (rule advances_step [OF service_step.batch_returns [OF InnerBatch]])
      (simp_all add: awaited_def InnerBatch)
  then show ?thesis by (intro exI [of _ "set_task c ?tk s"]) simp
qed

text \<open>One entry.\<close>

lemma entry_kind:
  "(\<exists>e' i. e = ErrEntry e' i) \<or> plain conf e \<or>
   (\<exists>req m. e = CallEntry req \<and> classify_method (layer_new conf) (method_name req) = Some m)"
  by (cases e) auto

lemma advances_entry:
  assumes r: "service_reachable conf s" and st: "stage (tasks s c) = Ready"
    and q: "queue (tasks s c) = e # es"
  shows "\<exists>s'. advances conf c s s' \<and> stage (tasks s' c) = Ready \<and> queue (tasks s' c) = es"
proof -
  consider (err) e' i where "e = ErrEntry e' i" | (plain) "plain conf e"
    | (guarded) req m where "e = CallEntry req" "classify_method (layer_new conf) (method_name req) = Some m"
    using entry_kind [of e conf] by blast
  then show ?thesis
  proof cases
    case err
    let ?tk = "(tasks s c)\<lparr>queue := es, answers := answers (tasks s c) @ [EntryError e' i]\<rparr>"
    have "advances conf c s (set_task c ?tk s)"
      by (rule advances_step [OF service_step.err_entry [OF st q [unfolded err]]])
        (simp_all add: awaited_def st q err)
    then show ?thesis using st by (intro exI [of _ "set_task c ?tk s"]) simp
  next
    case plain
    let ?s1 = "set_task c ((tasks s c)\<lparr>stage := InnerPlain\<rparr>) s"
    let ?tk = "\<lparr>queue = es, stage = Ready, answers = answers (tasks s c) @ plain_answer e undefined\<rparr>"
    have 1: "advances conf c s ?s1"
      by (rule advances_step [OF service_step.begin_plain [OF st q plain]]) (simp_all add: awaited_def st q)
    have "service_step conf ?s1 (set_task c \<lparr>queue = es, stage = Ready,
        answers = answers (tasks ?s1 c) @ plain_answer e undefined\<rparr> ?s1)"
      by (rule service_step.plain_returns) (simp_all add: q)
    then have "advances conf c ?s1 (set_task c ?tk ?s1)"
      by (intro advances_step) (simp_all add: awaited_def q plain_answer_def)
    with 1 have "advances conf c s (set_task c ?tk ?s1)" by (rule advances_trans)
    then show ?thesis by (intro exI [of _ "set_task c ?tk ?s1"]) simp
  next
    case guarded
    let ?s1 = "set_task c ((tasks s c)\<lparr>stage := Acquiring m (next_call s)\<rparr>)
      (s\<lparr>next_call := next_call s + 1\<rparr>)"
    have 1: "advances conf c s ?s1"
      by (rule advances_step [OF service_step.begin_guarded [OF st q [unfolded guarded(1)] guarded(2)]])
        (simp_all add: awaited_def st q)
    have st1: "stage (tasks ?s1 c) = Acquiring m (next_call s)" by simp
    from advances_acquire [OF advances_reachable [OF 1 r] st1] advances_trans [OF 1] q
    show ?thesis by auto
  qed
qed

lemma advances_entries:
  assumes "service_reachable conf s" and "stage (tasks s c) = Ready" and "queue (tasks s c) = es"
  shows "\<exists>s'. advances conf c s s' \<and> idle (tasks s' c)"
  using assms
proof (induction es arbitrary: s)
  case Nil
  with advances_refl show ?case by (auto simp: idle_def)
next
  case (Cons e es)
  from advances_entry [OF Cons.prems] obtain s1 where s1: "advances conf c s s1"
    "stage (tasks s1 c) = Ready" "queue (tasks s1 c) = es" by blast
  from Cons.IH [OF advances_reachable [OF s1(1) Cons.prems(1)] s1(2,3)] advances_trans [OF s1(1)]
  show ?case by blast
qed

lemma advances_idle:
  assumes r: "service_reachable conf s"
  shows "\<exists>s'. advances conf c s s' \<and> idle (tasks s' c)"
proof -
  obtain s1 where s1: "advances conf c s s1" "stage (tasks s1 c) = Ready"
    using advances_ready [OF r] by blast
  from advances_entries [OF advances_reachable [OF s1(1) r] s1(2) refl] advances_trans [OF s1(1)]
  show ?thesis by blast
qed

lemma idle_awaited: "idle tk \<Longrightarrow> awaited tk = 0"
  by (simp add: idle_def awaited_def)

lemma all_complete:
  assumes "service_reachable conf s"
  shows "\<exists>s'. (service_step conf)\<^sup>*\<^sup>* s s' \<and> (\<forall>c. idle (tasks s' c) \<and>
    length (answers (tasks s' c)) = length (answers (tasks s c)) + awaited (tasks s c))"
  using assms
proof (induction "card {c. \<not> idle (tasks s c)}" arbitrary: s rule: less_induct)
  case less
  have fin: "finite {c. \<not> idle (tasks s c)}"
    by (rule service_invD(5) [OF service_reachable_inv [OF less.prems]])
  show ?case
  proof (cases "\<exists>c. \<not> idle (tasks s c)")
    case False
    then show ?thesis by (intro exI [of _ s]) (auto simp: idle_awaited)
  next
    case True
    then obtain c where c: "\<not> idle (tasks s c)" by blast
    obtain s1 where s1: "advances conf c s s1" "idle (tasks s1 c)"
      using advances_idle [OF less.prems] by blast
    then have others: "tasks s1 d = tasks s d" if "d \<noteq> c" for d
      using that by (simp add: advances_def)
    have "{d. \<not> idle (tasks s1 d)} \<subset> {d. \<not> idle (tasks s d)}" using c s1(2) others by force
    from less.hyps [OF psubset_card_mono [OF fin this] advances_reachable [OF s1(1) less.prems]]
    obtain s' where s': "(service_step conf)\<^sup>*\<^sup>* s1 s'" "\<forall>c. idle (tasks s' c) \<and>
      length (answers (tasks s' c)) = length (answers (tasks s1 c)) + awaited (tasks s1 c)" by blast
    have "length (answers (tasks s1 d)) + awaited (tasks s1 d) =
        length (answers (tasks s d)) + awaited (tasks s d)" for d
      using s1(1) others [of d] by (cases "d = c") (simp_all add: advances_def)
    with s1(1) s' show ?thesis by (intro exI [of _ s']) (auto simp: advances_def intro: rtranclp_trans)
  qed
qed

lemma idle_gates_empty:
  assumes r: "service_reachable conf s" and "\<forall>c. idle (tasks s c)"
  shows "active (gates s m) = {} \<and> ctr (gates s m) = 0"
proof -
  have "stage_call (stage (tasks s c)) = None" for c using assms(2) by (simp add: idle_def)
  then have act: "active (gates s m) = {}"
    using service_invD(4) [OF service_reachable_inv [OF r]] by fastforce
  then have "holders (gates s m) = {}" using holders_active by blast
  then have "unat (ctr (gates s m)) = 0"
    using reachable_inv [OF service_gate_reachable [OF r, of m]] by (simp add: conc_inv_def)
  then show ?thesis using act by (simp only: unat_eq_zero)
qed

subsection \<open>Properties\<close>

lemma inner_guarded_holds:
  assumes r: "service_reachable conf s"
  shows "finite {c. \<exists>t. stage (tasks s c) = InnerGuarded m t} \<and>
    card {c. \<exists>t. stage (tasks s c) = InnerGuarded m t} \<le> card (holders (gates s m))"
proof -
  let ?C = "{c. \<exists>t. stage (tasks s c) = InnerGuarded m t}"
  let ?f = "\<lambda>c. SOME t. stage (tasks s c) = InnerGuarded m t"
  note inv = service_reachable_inv [OF r]
  have f: "stage (tasks s c) = InnerGuarded m (?f c)" if "c \<in> ?C" for c
    using that someI_ex [of "\<lambda>t. stage (tasks s c) = InnerGuarded m t"] by simp
  have inj: "inj_on ?f ?C"
  proof (rule inj_onI)
    fix c d assume cd: "c \<in> ?C" "d \<in> ?C" "?f c = ?f d"
    have "stage_call (stage (tasks s c)) = Some (m, ?f c)" using f [OF cd(1)] by (metis stage_call.simps(2))
    moreover have "stage_call (stage (tasks s d)) = Some (m, ?f c)"
      using f [OF cd(2)] cd(3) by (metis stage_call.simps(2))
    ultimately show "c = d" by (rule service_invD(3) [OF inv])
  qed
  have holds: "?f ` ?C \<subseteq> holders (gates s m)"
  proof
    fix t assume "t \<in> ?f ` ?C"
    then obtain c where "stage (tasks s c) = InnerGuarded m t" using f by blast
    then show "t \<in> holders (gates s m)"
      using service_invD(2) [OF inv, of c] by (simp add: task_ok_def holders_pc)
  qed
  have "finite (holders (gates s m))"
    using reachable_inv [OF service_gate_reachable [OF r, of m]] by (simp add: conc_inv_def)
  from card_inj_on_le [OF inj holds this] inj_on_finite [OF inj holds this] show ?thesis by blast
qed

lemma unguarded_batch: "\<not> has_guarded_call st es \<Longrightarrow> CallEntry req \<in> set es \<Longrightarrow>
    classify_method st (method_name req) = None"
  unfolding has_guarded_call_def by (force simp: list_ex_iff)

text \<open>C5. Any number of clients send calls, notifications and batches to one layer, in any
  interleaving of the atomic operations of their futures, with futures dropped while they wait:
  for every method at most its limit of futures are in the inner service with a call of it. No call of a limited
  method gets there without a permit, alone or within a batch. An overload error names the
  method and the limit of a gate that is enabled and had been full.\<close>

theorem service_calls_bounded:
  assumes "service_reachable conf s"
  shows "finite {c. \<exists>t. stage (tasks s c) = InnerGuarded m t} \<and>
    card {c. \<exists>t. stage (tasks s c) = InnerGuarded m t} \<le> unat (limit_for conf m) \<and>
    (stage (tasks s c) = InnerGuarded m t \<longrightarrow>
      (\<exists>req es. queue (tasks s c) = CallEntry req # es \<and> from_rpc_method (method_name req) = Some m)) \<and>
    (\<forall>req es k. stage (tasks s c) = InnerPlain \<and> queue (tasks s c) = CallEntry req # es \<or>
        stage (tasks s c) = InnerBatch \<and> CallEntry req \<in> set (queue (tasks s c)) \<longrightarrow>
      from_rpc_method (method_name req) = Some k \<longrightarrow> limit_for conf k = 0) \<and>
    (\<forall>i d. Overloaded i d \<in> set (answers (tasks s c)) \<longrightarrow>
      (\<exists>k. d = \<lparr>ov_method = rpc_method_name k, ov_limit = limit_for conf k\<rparr> \<and>
        limit_for conf k \<noteq> 0 \<and> limit_for conf k \<in> set (hist (gates s k))))"
proof -
  have "card (holders (gates s m)) \<le> unat (limit_for conf m)"
    using reachable_inv [OF service_gate_reachable [OF assms, of m]]
    by (simp add: conc_inv_def word_le_nat_alt)
  moreover note inner_guarded_holds [OF assms, of m]
  moreover have ok: "task_ok conf (gates s) (next_call s) (tasks s c)"
    by (rule service_invD(2) [OF service_reachable_inv [OF assms]])
  then have "\<exists>req es. queue (tasks s c) = CallEntry req # es \<and> from_rpc_method (method_name req) = Some m"
    if "stage (tasks s c) = InnerGuarded m t"
    using that classify_SomeD by (fastforce simp: task_ok_def guarded_head_def)
  moreover have "limit_for conf k = 0"
    if "stage (tasks s c) = InnerPlain \<and> queue (tasks s c) = CallEntry req # es \<or>
        stage (tasks s c) = InnerBatch \<and> CallEntry req \<in> set (queue (tasks s c))"
      and "from_rpc_method (method_name req) = Some k" for req es k
  proof -
    from that(1) ok have "classify_method (layer_new conf) (method_name req) = None"
      by (auto simp: task_ok_def dest: unguarded_batch)
    then show ?thesis by (rule classify_NoneD) (rule that(2))
  qed
  moreover have "\<exists>k. d = \<lparr>ov_method = rpc_method_name k, ov_limit = limit_for conf k\<rparr> \<and>
        limit_for conf k \<noteq> 0 \<and> limit_for conf k \<in> set (hist (gates s k))"
    if "Overloaded i d \<in> set (answers (tasks s c))" for i d
    using that ok unfolding task_ok_def answer_ok_def by blast
  ultimately show ?thesis by (intro conjI allI impI) (blast | linarith)+
qed


text \<open>An instance: one client in the inner service with a transaction.\<close>

lemma example_client:
  "\<exists>s :: (nat, unit, unit, string, string) service_state. service_reachable default_config s \<and>
     stage (tasks s 0) = InnerGuarded SendRawTransaction 0 \<and> answers (tasks s 0) = [] \<and>
     awaited (tasks s 0) = 1"
proof -
  let ?req = "\<lparr>method_name = ''eth_sendRawTransaction'', req_id = 7 :: nat, req_params = ()\<rparr>"
  let ?i = "service_init :: (nat, unit, unit, string, string) service_state"
  let ?tk = "\<lparr>queue = [CallEntry ?req], stage = Ready, answers = []\<rparr>"
  let ?s1 = "set_task 0 ?tk ?i"
  let ?s2 = "set_task 0 ((tasks ?s1 0)\<lparr>stage := Acquiring SendRawTransaction (next_call ?s1)\<rparr>)
    (?s1\<lparr>next_call := next_call ?s1 + 1\<rparr>)"
  let ?limit = "limit_for default_config SendRawTransaction"
  have limit: "0 < ?limit" by (simp add: default_config_def backpressure_constants word_less_nat_alt)
  have "classify_method (layer_new default_config) ''eth_sendRawTransaction'' = Some SendRawTransaction"
    using limit by (simp add: classify_method_def from_rpc_method_def layer_new_def state_new_def)
  then have 2: "service_step default_config ?s1 ?s2"
    by (intro service_step.begin_guarded [where es = "[]" and req = ?req]) simp_all
  have 1: "service_step default_config ?i ?s1"
    by (rule service_step.send_call) (simp add: service_init_def idle_task_def idle_def)
  let ?g = "fresh_acquire ?limit 0 (gates ?s2 SendRawTransaction)"
  have "acquire_run ?limit 0 (gates ?s2 SendRawTransaction) ?g"
    by (rule run_arrived) (simp_all add: service_init_def layer_init_def conc_init_def)
  moreover have "pcs ?g 0 = Holding"
    using limit by (simp add: fresh_acquire_def service_init_def layer_init_def conc_init_def)
  ultimately obtain s3 where s3: "(service_step default_config)\<^sup>*\<^sup>* ?s2 s3"
    "tasks s3 = (tasks ?s2)(0 := after_acquire default_config SendRawTransaction 0 Holding (tasks ?s2 0))"
    using acquire_lift [of default_config SendRawTransaction 0 ?s2 ?g 0] by (auto simp: service_init_def)
  have "service_reachable default_config s3" unfolding service_reachable_def
    by (rule converse_rtranclp_into_rtranclp [OF 1 converse_rtranclp_into_rtranclp [OF 2 s3(1)]])
  then show ?thesis using s3(2) by (intro exI [of _ s3]) (simp add: after_acquire_def awaited_def)
qed

theorem service_calls_bounded_witness:
  "\<exists>s :: (nat, unit, unit, string, string) service_state.
     stage (tasks s 0) = InnerGuarded SendRawTransaction 0 \<and>
     card {c. \<exists>t. stage (tasks s c) = InnerGuarded SendRawTransaction t} \<le> 1024"
proof -
  obtain s :: "(nat, unit, unit, string, string) service_state" where s:
    "service_reachable default_config s" "stage (tasks s 0) = InnerGuarded SendRawTransaction 0"
    using example_client by blast
  have "unat (limit_for default_config SendRawTransaction) = 1024"
    by (simp add: default_config_def backpressure_constants)
  with service_calls_bounded [OF s(1), of SendRawTransaction 0 0] s(2) show ?thesis by auto
qed


end
