(* ===== verification/Backpressure_Sim.thy ===== *)
theory Backpressure_Sim
  imports Backpressure_Service
begin

section \<open>The sequential service is an interleaving (\<open>src/rpc/backpressure.rs\<close>)\<close>

text \<open>
  \<open>Backpressure\<close> translates the service one operation at a time, \<open>Backpressure_Service\<close> as futures
  that interleave their atomic operations. Here the first is simulated by the second: every
  sequential run is one of the interleavings, with the same counters, gauges, metrics and
  responses. So what is shown of the interleavings holds of the code as it reads.
\<close>

subsection \<open>The same state\<close>

definition same_state :: "backpressure_config \<Rightarrow> backpressure_state \<Rightarrow> layer_state \<Rightarrow> bool" where
  "same_state conf st g \<longleftrightarrow> bp_config st = conf \<and>
     (\<forall>m. gate_limit (gate m st) = limit_for conf m \<and> inflight (gate m st) = ctr (g m) \<and>
        inflight_gauge m (bp_metrics st) = gauge (g m) \<and>
        accepted_counter m (bp_metrics st) = accepted (g m) \<and>
        rejected_counter m (bp_metrics st) = rejected (g m))"

lemma same_state_new: "same_state conf (layer_new conf) layer_init"
proof -
  have "inflight_gauge m metrics_new = None \<and> accepted_counter m metrics_new = 0 \<and>
      rejected_counter m metrics_new = 0" for m
    by (cases m) (simp_all add: metrics_new_def)
  moreover have "bp_config (layer_new conf) = conf" "bp_metrics (layer_new conf) = metrics_new"
    by (simp_all add: layer_new_def state_new_def)
  ultimately show ?thesis
    by (simp add: same_state_def gate_layer_new gate_new_def layer_init_def conc_init_def)
qed

lemma same_state_admits:
  "same_state conf st g \<Longrightarrow> fst (try_acquire m st) \<longleftrightarrow> ctr (g m) < limit_for conf m"
  by (simp add: same_state_def gates.admits word_less_nat_alt)

lemma same_state_acquire:
  assumes "same_state conf st g"
  shows "same_state conf (snd (try_acquire m st)) (g(m := fresh_acquire (limit_for conf m) t (g m)))"
  using assms by (simp add: same_state_def try_acquire_def fresh_acquire_def Let_def not_le not_less)

lemma same_state_release:
  assumes "same_state conf st g"
  shows "same_state conf (release m st) (g(m := fresh_release t (g m)))"
  using assms by (simp add: same_state_def release_def fresh_release_def Let_def)

lemma same_state_classify: "same_state conf st g \<Longrightarrow> classify_method st = classify_method (layer_new conf)"
  by (rule ext) (simp add: same_state_def classify_method_def layer_new_def state_new_def cong: option.case_cong)

lemma same_state_guarded: "same_state conf st g \<Longrightarrow> has_guarded_call st es = has_guarded_call (layer_new conf) es"
  by (simp add: has_guarded_call_def same_state_classify cong: batch_entry.case_cong)

subsection \<open>Responses\<close>

fun render :: "('id, 'p, 'n, 'e, 'r, 'bb, 's) rpc_lib \<Rightarrow> ('id, 'e, 'r) answer \<Rightarrow> 'r" where
  "render lib (Answered r) = r"
| "render lib (EntryError e i) = error_response lib i e"
| "render lib (Overloaded i d) = error_response lib i
     (error_owned lib RPC_BACKPRESSURE_OVERLOAD_CODE RPC_BACKPRESSURE_OVERLOAD_MESSAGE (Some d))"

lemma render_overload:
  "bp_config st = conf \<Longrightarrow> render lib (overload_answer conf m req) = overload_response lib st req m"
  by (simp add: overload_answer_def overload_response_def)

subsection \<open>One call\<close>

lemma task_update_all:
  "(tk :: ('id, 'p, 'n, 'e, 'r) task)\<lparr>queue := q, stage := g, answers := as\<rparr> =
   \<lparr>queue = q, stage = g, answers = as\<rparr>"
  by (cases tk) simp

text \<open>Some steps of the future \<open>c\<close>, after which it is between two entries.\<close>

definition serves ::
  "backpressure_config \<Rightarrow> nat \<Rightarrow> ('id, 'p, 'n, 'e, 'r) service_state \<Rightarrow>
   ('id, 'p, 'n, 'e) batch_entry list \<Rightarrow> ('id, 'e, 'r) answer list \<Rightarrow>
   ('id, 'p, 'n, 'e, 'r) service_state \<Rightarrow> bool" where
  "serves conf c s es as s' \<longleftrightarrow> (service_step conf)\<^sup>*\<^sup>* s s' \<and>
     tasks s' = (tasks s)(c := \<lparr>queue = es, stage = Ready, answers = answers (tasks s c) @ as\<rparr>)"

lemma serves_reachable: "serves conf c s es as s' \<Longrightarrow> service_reachable conf s \<Longrightarrow> service_reachable conf s'"
  by (auto simp: serves_def service_reachable_def intro: rtranclp_trans)

lemma serves_trans:
  "serves conf c s es as s1 \<Longrightarrow> serves conf c s1 es' as' s2 \<Longrightarrow> serves conf c s es' (as @ as') s2"
  by (auto simp: serves_def intro: rtranclp_trans)

lemma serves_sel:
  assumes "serves conf c s es as s'"
  shows "stage (tasks s' c) = Ready" and "queue (tasks s' c) = es"
    and "answers (tasks s' c) = answers (tasks s c) @ as"
  using assms by (simp_all add: serves_def)

text \<open>A guarded call up to the decision of the gate.\<close>

lemma acquire_simulated:
  assumes r: "service_reachable conf s" and same: "same_state conf st (gates s)"
    and rdy: "stage (tasks s c) = Ready" and q: "queue (tasks s c) = CallEntry req # es"
    and cl: "classify_method st (method_name req) = Some m"
  obtains s' where "(service_step conf)\<^sup>*\<^sup>* s s'"
    and "same_state conf (snd (try_acquire m st)) (gates s')"
    and "fst (try_acquire m st) \<Longrightarrow> pcs (gates s' m) (next_call s) = Holding"
    and "tasks s' = (tasks s)(c := (if fst (try_acquire m st)
       then (tasks s c)\<lparr>stage := InnerGuarded m (next_call s)\<rparr>
       else \<lparr>queue = es, stage = Ready, answers = answers (tasks s c) @ [overload_answer conf m req]\<rparr>))"
proof -
  let ?t = "next_call s"
  let ?s1 = "set_task c ((tasks s c)\<lparr>stage := Acquiring m ?t\<rparr>) (s\<lparr>next_call := next_call s + 1\<rparr>)"
  let ?g = "fresh_acquire (limit_for conf m) ?t (gates s m)"
  have 1: "service_step conf s ?s1"
    using cl same_state_classify [OF same] by (intro service_step.begin_guarded [OF rdy q]) simp
  have arrived: "pcs (gates s m) ?t = Arrived"
    by (rule service_invD(1) [OF service_reachable_inv [OF r]]) simp
  moreover have "ctr (gates s m) \<in> set (hist (gates s m))"
    using reachable_inv [OF service_gate_reachable [OF r]] by (simp add: conc_inv_def)
  ultimately have "acquire_run (limit_for conf m) ?t (gates ?s1 m) ?g" using run_arrived by simp
  from acquire_lift [OF this, of c] obtain s' where s': "(service_step conf)\<^sup>*\<^sup>* ?s1 s'"
    "gates s' = (gates ?s1)(m := ?g)"
    "tasks s' = (tasks ?s1)(c := after_acquire conf m ?t (pcs ?g ?t) (tasks ?s1 c))" by auto
  have pc: "pcs ?g ?t = (if fst (try_acquire m st) then Holding else Refused)"
    using same_state_admits [OF same, of m] by (simp add: fresh_acquire_def)
  show thesis
  proof (rule that [of s'])
    show "(service_step conf)\<^sup>*\<^sup>* s s'" by (rule converse_rtranclp_into_rtranclp [OF 1 s'(1)])
    show "same_state conf (snd (try_acquire m st)) (gates s')"
      using same_state_acquire [OF same, of m ?t] s'(2) by simp
    show "fst (try_acquire m st) \<Longrightarrow> pcs (gates s' m) ?t = Holding" using s'(2) pc by simp
    show "tasks s' = (tasks s)(c := (if fst (try_acquire m st)
       then (tasks s c)\<lparr>stage := InnerGuarded m ?t\<rparr>
       else \<lparr>queue = es, stage = Ready, answers = answers (tasks s c) @ [overload_answer conf m req]\<rparr>))"
      using s'(3) pc q by (simp add: after_acquire_def task_update_all)
  qed
qed

text \<open>The drop of a permit.\<close>

lemma release_simulated:
  assumes same: "same_state conf st (gates s)" and st: "stage (tasks s c) = Releasing m t"
    and pc: "pcs (gates s m) t = Holding"
  obtains s' where "(service_step conf)\<^sup>*\<^sup>* s s'" and "same_state conf (release m st) (gates s')"
    and "tasks s' = (tasks s)(c := (tasks s c)\<lparr>stage := Ready\<rparr>)"
proof -
  from release_lift [OF run_holding [OF pc] st] obtain s' where s': "(service_step conf)\<^sup>*\<^sup>* s s'"
    "gates s' = (gates s)(m := fresh_release t (gates s m))"
    "tasks s' = (tasks s)(c := (tasks s c)\<lparr>stage := Ready\<rparr>)" by blast
  with same_state_release [OF same, of m t] show thesis by (intro that [of s']) simp_all
qed

text \<open>An entry that goes to the inner service without a permit.\<close>

lemma plain_simulated:
  assumes rdy: "stage (tasks s c) = Ready" and q: "queue (tasks s c) = e # es" and "plain conf e"
  obtains s' where "serves conf c s es (plain_answer e r) s'" and "gates s' = gates s"
proof -
  let ?s1 = "set_task c ((tasks s c)\<lparr>stage := InnerPlain\<rparr>) s"
  let ?s2 = "set_task c \<lparr>queue = es, stage = Ready, answers = answers (tasks ?s1 c) @ plain_answer e r\<rparr> ?s1"
  have "service_step conf s ?s1" by (rule service_step.begin_plain [OF rdy q assms(3)])
  moreover have "service_step conf ?s1 ?s2" by (rule service_step.plain_returns) (simp_all add: q)
  ultimately have "(service_step conf)\<^sup>*\<^sup>* s ?s2" by auto
  then show thesis by (intro that [of ?s2]) (simp_all add: serves_def)
qed

lemma call_simulated:
  fixes lib :: "('id, 'p, 'n, 'e, 'r, 'bb, 's) rpc_lib" and s :: "('id, 'p, 'n, 'e, 'r) service_state"
  assumes r: "service_reachable conf s" and same: "same_state conf st (gates s)"
    and rdy: "stage (tasks s c) = Ready" and q: "queue (tasks s c) = CallEntry req # es"
  obtains a s' where "serves conf c s es [a] s'"
    and "render lib a = fst (service_call lib req (st, w))"
    and "same_state conf (fst (snd (service_call lib req (st, w)))) (gates s')"
proof (cases "classify_method st (method_name req)")
  case None
  then have plain: "plain conf (CallEntry req :: ('id, 'p, 'n, 'e) batch_entry)"
    using same_state_classify [OF same] by simp
  obtain s' where "serves conf c s es (plain_answer (CallEntry req :: ('id, 'p, 'n, 'e) batch_entry)
      (fst (inner_call lib req w))) s'" "gates s' = gates s"
    by (rule plain_simulated [OF rdy q plain])
  with same show thesis
    by (intro that [of "Answered (fst (inner_call lib req w))" s'])
      (simp_all add: plain_answer_def service_call_None [OF None])
next
  case (Some m)
  from acquire_simulated [OF r same rdy q Some] obtain s1 where s1: "(service_step conf)\<^sup>*\<^sup>* s s1"
    "same_state conf (snd (try_acquire m st)) (gates s1)"
    "fst (try_acquire m st) \<Longrightarrow> pcs (gates s1 m) (next_call s) = Holding"
    "tasks s1 = (tasks s)(c := (if fst (try_acquire m st)
       then (tasks s c)\<lparr>stage := InnerGuarded m (next_call s)\<rparr>
       else \<lparr>queue = es, stage = Ready, answers = answers (tasks s c) @ [overload_answer conf m req]\<rparr>))"
    by blast
  show thesis
  proof (cases "fst (try_acquire m st)")
    case False
    have "bp_config st = conf" using same by (simp add: same_state_def)
    with False s1 show thesis
      by (intro that [of "overload_answer conf m req" s1])
        (simp_all add: serves_def service_call_refused [OF Some] render_overload)
  next
    case True
    let ?a = "Answered (fst (inner_call lib req w)) :: ('id, 'e, 'r) answer"
    let ?s2 = "set_task c \<lparr>queue = es, stage = Releasing m (next_call s), answers = answers (tasks s1 c) @ [?a]\<rparr> s1"
    have 2: "service_step conf s1 ?s2"
      by (rule service_step.inner_returns) (use True s1(4) q in simp_all)
    from release_simulated [of conf "snd (try_acquire m st)" ?s2 c m "next_call s"] s1(2,3) True
    obtain s3 where s3: "(service_step conf)\<^sup>*\<^sup>* ?s2 s3"
      "same_state conf (release m (snd (try_acquire m st))) (gates s3)"
      "tasks s3 = (tasks ?s2)(c := (tasks ?s2 c)\<lparr>stage := Ready\<rparr>)" by auto
    have "(service_step conf)\<^sup>*\<^sup>* s s3"
      by (rule rtranclp_trans [OF s1(1) converse_rtranclp_into_rtranclp [OF 2 s3(1)]])
    with s3 s1(4) True show thesis
      by (intro that [of ?a s3]) (simp_all add: serves_def service_call_admitted [OF Some True])
  qed
qed


subsection \<open>Batches\<close>

definition has_notification :: "('id, 'p, 'n, 'e) batch_entry list \<Rightarrow> bool" where
  "has_notification es \<longleftrightarrow> (\<exists>n. NotificationEntry n \<in> set es)"

lemma has_notification_simps [simp]:
  "has_notification [] = False" "has_notification (CallEntry req # es) = has_notification es"
  "has_notification (NotificationEntry n # es) = True"
  "has_notification (ErrEntry e i # es) = has_notification es"
  by (auto simp: has_notification_def)

text \<open>What the loop over a batch leaves in the response builder, from the responses of its entries.\<close>

definition batch_built ::
  "('id, 'p, 'n, 'e, 'r, 'bb, 's) rpc_lib \<Rightarrow> ('id, 'p, 'n, 'e) batch_entry list \<Rightarrow> 'bb \<Rightarrow> bool \<Rightarrow>
   ('id, 'e, 'r) answer list \<Rightarrow> 'r + 'bb \<times> bool \<Rightarrow> bool" where
  "batch_built lib es rp got as out \<longleftrightarrow>
     (case out of
        Inl err \<Rightarrow> append_all (batch_append lib) rp (map (render lib) as) = Inl err
      | Inr (rp', got') \<Rightarrow> append_all (batch_append lib) rp (map (render lib) as) = Inr rp' \<and>
          got' = (got \<or> has_notification es))"

lemma serves_cut_short:
  assumes "serves conf c s es as s1"
  shows "\<exists>s'. serves conf c s [] as s' \<and> gates s' = gates s1"
proof -
  let ?s' = "set_task c ((tasks s1 c)\<lparr>queue := []\<rparr>) s1"
  have "service_step conf s1 ?s'" by (rule service_step.cut_short) (rule serves_sel [OF assms])
  with assms show ?thesis
    by (intro exI [of _ ?s']) (auto simp: serves_def intro: rtranclp.rtrancl_into_rtrancl)
qed

text \<open>An entry is answered; then the rest follows, or the response is full.\<close>

lemma entry_then_rest:
  assumes s1: "serves conf c s es [a] s1"
    and one: "\<And>err. batch_append lib rp (render lib a) = Inl err \<Longrightarrow> out = Inl err \<and> same_state conf st (gates s1)"
    and rest: "\<And>rp1. batch_append lib rp (render lib a) = Inr rp1 \<Longrightarrow>
      \<exists>s' as. serves conf c s1 [] as s' \<and> same_state conf st (gates s') \<and> batch_built lib es rp1 got as out"
    and nots: "has_notification (e # es) = has_notification es"
  shows "\<exists>s' as. serves conf c s [] as s' \<and> same_state conf st (gates s') \<and> batch_built lib (e # es) rp got as out"
proof (cases "batch_append lib rp (render lib a)")
  case (Inl err)
  obtain s' where "serves conf c s [] [a] s'" "gates s' = gates s1" using serves_cut_short [OF s1] by blast
  with one [OF Inl] Inl show ?thesis by (intro exI [of _ s'] exI [of _ "[a]"]) (simp add: batch_built_def)
next
  case (Inr rp1)
  from rest [OF this] obtain s' as where "serves conf c s1 [] as s'" "same_state conf st (gates s')"
    "batch_built lib es rp1 got as out" by blast
  with serves_trans [OF s1] Inr nots show ?thesis
    by (intro exI [of _ s'] exI [of _ "[a] @ as"]) (auto simp: batch_built_def split: sum.splits)
qed

lemma batch_simulated:
  fixes lib :: "('id, 'p, 'n, 'e, 'r, 'bb, 's) rpc_lib" and s :: "('id, 'p, 'n, 'e, 'r) service_state"
  assumes "service_reachable conf s" and "same_state conf st (gates s)"
    and "stage (tasks s c) = Ready" and "queue (tasks s c) = es"
  shows "\<exists>s' as. serves conf c s [] as s' \<and>
    same_state conf (fst (snd (batch_entries lib es rp got (st, w)))) (gates s') \<and>
    batch_built lib es rp got as (fst (batch_entries lib es rp got (st, w)))"
  using assms
proof (induction es arbitrary: s st w rp got)
  case Nil
  have "tasks s = (tasks s)(c := \<lparr>queue = [], stage = Ready, answers = answers (tasks s c) @ []\<rparr>)"
    using Nil.prems by (cases "tasks s c") (simp add: fun_eq_iff)
  then have "serves conf c s [] [] s" by (simp add: serves_def)
  with Nil.prems show ?case by (intro exI [of _ s] exI [of _ "[]"]) (simp add: batch_built_def)
next
  case (Cons e es)
  note r = Cons.prems(1) and same = Cons.prems(2) and rdy = Cons.prems(3) and q = Cons.prems(4)
  show ?case
  proof (cases e)
    case (CallEntry req)
    obtain resp st1 w1 where sc: "service_call lib req (st, w) = (resp, st1, w1)"
      by (cases "service_call lib req (st, w)") auto
    obtain a s1 where s1: "serves conf c s es [a] s1" "render lib a = resp" "same_state conf st1 (gates s1)"
      using call_simulated [OF r same rdy q [unfolded CallEntry], of lib w] sc by auto
    note IH = Cons.IH [OF serves_reachable [OF s1(1) r] s1(3) serves_sel(1,2) [OF s1(1)]]
    show ?thesis
    proof (rule entry_then_rest [OF s1(1)])
      fix rp1 assume "batch_append lib rp (render lib a) = Inr rp1"
      with s1(2) sc IH [of rp1 got w1] CallEntry
      show "\<exists>s' as. serves conf c s1 [] as s' \<and>
          same_state conf (fst (snd (batch_entries lib (e # es) rp got (st, w)))) (gates s') \<and>
          batch_built lib es rp1 got as (fst (batch_entries lib (e # es) rp got (st, w)))" by simp
    qed (use s1 sc CallEntry in simp_all)
  next
    case (NotificationEntry n)
    obtain resp st1 w1 where sn: "service_notification lib n (st, w) = (resp, st1, w1)"
      by (cases "service_notification lib n (st, w)") auto
    then have st1: "st1 = st" by (auto simp: service_notification_def split: prod.splits)
    have "plain conf (NotificationEntry n :: ('id, 'p, 'n, 'e) batch_entry)" by simp
    then obtain s1 where s1: "serves conf c s es (plain_answer (NotificationEntry n :: ('id, 'p, 'n, 'e) batch_entry) resp) s1"
      "gates s1 = gates s"
      by (rule plain_simulated [OF rdy q [unfolded NotificationEntry]])
    then have s1': "serves conf c s es [] s1" by (simp add: plain_answer_def)
    from Cons.IH [OF serves_reachable [OF s1' r] same [folded s1(2)] serves_sel(1,2) [OF s1'], of rp True w1]
    obtain s' as where "serves conf c s1 [] as s'"
      "same_state conf (fst (snd (batch_entries lib es rp True (st, w1)))) (gates s')"
      "batch_built lib es rp True as (fst (batch_entries lib es rp True (st, w1)))" by blast
    with serves_trans [OF s1'] sn st1 NotificationEntry show ?thesis
      by (intro exI [of _ s'] exI [of _ as]) (fastforce simp: batch_built_def split: sum.splits)
  next
    case (ErrEntry err i)
    let ?s1 = "set_task c ((tasks s c)\<lparr>queue := es, answers := answers (tasks s c) @ [EntryError err i]\<rparr>) s"
    have "service_step conf s ?s1" by (rule service_step.err_entry [OF rdy q [unfolded ErrEntry]])
    moreover have "(tasks s c)\<lparr>queue := es, answers := answers (tasks s c) @ [EntryError err i]\<rparr> =
        \<lparr>queue = es, stage = Ready, answers = answers (tasks s c) @ [EntryError err i]\<rparr>"
      using rdy by (cases "tasks s c") simp
    ultimately have s1: "serves conf c s es [EntryError err i] ?s1" by (simp add: serves_def r_into_rtranclp)
    have same1: "same_state conf st (gates ?s1)" using same by simp
    note IH = Cons.IH [OF serves_reachable [OF s1 r] same1 serves_sel(1,2) [OF s1]]
    show ?thesis
    proof (rule entry_then_rest [OF s1])
      fix rp1 assume "batch_append lib rp (render lib (EntryError err i)) = Inr rp1"
      with IH [of rp1 got w] ErrEntry
      show "\<exists>s' as. serves conf c ?s1 [] as s' \<and>
          same_state conf (fst (snd (batch_entries lib (e # es) rp got (st, w)))) (gates s') \<and>
          batch_built lib es rp1 got as (fst (batch_entries lib (e # es) rp got (st, w)))" by simp
    qed (use same ErrEntry in simp_all)
  qed
qed


subsection \<open>Requests\<close>

text \<open>The response of a batch, from the responses of its entries.\<close>

definition assemble ::
  "('id, 'p, 'n, 'e, 'r, 'bb, 's) rpc_lib \<Rightarrow> backpressure_config \<Rightarrow> ('id, 'p, 'n, 'e) batch_entry list \<Rightarrow>
   'r list \<Rightarrow> 'r" where
  "assemble lib conf es rs =
     (case append_all (batch_append lib) (batch_new_with_limit lib (batch_response_limit_bytes conf)) rs of
        Inl err \<Rightarrow> err
      | Inr rp \<Rightarrow> if batch_is_empty lib rp \<and> has_notification es then notification_response lib
                  else batch_finish lib rp)"

text \<open>How the answers a future collected make the response of its request, if there is one.\<close>

fun answered ::
  "('id, 'p, 'n, 'e, 'r, 'bb, 's) rpc_lib \<Rightarrow> backpressure_config \<Rightarrow> ('id, 'p, 'n, 'e, 's) service_request \<Rightarrow>
   ('id, 'e, 'r) answer list \<Rightarrow> 'r option \<Rightarrow> bool" where
  "answered lib conf (CallRequest req) as resp \<longleftrightarrow> map (Some \<circ> render lib) as = [resp]"
| "answered lib conf (DroppedCallRequest req partial) as resp \<longleftrightarrow>
     map (render lib) as = (case resp of None \<Rightarrow> [] | Some r \<Rightarrow> [r])"
| "answered lib conf (BatchRequest es) as resp \<longleftrightarrow>
     (if has_guarded_call (layer_new conf) es then resp = Some (assemble lib conf es (map (render lib) as))
      else map (Some \<circ> render lib) as = [resp])"
| "answered lib conf (NotificationRequest n) as resp \<longleftrightarrow> as = []"

definition served ::
  "('id, 'p, 'n, 'e, 'r, 'bb, 's) rpc_lib \<Rightarrow> backpressure_config \<Rightarrow> nat \<Rightarrow>
   ('id, 'p, 'n, 'e, 's) service_request \<Rightarrow> ('id, 'p, 'n, 'e, 'r) service_state \<Rightarrow>
   'r option \<times> backpressure_state \<times> 's \<Rightarrow> ('id, 'p, 'n, 'e, 'r) service_state \<Rightarrow> bool" where
  "served lib conf c r s out s' \<longleftrightarrow> (service_step conf)\<^sup>*\<^sup>* s s' \<and> idle (tasks s' c) \<and>
     (\<forall>d. d \<noteq> c \<longrightarrow> tasks s' d = tasks s d) \<and> same_state conf (fst (snd out)) (gates s') \<and>
     answered lib conf r (answers (tasks s' c)) (fst out)"

text \<open>After a request was sent, it is worked through.\<close>

lemma served_sent:
  assumes "service_step conf s (set_task c tk s)" and "serves conf c (set_task c tk s) [] as s'"
    and "answers tk = []" and "same_state conf (fst (snd out)) (gates s')" and "answered lib conf r as (fst out)"
  shows "served lib conf c r s out s'"
  using assms by (auto simp: served_def serves_def idle_def intro: converse_rtranclp_into_rtranclp)

lemma call_served:
  fixes lib :: "('id, 'p, 'n, 'e, 'r, 'bb, 's) rpc_lib" and s :: "('id, 'p, 'n, 'e, 'r) service_state"
  assumes r: "service_reachable conf s" and same: "same_state conf st (gates s)" and "idle (tasks s c)"
  shows "\<exists>s'. served lib conf c (CallRequest req) s (serve_request lib (CallRequest req) (st, w)) s'"
proof -
  let ?tk = "\<lparr>queue = [CallEntry req], stage = Ready, answers = []\<rparr>"
  have 1: "service_step conf s (set_task c ?tk s)" by (rule service_step.send_call) (rule assms(3))
  then have r1: "service_reachable conf (set_task c ?tk s)"
    using r unfolding service_reachable_def by (rule rtranclp.rtrancl_into_rtrancl [rotated])
  have "same_state conf st (gates (set_task c ?tk s))" using same by simp
  from call_simulated [OF r1 this, of c req "[]" lib w] obtain a s' where
    s': "serves conf c (set_task c ?tk s) [] [a] s'" "render lib a = fst (service_call lib req (st, w))"
    "same_state conf (fst (snd (service_call lib req (st, w)))) (gates s')" by auto
  obtain resp st1 w1 where "service_call lib req (st, w) = (resp, st1, w1)"
    by (cases "service_call lib req (st, w)") auto
  with s'(2,3) show ?thesis
    by - (rule exI, rule served_sent [OF 1 s'(1)], simp_all)
qed

lemma notification_served:
  fixes s :: "('id, 'p, 'n, 'e, 'r) service_state"
  assumes same: "same_state conf st (gates s)" and "idle (tasks s c)"
  shows "\<exists>s'. served lib conf c (NotificationRequest n) s (serve_request lib (NotificationRequest n) (st, w)) s'"
proof -
  let ?e = "NotificationEntry n :: ('id, 'p, 'n, 'e) batch_entry"
  let ?tk = "\<lparr>queue = [?e], stage = Ready, answers = []\<rparr>"
  have 1: "service_step conf s (set_task c ?tk s)" by (rule service_step.send_notification) (rule assms(2))
  have plain: "plain conf ?e" by simp
  have rdy: "stage (tasks (set_task c ?tk s) c) = Ready" "queue (tasks (set_task c ?tk s) c) = ?e # []"
    by simp_all
  obtain s' where s': "serves conf c (set_task c ?tk s) [] (plain_answer ?e undefined) s'"
    "gates s' = gates (set_task c ?tk s)"
    by (rule plain_simulated [OF rdy plain])
  obtain resp w1 where "inner_notification lib n w = (resp, w1)" by (cases "inner_notification lib n w")
  with s'(2) same show ?thesis
    by - (rule exI, rule served_sent [OF 1 s'(1)], simp_all add: plain_answer_def service_notification_def)
qed

lemma batch_served:
  fixes lib :: "('id, 'p, 'n, 'e, 'r, 'bb, 's) rpc_lib" and s :: "('id, 'p, 'n, 'e, 'r) service_state"
  assumes r: "service_reachable conf s" and same: "same_state conf st (gates s)" and "idle (tasks s c)"
  shows "\<exists>s'. served lib conf c (BatchRequest es) s (serve_request lib (BatchRequest es) (st, w)) s'"
proof -
  let ?tk = "\<lparr>queue = es, stage = (if has_guarded_call (layer_new conf) es then Ready else InnerBatch), answers = []\<rparr>"
  let ?s1 = "set_task c ?tk s"
  have 1: "service_step conf s ?s1" by (rule service_step.send_batch) (rule assms(3))
  then have r1: "service_reachable conf ?s1"
    using r unfolding service_reachable_def by (rule rtranclp.rtrancl_into_rtrancl [rotated])
  have same1: "same_state conf st (gates ?s1)" using same by simp
  have guard: "has_guarded_call st es = has_guarded_call (layer_new conf) es" by (rule same_state_guarded [OF same])
  show ?thesis
  proof (cases "has_guarded_call (layer_new conf) es")
    case False
    let ?a = "Answered (fst (inner_batch lib es w)) :: ('id, 'e, 'r) answer"
    let ?s2 = "set_task c \<lparr>queue = [], stage = Ready, answers = answers (tasks ?s1 c) @ [?a]\<rparr> ?s1"
    have "service_step conf ?s1 ?s2" by (rule service_step.batch_returns) (simp add: False)
    then have s2: "serves conf c ?s1 [] [?a] ?s2" by (simp add: serves_def r_into_rtranclp)
    obtain resp w1 where "inner_batch lib es w = (resp, w1)" by (cases "inner_batch lib es w")
    with False guard same show ?thesis
      by - (rule exI, rule served_sent [OF 1 s2], simp_all add: service_batch_def)
  next
    case True
    let ?rp = "batch_new_with_limit lib (batch_response_limit_bytes conf)"
    obtain out st1 w1 where be: "batch_entries lib es ?rp False (st, w) = (out, st1, w1)"
      by (cases "batch_entries lib es ?rp False (st, w)") auto
    from batch_simulated [OF r1 same1, of c es lib ?rp False w] True obtain s' as where
      s': "serves conf c ?s1 [] as s'" "same_state conf st1 (gates s')" "batch_built lib es ?rp False as out"
      by (auto simp: be)
    have "bp_config st = conf" using same by (simp add: same_state_def)
    then have "service_batch lib es (st, w) = (assemble lib conf es (map (render lib) as), st1, w1)"
      using True guard be s'(3) by (cases out) (auto simp: service_batch_def assemble_def batch_built_def)
    with True s'(2) show ?thesis
      by - (rule exI, rule served_sent [OF 1 s'(1)], simp_all)
  qed
qed

lemma dropped_call_served:
  fixes lib :: "('id, 'p, 'n, 'e, 'r, 'bb, 's) rpc_lib" and s :: "('id, 'p, 'n, 'e, 'r) service_state"
  assumes r: "service_reachable conf s" and same: "same_state conf st (gates s)" and "idle (tasks s c)"
  shows "\<exists>s'. served lib conf c (DroppedCallRequest req partial) s
    (serve_request lib (DroppedCallRequest req partial) (st, w)) s'"
proof -
  let ?tk = "\<lparr>queue = [CallEntry req], stage = Ready, answers = []\<rparr> :: ('id, 'p, 'n, 'e, 'r) task"
  let ?s1 = "set_task c ?tk s"
  have 1: "service_step conf s ?s1" by (rule service_step.send_call) (rule assms(3))
  then have r1: "service_reachable conf ?s1"
    using r unfolding service_reachable_def by (rule rtranclp.rtrancl_into_rtrancl [rotated])
  have same1: "same_state conf st (gates ?s1)" using same by simp
  show ?thesis
  proof (cases "classify_method st (method_name req)")
    case None
    let ?s2 = "set_task c ((tasks ?s1 c)\<lparr>stage := InnerPlain\<rparr>) ?s1"
    let ?s3 = "set_task c ((tasks ?s2 c)\<lparr>queue := [], stage := Ready\<rparr>) ?s2"
    have "plain conf (CallEntry req :: ('id, 'p, 'n, 'e) batch_entry)"
      using None same_state_classify [OF same] by simp
    then have "service_step conf ?s1 ?s2"
      by (intro service_step.begin_plain [where e = "CallEntry req" and es = "[]"]) simp_all
    moreover have "service_step conf ?s2 ?s3" by (rule service_step.plain_dropped) simp
    ultimately have s3: "serves conf c ?s1 [] [] ?s3" by (auto simp: serves_def)
    from None same show ?thesis
      by - (rule exI, rule served_sent [OF 1 s3], simp_all add: service_call_dropped_def)
  next
    case (Some m)
    have rdy: "stage (tasks ?s1 c) = Ready" "queue (tasks ?s1 c) = CallEntry req # []" by simp_all
    obtain b st1 where ta: "try_acquire m st = (b, st1)" by (cases "try_acquire m st")
    from acquire_simulated [OF r1 same1 rdy Some] obtain s2 where s2': "(service_step conf)\<^sup>*\<^sup>* ?s1 s2" "same_state conf (snd (try_acquire m st)) (gates s2)"
      "fst (try_acquire m st) \<Longrightarrow> pcs (gates s2 m) (next_call ?s1) = Holding"
      "tasks s2 = (tasks ?s1)(c := (if fst (try_acquire m st)
         then (tasks ?s1 c)\<lparr>stage := InnerGuarded m (next_call ?s1)\<rparr>
         else \<lparr>queue = [], stage = Ready, answers = answers (tasks ?s1 c) @ [overload_answer conf m req]\<rparr>))"
      by blast
    note s2 = s2'(1,2) s2'(3) [unfolded set_task_sel] s2'(4) [unfolded set_task_sel fun_upd_same]
    note s2 = s2 [unfolded ta fst_conv snd_conv]
    show ?thesis
    proof (cases b)
      case False
      have "bp_config st1 = conf" using s2(2) by (simp add: same_state_def)
      have sv: "serves conf c ?s1 [] [overload_answer conf m req] s2"
        using s2(1,4) False by (simp add: serves_def)
      from \<open>bp_config st1 = conf\<close> False s2(2) show ?thesis
        by - (rule exI, rule served_sent [OF 1 sv], simp_all add: service_call_dropped_def Some ta render_overload)
    next
      case True
      let ?s3 = "set_task c ((tasks s2 c)\<lparr>queue := [], stage := Releasing m (next_call s)\<rparr>) s2"
      have 3: "service_step conf s2 ?s3" by (rule service_step.inner_dropped) (simp add: s2(4) True)
      from release_simulated [of conf st1 ?s3 c m "next_call s"] s2(2,3) True obtain s4 where
        s4: "(service_step conf)\<^sup>*\<^sup>* ?s3 s4" "same_state conf (release m st1) (gates s4)"
        "tasks s4 = (tasks ?s3)(c := (tasks ?s3 c)\<lparr>stage := Ready\<rparr>)" by auto
      have "(service_step conf)\<^sup>*\<^sup>* ?s1 s4"
        by (rule rtranclp_trans [OF s2(1) converse_rtranclp_into_rtranclp [OF 3 s4(1)]])
      then have sv: "serves conf c ?s1 [] [] s4" using s2(4) s4(3) True by (simp add: serves_def)
      from True s4(2) show ?thesis
        by - (rule exI, rule served_sent [OF 1 sv], simp_all add: service_call_dropped_def Some ta)
    qed
  qed
qed

lemma request_served:
  assumes "service_reachable conf s" and "same_state conf st (gates s)" and "idle (tasks s c)"
  shows "\<exists>s'. served lib conf c r s (serve_request lib r (st, w)) s'"
proof (cases r)
  case (CallRequest req)
  show ?thesis unfolding CallRequest by (rule call_served [OF assms])
next
  case (DroppedCallRequest req partial)
  show ?thesis unfolding DroppedCallRequest by (rule dropped_call_served [OF assms])
next
  case (BatchRequest es)
  show ?thesis unfolding BatchRequest by (rule batch_served [OF assms])
next
  case (NotificationRequest n)
  show ?thesis unfolding NotificationRequest by (rule notification_served [OF assms(2,3)])
qed

text \<open>A sequence of requests, each from a client of its own.\<close>

lemma requests_served:
  fixes lib :: "('id, 'p, 'n, 'e, 'r, 'bb, 's) rpc_lib" and s :: "('id, 'p, 'n, 'e, 'r) service_state"
  assumes "service_reachable conf s" and "same_state conf st (gates s)" and "\<forall>c \<ge> k. idle (tasks s c)"
  shows "\<exists>s'. (service_step conf)\<^sup>*\<^sup>* s s' \<and> (\<forall>c < k. tasks s' c = tasks s c) \<and>
    same_state conf (fst (snd (serve_requests lib rs (st, w)))) (gates s') \<and>
    (\<forall>i < length rs. idle (tasks s' (k + i)) \<and>
       answered lib conf (rs ! i) (answers (tasks s' (k + i))) (fst (serve_requests lib rs (st, w)) ! i))"
  using assms
proof (induction rs arbitrary: s st w k)
  case Nil
  then show ?case by (intro exI [of _ s]) simp
next
  case (Cons r rs)
  obtain a st1 w1 where r: "serve_request lib r (st, w) = (a, st1, w1)"
    by (cases "serve_request lib r (st, w)") auto
  obtain as w2 where rs: "serve_requests lib rs (st1, w1) = (as, w2)"
    by (cases "serve_requests lib rs (st1, w1)") auto
  have idle_k: "idle (tasks s k)" using Cons.prems(3) by simp
  from request_served [OF Cons.prems(1,2) idle_k, of lib r w] obtain s1 where
    s1: "(service_step conf)\<^sup>*\<^sup>* s s1" "idle (tasks s1 k)" "\<forall>d. d \<noteq> k \<longrightarrow> tasks s1 d = tasks s d"
    "same_state conf st1 (gates s1)" "answered lib conf r (answers (tasks s1 k)) a"
    by (auto simp: served_def r)
  have r1: "service_reachable conf s1"
    using Cons.prems(1) s1(1) unfolding service_reachable_def by (rule rtranclp_trans)
  have idle1: "\<forall>c \<ge> k + 1. idle (tasks s1 c)" using Cons.prems(3) s1(3) by simp
  from Cons.IH [OF r1 s1(4) idle1, of w1] obtain s' where
    s': "(service_step conf)\<^sup>*\<^sup>* s1 s'" "\<forall>c < k + 1. tasks s' c = tasks s1 c"
    "same_state conf (fst w2) (gates s')"
    "\<forall>i < length rs. idle (tasks s' (k + 1 + i)) \<and> answered lib conf (rs ! i) (answers (tasks s' (k + 1 + i))) (as ! i)"
    unfolding rs fst_conv snd_conv by blast
  have "idle (tasks s' (k + i)) \<and>
      answered lib conf ((r # rs) ! i) (answers (tasks s' (k + i))) ((a # as) ! i)" if "i < length (r # rs)" for i
    using that s1(2,5) s'(2,4) by (cases i) auto
  with s1 s' show ?case
    by (intro exI [of _ s']) (auto simp: r rs intro: rtranclp_trans)
qed

subsection \<open>Properties\<close>




end
