(* ===== verification/Eth_Types.thy ===== *)
theory Eth_Types
  imports Prelude
begin

section \<open>Upstream data types\<close>

text \<open>
  The data of \<open>alloy\<close> and \<open>reth\<close> that the sources build, take apart or copy, as records
  and datatypes with the fields and constructors the sources (and their struct literals in
  the tests) name. Only data is here: every upstream \<^emph>\<open>function\<close> the sources call is a
  parameter of the definitions that call it, collected in the library records of the
  component theories.
\<close>

subsection \<open>Chain configuration\<close>

text \<open>\<open>alloy_genesis::ChainConfig\<close>, the fields \<open>chainspec/mod.rs\<close> reads or writes.\<close>

record chain_config =
  chain_id :: u64
  homestead_block :: "u64 option"
  dao_fork_block :: "u64 option"
  eip150_block :: "u64 option"
  eip155_block :: "u64 option"
  eip158_block :: "u64 option"
  byzantium_block :: "u64 option"
  constantinople_block :: "u64 option"
  petersburg_block :: "u64 option"
  istanbul_block :: "u64 option"
  muir_glacier_block :: "u64 option"
  berlin_block :: "u64 option"
  london_block :: "u64 option"
  arrow_glacier_block :: "u64 option"
  gray_glacier_block :: "u64 option"
  merge_netsplit_block :: "u64 option"
  shanghai_time :: "u64 option"
  cancun_time :: "u64 option"
  prague_time :: "u64 option"
  osaka_time :: "u64 option"
  terminal_total_difficulty :: "u256 option"
  terminal_total_difficulty_passed :: bool

record genesis =
  config :: chain_config
  gen_nonce :: u64
  gen_timestamp :: u64
  gen_extra_data :: bytes
  gen_gas_limit :: u64
  gen_difficulty :: u256
  gen_base_fee_per_gas :: "u128 option"
  gen_alloc :: "(address \<times> u256) list"

text \<open>\<open>alloy_eips::eip7840::BlobParams\<close> and \<open>eip7892::BlobScheduleBlobParams\<close>.\<close>

record blob_params =
  target_blob_count :: u64
  max_blob_count :: u64
  update_fraction :: u128
  min_blob_fee :: u128
  max_blobs_per_tx :: u64
  blob_base_cost :: u64

record blob_schedule =
  cancun :: blob_params
  prague :: blob_params
  osaka :: blob_params
  scheduled :: "(u64 \<times> blob_params) list"

datatype hardfork = Shanghai | Cancun | Prague | Osaka

datatype fork_condition = ForkTimestamp u64 | OtherCondition

text \<open>\<open>reth_chainspec::ChainSpec\<close>; \<open>'c\<close> is \<open>alloy_chains::Chain\<close>, which stays abstract.\<close>

record 'c chain_spec =
  chain :: 'c
  spec_genesis :: genesis
  hardforks :: "hardfork \<Rightarrow> fork_condition"
  spec_blob_params :: blob_schedule

subsection \<open>Payload attributes\<close>

record withdrawal =
  wd_index :: u64
  wd_validator_index :: u64
  wd_address :: address
  wd_amount :: u64

text \<open>\<open>alloy_rpc_types_engine::PayloadAttributes\<close>.\<close>

record eth_payload_attributes =
  pa_timestamp :: u64
  pa_prev_randao :: b256
  pa_suggested_fee_recipient :: address
  pa_withdrawals :: "withdrawal list option"
  pa_parent_beacon_block_root :: "b256 option"

text \<open>\<open>EthPayloadBuilderAttributes\<close>, by its accessors.\<close>

record eth_builder_attributes =
  ba_payload_id :: bytes
  ba_parent :: b256
  ba_timestamp :: u64
  ba_suggested_fee_recipient :: address
  ba_prev_randao :: b256
  ba_withdrawals :: "withdrawal list"
  ba_parent_beacon_block_root :: "b256 option"

subsection \<open>Execution payloads and their sidecars\<close>

record payload_v1 =
  pl_parent_hash :: b256
  pl_fee_recipient :: address
  pl_state_root :: b256
  pl_receipts_root :: b256
  pl_prev_randao :: b256
  pl_block_number :: u64
  pl_gas_limit :: u64
  pl_gas_used :: u64
  pl_timestamp :: u64
  pl_extra_data :: bytes
  pl_base_fee_per_gas :: u256
  pl_block_hash :: b256
  pl_transactions :: "bytes list"

record payload_v2 =
  v2_payload_inner :: payload_v1
  v2_withdrawals :: "withdrawal list"

record payload_v3 =
  v3_payload_inner :: payload_v2
  v3_blob_gas_used :: u64
  v3_excess_blob_gas :: u64

datatype execution_payload = PayloadV1 payload_v1 | PayloadV2 payload_v2 | PayloadV3 payload_v3

fun as_v1 :: "execution_payload \<Rightarrow> payload_v1" where
  "as_v1 (PayloadV1 p) = p"
| "as_v1 (PayloadV2 p) = v2_payload_inner p"
| "as_v1 (PayloadV3 p) = v2_payload_inner (v3_payload_inner p)"

fun payload_withdrawals :: "execution_payload \<Rightarrow> withdrawal list option" where
  "payload_withdrawals (PayloadV1 p) = None"
| "payload_withdrawals (PayloadV2 p) = Some (v2_withdrawals p)"
| "payload_withdrawals (PayloadV3 p) = Some (v2_withdrawals (v3_payload_inner p))"

datatype requests_or_hash = Requests "bytes list" | RequestsHash b256

record cancun_fields =
  cf_versioned_hashes :: "b256 list"
  cf_parent_beacon_block_root :: b256

text \<open>\<open>ExecutionPayloadSidecar\<close>: the Cancun fields of a V3 call, the Prague fields of a V4 call.\<close>

record payload_sidecar =
  sc_cancun :: "cancun_fields option"
  sc_prague :: "requests_or_hash option"

record execution_data =
  ed_payload :: execution_payload
  ed_sidecar :: payload_sidecar

subsection \<open>Blob sidecars\<close>

text \<open>
  One sidecar per blob transaction. An EIP-4844 sidecar carries one blob, one commitment and
  one proof per versioned hash of its transaction; an EIP-7594 sidecar carries cell proofs.
\<close>

record blob_sidecar =
  bs_blobs :: "bytes list"
  bs_commitments :: "bytes list"
  bs_proofs :: "bytes list"

datatype sidecar_variant = VarEip4844 blob_sidecar | VarEip7594 blob_sidecar

fun is_eip4844 :: "sidecar_variant \<Rightarrow> bool" where
  "is_eip4844 (VarEip4844 s) = True"
| "is_eip4844 (VarEip7594 s) = False"

fun is_eip7594 :: "sidecar_variant \<Rightarrow> bool" where
  "is_eip7594 (VarEip4844 s) = False"
| "is_eip7594 (VarEip7594 s) = True"

datatype blob_sidecars =
  SidecarsEmpty | SidecarsEip4844 "blob_sidecar list" | SidecarsEip7594 "blob_sidecar list"

subsection \<open>Headers and block environments\<close>

text \<open>A sealed header, by the accessors the sources call.\<close>

record header =
  hd_hash :: b256
  hd_number :: u64
  hd_timestamp :: u64
  hd_gas_limit :: u64

text \<open>\<open>reth_evm::NextBlockEnvAttributes\<close>.\<close>

record next_block_attributes =
  nb_timestamp :: u64
  nb_suggested_fee_recipient :: address
  nb_prev_randao :: b256
  nb_gas_limit :: u64
  nb_parent_beacon_block_root :: "b256 option"
  nb_withdrawals :: "withdrawal list option"
  nb_extra_data :: bytes

text \<open>\<open>EvmEnv\<close>: the fields of its configuration and block parts the sources touch.\<close>

record blob_excess_gas_and_price =
  excess_blob_gas :: u64
  blob_gasprice :: u128

record cfg_env =
  cfg_max_blobs_per_tx :: "u64 option"
  cfg_blob_base_fee_update_fraction :: "u64 option"

record block_env =
  be_gas_limit :: u64
  be_basefee :: u64
  be_blob_excess_gas_and_price :: "blob_excess_gas_and_price option"

record evm_env =
  env_cfg :: cfg_env
  env_block :: block_env

subsection \<open>Enumerations as finite types\<close>

instantiation hardfork :: enum
begin

definition enum_hardfork :: "hardfork list" where
  "enum_hardfork = [Shanghai, Cancun, Prague, Osaka]"

definition enum_all_hardfork :: "(hardfork \<Rightarrow> bool) \<Rightarrow> bool" where
  "enum_all_hardfork P \<longleftrightarrow> P Shanghai \<and> P Cancun \<and> P Prague \<and> P Osaka"

definition enum_ex_hardfork :: "(hardfork \<Rightarrow> bool) \<Rightarrow> bool" where
  "enum_ex_hardfork P \<longleftrightarrow> P Shanghai \<or> P Cancun \<or> P Prague \<or> P Osaka"

instance
proof
  have all: "f = Shanghai \<or> f = Cancun \<or> f = Prague \<or> f = Osaka" for f
    by (cases f) simp_all
  show "UNIV = set (enum_class.enum :: hardfork list)"
    using all by (auto simp: enum_hardfork_def)
  show "distinct (enum_class.enum :: hardfork list)"
    by (simp add: enum_hardfork_def)
  show "enum_class.enum_all P = (\<forall>f \<in> UNIV. P f)" for P :: "hardfork \<Rightarrow> bool"
    unfolding enum_all_hardfork_def using all by (metis UNIV_I)
  show "enum_class.enum_ex P = (\<exists>f \<in> UNIV. P f)" for P :: "hardfork \<Rightarrow> bool"
    unfolding enum_ex_hardfork_def using all by (metis UNIV_I)
qed

end

end
