(* ===== verification/Chainspec.thy ===== *)
theory Chainspec
  imports Eth_Types
begin

section \<open>Chain specification (\<open>src/chainspec/mod.rs\<close>)\<close>

text \<open>
  The Load constants, genesis validation and normalisation, the construction of
  \<open>LoadChainSpec\<close> from a genesis, the default spec, the CLI parser, and the delegation of the
  chain spec traits to the inner spec. The upstream functions (\<open>From<Genesis> for ChainSpec\<close>,
  the blob parameter schedule, fork activation, JSON decoding) are the fields of \<open>spec_lib\<close>
  and \<open>parser_lib\<close>; \<open>spec_lib_laws\<close> states what is documented of the first.
\<close>

subsection \<open>Constants\<close>

definition LOAD_MAX_BLOB_COUNT :: u64 where "LOAD_MAX_BLOB_COUNT = 1024"
definition LOAD_TARGET_BLOB_COUNT :: u64 where "LOAD_TARGET_BLOB_COUNT = 512"
definition LOAD_MAX_BLOBS_PER_TX :: u64 where "LOAD_MAX_BLOBS_PER_TX = 32"
definition LOAD_BLOB_UPDATE_FRACTION :: u128 where "LOAD_BLOB_UPDATE_FRACTION = 5007716"
definition LOAD_EXECUTION_GAS_LIMIT :: u64 where "LOAD_EXECUTION_GAS_LIMIT = 2000000000"

lemmas load_constants = LOAD_MAX_BLOB_COUNT_def LOAD_TARGET_BLOB_COUNT_def
  LOAD_MAX_BLOBS_PER_TX_def LOAD_BLOB_UPDATE_FRACTION_def LOAD_EXECUTION_GAS_LIMIT_def

lemma unat_LOAD_MAX_BLOB_COUNT [simp]: "unat LOAD_MAX_BLOB_COUNT = 1024"
  by (simp add: LOAD_MAX_BLOB_COUNT_def)

subsection \<open>Upstream functions\<close>

record 'c spec_lib =
  spec_of_genesis :: "genesis \<Rightarrow> 'c chain_spec"
  chain_from_id :: "u64 \<Rightarrow> 'c"
  chain_id_of :: "'c \<Rightarrow> u64"
  cancun_params :: blob_params
  osaka_params :: blob_params
  blob_params_at :: "'c chain_spec \<Rightarrow> u64 \<Rightarrow> blob_params option"
  fork_active :: "'c chain_spec \<Rightarrow> hardfork \<Rightarrow> u64 \<Rightarrow> bool"

text \<open>The genesis timestamp of each timestamp fork.\<close>

fun fork_time :: "hardfork \<Rightarrow> chain_config \<Rightarrow> u64 option" where
  "fork_time Shanghai c = shanghai_time c"
| "fork_time Cancun c = cancun_time c"
| "fork_time Prague c = prague_time c"
| "fork_time Osaka c = osaka_time c"

text \<open>
  The documented behaviour: an id survives \<open>Chain::from_id_unchecked\<close>; a spec built from a
  genesis keeps it and schedules each fork at the genesis' time; a timestamp fork is active
  from its timestamp on; the blob parameters of a spec without scheduled overrides are those
  of the latest active fork, and none before Cancun.
\<close>

definition spec_lib_laws :: "'c spec_lib \<Rightarrow> bool" where
  "spec_lib_laws lib \<longleftrightarrow>
     (\<forall>n. chain_id_of lib (chain_from_id lib n) = n) \<and>
     (\<forall>g. spec_genesis (spec_of_genesis lib g) = g) \<and>
     (\<forall>g f t. fork_time f (config g) = Some t \<longrightarrow>
        hardforks (spec_of_genesis lib g) f = ForkTimestamp t) \<and>
     (\<forall>g f. fork_time f (config g) = None \<longrightarrow>
        hardforks (spec_of_genesis lib g) f = OtherCondition) \<and>
     (\<forall>s f ts t. hardforks s f = ForkTimestamp t \<longrightarrow> fork_active lib s f ts = (t \<le> ts)) \<and>
     (\<forall>s f ts. hardforks s f = OtherCondition \<longrightarrow> \<not> fork_active lib s f ts) \<and>
     (\<forall>s ts. scheduled (spec_blob_params s) = [] \<longrightarrow> blob_params_at lib s ts =
        (if fork_active lib s Osaka ts then Some (osaka (spec_blob_params s))
         else if fork_active lib s Prague ts then Some (prague (spec_blob_params s))
         else if fork_active lib s Cancun ts then Some (cancun (spec_blob_params s))
         else None))"

subsection \<open>Genesis validation\<close>

datatype genesis_error =
    CancunNotAtGenesis "u64 option"
  | TtdNotZero u256
  | MergeNotAtGenesis u64
  | PreCancunForkNotAtGenesis u64
  | ShanghaiNotAtGenesis u64
  | PragueNotAtGenesis u64

datatype pre_cancun_fork =
    Homestead | DaoFork | Eip150 | Eip155 | Eip158 | Byzantium | Constantinople
  | Petersburg | Istanbul | MuirGlacier | Berlin | London | ArrowGlacier | GrayGlacier

text \<open>The mutable borrow of one of the block fields: read it, write it.\<close>

fun get_fork :: "pre_cancun_fork \<Rightarrow> chain_config \<Rightarrow> u64 option" where
  "get_fork Homestead c = homestead_block c"
| "get_fork DaoFork c = dao_fork_block c"
| "get_fork Eip150 c = eip150_block c"
| "get_fork Eip155 c = eip155_block c"
| "get_fork Eip158 c = eip158_block c"
| "get_fork Byzantium c = byzantium_block c"
| "get_fork Constantinople c = constantinople_block c"
| "get_fork Petersburg c = petersburg_block c"
| "get_fork Istanbul c = istanbul_block c"
| "get_fork MuirGlacier c = muir_glacier_block c"
| "get_fork Berlin c = berlin_block c"
| "get_fork London c = london_block c"
| "get_fork ArrowGlacier c = arrow_glacier_block c"
| "get_fork GrayGlacier c = gray_glacier_block c"

fun set_fork :: "pre_cancun_fork \<Rightarrow> u64 option \<Rightarrow> chain_config \<Rightarrow> chain_config" where
  "set_fork Homestead b c = c\<lparr>homestead_block := b\<rparr>"
| "set_fork DaoFork b c = c\<lparr>dao_fork_block := b\<rparr>"
| "set_fork Eip150 b c = c\<lparr>eip150_block := b\<rparr>"
| "set_fork Eip155 b c = c\<lparr>eip155_block := b\<rparr>"
| "set_fork Eip158 b c = c\<lparr>eip158_block := b\<rparr>"
| "set_fork Byzantium b c = c\<lparr>byzantium_block := b\<rparr>"
| "set_fork Constantinople b c = c\<lparr>constantinople_block := b\<rparr>"
| "set_fork Petersburg b c = c\<lparr>petersburg_block := b\<rparr>"
| "set_fork Istanbul b c = c\<lparr>istanbul_block := b\<rparr>"
| "set_fork MuirGlacier b c = c\<lparr>muir_glacier_block := b\<rparr>"
| "set_fork Berlin b c = c\<lparr>berlin_block := b\<rparr>"
| "set_fork London b c = c\<lparr>london_block := b\<rparr>"
| "set_fork ArrowGlacier b c = c\<lparr>arrow_glacier_block := b\<rparr>"
| "set_fork GrayGlacier b c = c\<lparr>gray_glacier_block := b\<rparr>"

definition pre_cancun_forks :: "pre_cancun_fork list" where
  "pre_cancun_forks =
     [Homestead, DaoFork, Eip150, Eip155, Eip158, Byzantium, Constantinople,
      Petersburg, Istanbul, MuirGlacier, Berlin, London, ArrowGlacier, GrayGlacier]"

text \<open>The loop \<open>for fork in pre_cancun_forks\<close>, leaving at the first fork not at block 0.\<close>

fun normalize_forks ::
  "pre_cancun_fork list \<Rightarrow> chain_config \<Rightarrow> genesis_error + chain_config" where
  "normalize_forks [] c = Inr c"
| "normalize_forks (f # fs) c =
     (case get_fork f c of
        Some block \<Rightarrow>
          if block \<noteq> 0 then Inl (PreCancunForkNotAtGenesis block) else normalize_forks fs c
      | None \<Rightarrow> normalize_forks fs (set_fork f (Some 0) c))"

definition validate_genesis :: "genesis \<Rightarrow> genesis_error + genesis" where
  "validate_genesis g =
     (let c0 = config g in
      if cancun_time c0 \<noteq> Some 0 then Inl (CancunNotAtGenesis (cancun_time c0))
      else
        rbind (case terminal_total_difficulty c0 of
                 Some ttd \<Rightarrow> if ttd \<noteq> 0 then Inl (TtdNotZero ttd) else Inr c0
               | None \<Rightarrow> Inr (c0\<lparr>terminal_total_difficulty := Some 0\<rparr>)) (\<lambda>c1.
        let c2 = (if \<not> terminal_total_difficulty_passed c1
                  then c1\<lparr>terminal_total_difficulty_passed := True\<rparr> else c1) in
        rbind (case merge_netsplit_block c2 of
                 Some b \<Rightarrow> if b \<noteq> 0 then Inl (MergeNotAtGenesis b) else Inr c2
               | None \<Rightarrow> Inr (c2\<lparr>merge_netsplit_block := Some 0\<rparr>)) (\<lambda>c3.
        rbind (normalize_forks pre_cancun_forks c3) (\<lambda>c4.
        rbind (case shanghai_time c4 of
                 Some t \<Rightarrow> if t \<noteq> 0 then Inl (ShanghaiNotAtGenesis t) else Inr c4
               | None \<Rightarrow> Inr (c4\<lparr>shanghai_time := Some 0\<rparr>)) (\<lambda>c5.
        rbind (case prague_time c5 of
                 Some t \<Rightarrow> if t \<noteq> 0 then Inl (PragueNotAtGenesis t) else Inr c5
               | None \<Rightarrow> Inr (c5\<lparr>prague_time := Some 0\<rparr>)) (\<lambda>c6.
        Inr (g\<lparr>config := c6\<rparr>)))))))"

subsection \<open>Construction of the chain spec\<close>

record 'c load_chain_spec =
  spec_inner :: "'c chain_spec"

definition load_blob_params :: "'c spec_lib \<Rightarrow> blob_params" where
  "load_blob_params lib =
     \<lparr>target_blob_count = LOAD_TARGET_BLOB_COUNT,
      max_blob_count = LOAD_MAX_BLOB_COUNT,
      update_fraction = LOAD_BLOB_UPDATE_FRACTION,
      min_blob_fee = min_blob_fee (cancun_params lib),
      max_blobs_per_tx = LOAD_MAX_BLOBS_PER_TX,
      blob_base_cost = blob_base_cost (cancun_params lib)\<rparr>"

definition from_genesis :: "'c spec_lib \<Rightarrow> genesis \<Rightarrow> genesis_error + 'c load_chain_spec" where
  "from_genesis lib genesis0 =
     rbind (validate_genesis genesis0) (\<lambda>genesis.
       let inner0 = spec_of_genesis lib genesis;
           inner1 = inner0\<lparr>chain := chain_from_id lib (chain_id (config genesis))\<rparr>;
           inner2 = inner1\<lparr>spec_blob_params :=
             \<lparr>cancun = load_blob_params lib, prague = load_blob_params lib,
              osaka = osaka_params lib, scheduled = []\<rparr>\<rparr>
       in Inr \<lparr>spec_inner = inner2\<rparr>)"

text \<open>\<open>LoadChainSpec::default()\<close>; \<open>None\<close> is the panic of \<open>expect\<close>.\<close>

definition default_genesis :: "genesis \<Rightarrow> genesis" where
  "default_genesis upstream_default =
     upstream_default\<lparr>config := (config upstream_default)
       \<lparr>chain_id := 16383,
        terminal_total_difficulty := Some 0,
        terminal_total_difficulty_passed := True,
        shanghai_time := Some 0,
        cancun_time := Some 0,
        prague_time := Some 0,
        merge_netsplit_block := Some 0\<rparr>\<rparr>"

definition default_chain_spec :: "'c spec_lib \<Rightarrow> genesis \<Rightarrow> 'c load_chain_spec option" where
  "default_chain_spec lib upstream_default =
     (case from_genesis lib (default_genesis upstream_default) of
        Inl e \<Rightarrow> None | Inr s \<Rightarrow> Some s)"

subsection \<open>Trait delegation\<close>

definition spec_chain :: "'c load_chain_spec \<Rightarrow> 'c" where
  "spec_chain s = chain (spec_inner s)"

definition blob_params_at_timestamp ::
  "'c spec_lib \<Rightarrow> 'c load_chain_spec \<Rightarrow> u64 \<Rightarrow> blob_params option" where
  "blob_params_at_timestamp lib s ts = blob_params_at lib (spec_inner s) ts"

definition load_genesis :: "'c load_chain_spec \<Rightarrow> genesis" where
  "load_genesis s = spec_genesis (spec_inner s)"

text \<open>
  \<open>is_shanghai_active_at_timestamp\<close> and its siblings: provided methods of
  \<open>EthereumHardforks\<close> over \<open>ethereum_fork_activation\<close>, which delegates to the inner spec.
\<close>

definition is_active_at_timestamp ::
  "'c spec_lib \<Rightarrow> 'c load_chain_spec \<Rightarrow> hardfork \<Rightarrow> u64 \<Rightarrow> bool" where
  "is_active_at_timestamp lib s f ts = fork_active lib (spec_inner s) f ts"

subsection \<open>Command line parser\<close>

datatype 'x parse_error = JsonError 'x | GenesisFileError string 'x | InvalidGenesis genesis_error

record 'x parser_lib =
  json_genesis :: "string \<Rightarrow> 'x + genesis"
  parse_genesis_file :: "string \<Rightarrow> 'x + genesis"
  LOAD_DEV_GENESIS_JSON :: string
  LOAD_MAINNET_GENESIS_JSON :: string

definition SUPPORTED_CHAINS :: "string list" where
  "SUPPORTED_CHAINS = [''load'', ''load-dev'']"

definition parse_chain ::
  "'c spec_lib \<Rightarrow> 'x parser_lib \<Rightarrow> string \<Rightarrow> 'x parse_error + 'c load_chain_spec" where
  "parse_chain lib plib s =
     (if s = ''load-dev'' then
        rbind (map_err JsonError (json_genesis plib (LOAD_DEV_GENESIS_JSON plib)))
          (\<lambda>g. map_err InvalidGenesis (from_genesis lib g))
      else if s = ''load'' then
        rbind (map_err JsonError (json_genesis plib (LOAD_MAINNET_GENESIS_JSON plib)))
          (\<lambda>g. map_err InvalidGenesis (from_genesis lib g))
      else
        rbind (map_err (GenesisFileError s) (parse_genesis_file plib s))
          (\<lambda>g. map_err InvalidGenesis (from_genesis lib g)))"


subsection \<open>The fork fields\<close>

lemma get_set_fork [simp]: "get_fork f (set_fork f' b c) = (if f = f' then b else get_fork f c)"
  by (cases f'; cases f) simp_all

lemma set_fork_same: "get_fork f c = b \<Longrightarrow> set_fork f b c = c"
  by (cases f) auto

lemma set_fork_frame [simp]:
  "chain_id (set_fork f b c) = chain_id c"
  "cancun_time (set_fork f b c) = cancun_time c"
  "shanghai_time (set_fork f b c) = shanghai_time c"
  "prague_time (set_fork f b c) = prague_time c"
  "osaka_time (set_fork f b c) = osaka_time c"
  "merge_netsplit_block (set_fork f b c) = merge_netsplit_block c"
  "terminal_total_difficulty (set_fork f b c) = terminal_total_difficulty c"
  "terminal_total_difficulty_passed (set_fork f b c) = terminal_total_difficulty_passed c"
  by (cases f; simp)+

lemma get_fork_frame [simp]:
  "get_fork f (c\<lparr>cancun_time := x\<rparr>) = get_fork f c"
  "get_fork f (c\<lparr>shanghai_time := x\<rparr>) = get_fork f c"
  "get_fork f (c\<lparr>prague_time := x\<rparr>) = get_fork f c"
  "get_fork f (c\<lparr>chain_id := i\<rparr>) = get_fork f c"
  "get_fork f (c\<lparr>merge_netsplit_block := x\<rparr>) = get_fork f c"
  "get_fork f (c\<lparr>terminal_total_difficulty := d\<rparr>) = get_fork f c"
  "get_fork f (c\<lparr>terminal_total_difficulty_passed := p\<rparr>) = get_fork f c"
  by (cases f; simp)+

lemma set_pre_cancun_forks [simp]: "f \<in> set pre_cancun_forks"
  by (cases f) (simp_all add: pre_cancun_forks_def)

lemma distinct_pre_cancun_forks [simp]: "distinct pre_cancun_forks"
  by (simp add: pre_cancun_forks_def)

text \<open>A field is absent or 0: what every schedule check of the validation accepts.\<close>

definition unset_or_zero :: "'a::zero option \<Rightarrow> bool" where
  "unset_or_zero x \<longleftrightarrow> x = None \<or> x = Some 0"

definition zero_forks :: "pre_cancun_fork list \<Rightarrow> chain_config \<Rightarrow> chain_config" where
  "zero_forks fs c = fold (\<lambda>f. set_fork f (Some 0)) fs c"

lemma zero_forks_Nil [simp]: "zero_forks [] c = c"
  by (simp add: zero_forks_def)

lemma zero_forks_Cons [simp]: "zero_forks (f # fs) c = zero_forks fs (set_fork f (Some 0) c)"
  by (simp add: zero_forks_def)

lemma get_fork_zero_forks [simp]:
  "get_fork f (zero_forks fs c) = (if f \<in> set fs then Some 0 else get_fork f c)"
  by (induction fs arbitrary: c) auto

lemma zero_forks_frame [simp]:
  "chain_id (zero_forks fs c) = chain_id c"
  "cancun_time (zero_forks fs c) = cancun_time c"
  "shanghai_time (zero_forks fs c) = shanghai_time c"
  "prague_time (zero_forks fs c) = prague_time c"
  "osaka_time (zero_forks fs c) = osaka_time c"
  "merge_netsplit_block (zero_forks fs c) = merge_netsplit_block c"
  "terminal_total_difficulty (zero_forks fs c) = terminal_total_difficulty c"
  "terminal_total_difficulty_passed (zero_forks fs c) = terminal_total_difficulty_passed c"
  by (induction fs arbitrary: c) simp_all

text \<open>The loop is the check that every fork is unset or 0, then the writes.\<close>

lemma normalize_forks_Inr:
  assumes "distinct fs"
  shows "normalize_forks fs c = Inr c' \<longleftrightarrow>
    (\<forall>f \<in> set fs. unset_or_zero (get_fork f c)) \<and> c' = zero_forks fs c"
  using assms
proof (induction fs arbitrary: c)
  case Nil
  then show ?case by auto
next
  case (Cons f fs)
  show ?case
  proof (cases "get_fork f c")
    case None
    have "unset_or_zero (get_fork f' (set_fork f (Some 0) c)) = unset_or_zero (get_fork f' c)"
      if "f' \<in> set fs" for f'
      using that Cons.prems by auto
    with Cons None show ?thesis by (auto simp: unset_or_zero_def)
  next
    case (Some b)
    then have "b = 0 \<Longrightarrow> set_fork f (Some 0) c = c" by (simp add: set_fork_same)
    with Cons Some show ?thesis by (auto simp: unset_or_zero_def)
  qed
qed

lemma normalize_forks_zeroed:
  "(\<And>f. f \<in> set fs \<Longrightarrow> get_fork f c = Some 0) \<Longrightarrow> normalize_forks fs c = Inr c"
  by (induction fs) auto

subsection \<open>The acceptance condition and the normal form\<close>

definition genesis_ok :: "chain_config \<Rightarrow> bool" where
  "genesis_ok c \<longleftrightarrow>
     cancun_time c = Some 0 \<and> unset_or_zero (terminal_total_difficulty c) \<and>
     unset_or_zero (merge_netsplit_block c) \<and> (\<forall>f. unset_or_zero (get_fork f c)) \<and>
     unset_or_zero (shanghai_time c) \<and> unset_or_zero (prague_time c)"

definition normal_config :: "chain_config \<Rightarrow> chain_config" where
  "normal_config c =
     (zero_forks pre_cancun_forks
       (c\<lparr>terminal_total_difficulty := Some 0, terminal_total_difficulty_passed := True,
          merge_netsplit_block := Some 0\<rparr>))
       \<lparr>shanghai_time := Some 0, prague_time := Some 0\<rparr>"

text \<open>The guardrails of \<open>GENESIS_CONTRACT.md\<close> (and of the built-in genesis test).\<close>

definition guardrails :: "chain_config \<Rightarrow> bool" where
  "guardrails c \<longleftrightarrow>
     cancun_time c = Some 0 \<and> shanghai_time c = Some 0 \<and> prague_time c = Some 0 \<and>
     terminal_total_difficulty c = Some 0 \<and> terminal_total_difficulty_passed c \<and>
     merge_netsplit_block c = Some 0 \<and> (\<forall>f. get_fork f c = Some 0)"

lemma guardrails_normal_config: "cancun_time c = Some 0 \<Longrightarrow> guardrails (normal_config c)"
  by (simp add: guardrails_def normal_config_def)

lemma normal_config_frame [simp]:
  "chain_id (normal_config c) = chain_id c"
  "cancun_time (normal_config c) = cancun_time c"
  "osaka_time (normal_config c) = osaka_time c"
  by (simp_all add: normal_config_def)

text \<open>Each optional field: the check of the code, as a condition and an update.\<close>

lemma check_zero_field:
  "(case x of Some b \<Rightarrow> if b \<noteq> 0 then Inl (err b) else Inr c | None \<Rightarrow> Inr c') = Inr r \<longleftrightarrow>
   unset_or_zero x \<and> r = (if x = None then c' else c)"
  by (auto simp: unset_or_zero_def split: option.splits if_splits)

lemma update_same_field [simp]:
  "terminal_total_difficulty c = d \<Longrightarrow> c\<lparr>terminal_total_difficulty := d\<rparr> = c"
  "terminal_total_difficulty_passed c = p \<Longrightarrow> c\<lparr>terminal_total_difficulty_passed := p\<rparr> = c"
  "merge_netsplit_block c = x \<Longrightarrow> c\<lparr>merge_netsplit_block := x\<rparr> = c"
  "shanghai_time c = x \<Longrightarrow> c\<lparr>shanghai_time := x\<rparr> = c"
  "prague_time c = x \<Longrightarrow> c\<lparr>prague_time := x\<rparr> = c"
  by auto

text \<open>The stages of the validation, each an update of the configuration it is given.\<close>

lemma ttd_stage:
  "(case terminal_total_difficulty c of
      Some d \<Rightarrow> if d \<noteq> 0 then Inl (TtdNotZero d) else Inr c
    | None \<Rightarrow> Inr (c\<lparr>terminal_total_difficulty := Some 0\<rparr>)) = Inr c' \<longleftrightarrow>
   unset_or_zero (terminal_total_difficulty c) \<and> c' = c\<lparr>terminal_total_difficulty := Some 0\<rparr>"
  by (auto simp: check_zero_field unset_or_zero_def)

lemma merge_stage:
  "(case merge_netsplit_block c of
      Some b \<Rightarrow> if b \<noteq> 0 then Inl (MergeNotAtGenesis b) else Inr c
    | None \<Rightarrow> Inr (c\<lparr>merge_netsplit_block := Some 0\<rparr>)) = Inr c' \<longleftrightarrow>
   unset_or_zero (merge_netsplit_block c) \<and> c' = c\<lparr>merge_netsplit_block := Some 0\<rparr>"
  by (auto simp: check_zero_field unset_or_zero_def)

lemma shanghai_stage:
  "(case shanghai_time c of
      Some t \<Rightarrow> if t \<noteq> 0 then Inl (ShanghaiNotAtGenesis t) else Inr c
    | None \<Rightarrow> Inr (c\<lparr>shanghai_time := Some 0\<rparr>)) = Inr c' \<longleftrightarrow>
   unset_or_zero (shanghai_time c) \<and> c' = c\<lparr>shanghai_time := Some 0\<rparr>"
  by (auto simp: check_zero_field unset_or_zero_def)

lemma prague_stage:
  "(case prague_time c of
      Some t \<Rightarrow> if t \<noteq> 0 then Inl (PragueNotAtGenesis t) else Inr c
    | None \<Rightarrow> Inr (c\<lparr>prague_time := Some 0\<rparr>)) = Inr c' \<longleftrightarrow>
   unset_or_zero (prague_time c) \<and> c' = c\<lparr>prague_time := Some 0\<rparr>"
  by (auto simp: check_zero_field unset_or_zero_def)

lemma passed_stage:
  "(if \<not> terminal_total_difficulty_passed c
    then c\<lparr>terminal_total_difficulty_passed := True\<rparr> else c) =
   c\<lparr>terminal_total_difficulty_passed := True\<rparr>"
  by simp

lemma forks_stage:
  "normalize_forks pre_cancun_forks c = Inr c' \<longleftrightarrow>
   (\<forall>f. unset_or_zero (get_fork f c)) \<and> c' = zero_forks pre_cancun_forks c"
  by (simp add: normalize_forks_Inr Ball_def)

lemmas genesis_stages =
  ttd_stage merge_stage shanghai_stage prague_stage passed_stage forks_stage

lemma validate_genesis_Inr:
  "validate_genesis g = Inr g' \<longleftrightarrow>
   genesis_ok (config g) \<and> g' = g\<lparr>config := normal_config (config g)\<rparr>"
proof (cases "cancun_time (config g) = Some 0")
  case False
  then show ?thesis by (simp add: validate_genesis_def Let_def genesis_ok_def)
next
  case True
  show ?thesis
    by (simp only: validate_genesis_def Let_def True not_True_eq_False if_False simp_thms
        passed_stage rbind_eq_Inr genesis_stages)
      (auto simp: True genesis_ok_def normal_config_def)
qed

lemma validate_genesis_rejects:
  "\<not> genesis_ok (config g) \<Longrightarrow> \<exists>e. validate_genesis g = Inl e"
  by (metis validate_genesis_Inr sum.exhaust)

lemma genesis_ok_if_guardrails: "guardrails c \<Longrightarrow> genesis_ok c"
  by (simp add: guardrails_def genesis_ok_def unset_or_zero_def)

lemma zero_forks_id: "(\<And>f. f \<in> set fs \<Longrightarrow> get_fork f c = Some 0) \<Longrightarrow> zero_forks fs c = c"
  by (induction fs) (simp_all add: set_fork_same)

lemma normal_config_id: "guardrails c \<Longrightarrow> normal_config c = c"
  by (simp add: normal_config_def guardrails_def zero_forks_id)

lemma from_genesis_Inr:
  "from_genesis lib g = Inr s \<longleftrightarrow>
   genesis_ok (config g) \<and>
   s = \<lparr>spec_inner = (spec_of_genesis lib (g\<lparr>config := normal_config (config g)\<rparr>))
          \<lparr>chain := chain_from_id lib (chain_id (config g)),
           spec_blob_params :=
             \<lparr>cancun = load_blob_params lib, prague = load_blob_params lib,
              osaka = osaka_params lib, scheduled = []\<rparr>\<rparr>\<rparr>"
  by (auto simp: from_genesis_def rbind_eq_Inr validate_genesis_Inr Let_def)

subsection \<open>Consequences of the laws of the upstream chain spec\<close>

lemma law_chain_id: "spec_lib_laws lib \<Longrightarrow> chain_id_of lib (chain_from_id lib n) = n"
  by (simp add: spec_lib_laws_def)

lemma law_genesis: "spec_lib_laws lib \<Longrightarrow> spec_genesis (spec_of_genesis lib g) = g"
  by (simp add: spec_lib_laws_def)

lemma law_fork_set:
  "spec_lib_laws lib \<Longrightarrow> fork_time f (config g) = Some t \<Longrightarrow>
   hardforks (spec_of_genesis lib g) f = ForkTimestamp t"
  by (simp add: spec_lib_laws_def)

lemma law_fork_unset:
  "spec_lib_laws lib \<Longrightarrow> fork_time f (config g) = None \<Longrightarrow>
   hardforks (spec_of_genesis lib g) f = OtherCondition"
  by (simp add: spec_lib_laws_def)

lemma law_active:
  "spec_lib_laws lib \<Longrightarrow> fork_active lib s f ts =
   (case hardforks s f of ForkTimestamp t \<Rightarrow> t \<le> ts | OtherCondition \<Rightarrow> False)"
  unfolding spec_lib_laws_def by (cases "hardforks s f") auto

lemma law_blob_params:
  "spec_lib_laws lib \<Longrightarrow> scheduled (spec_blob_params s) = [] \<Longrightarrow>
   blob_params_at lib s ts =
     (if fork_active lib s Osaka ts then Some (osaka (spec_blob_params s))
      else if fork_active lib s Prague ts then Some (prague (spec_blob_params s))
      else if fork_active lib s Cancun ts then Some (cancun (spec_blob_params s))
      else None)"
  unfolding spec_lib_laws_def by blast

lemma from_genesis_active:
  assumes "spec_lib_laws lib" and "from_genesis lib g = Inr s"
  shows "is_active_at_timestamp lib s f ts =
    (f \<noteq> Osaka \<or> (\<exists>t. osaka_time (config g) = Some t \<and> t \<le> ts))"
proof -
  let ?g = "g\<lparr>config := normal_config (config g)\<rparr>"
  have hf: "hardforks (spec_inner s) f = hardforks (spec_of_genesis lib ?g) f"
    using assms(2) by (simp add: from_genesis_Inr)
  have c: "cancun_time (config g) = Some 0"
    using assms(2) by (simp add: from_genesis_Inr genesis_ok_def)
  show ?thesis
  proof (cases "fork_time f (config ?g)")
    case None
    then have "f = Osaka \<and> osaka_time (config g) = None"
      by (cases f) (simp_all add: c normal_config_def)
    with None assms(1) hf show ?thesis
      by (simp add: is_active_at_timestamp_def law_active law_fork_unset)
  next
    case (Some t)
    then have "f = Osaka \<and> osaka_time (config g) = Some t \<or> f \<noteq> Osaka \<and> t = 0"
      by (cases f) (simp_all add: c normal_config_def)
    with Some assms(1) hf show ?thesis
      by (auto simp: is_active_at_timestamp_def law_active law_fork_set)
  qed
qed

lemma from_genesis_blob_params:
  assumes "spec_lib_laws lib" and "from_genesis lib g = Inr s"
  shows "blob_params_at_timestamp lib s ts =
    Some (if is_active_at_timestamp lib s Osaka ts then osaka_params lib else load_blob_params lib)"
proof -
  have "is_active_at_timestamp lib s Prague ts"
    using assms by (simp add: from_genesis_active)
  moreover have "spec_blob_params (spec_inner s) =
      \<lparr>cancun = load_blob_params lib, prague = load_blob_params lib,
       osaka = osaka_params lib, scheduled = []\<rparr>"
    using assms(2) by (simp add: from_genesis_Inr)
  ultimately show ?thesis
    using assms(1) by (simp add: blob_params_at_timestamp_def is_active_at_timestamp_def
        law_blob_params)
qed

subsection \<open>The built-in genesis files (\<open>etc/load-dev-genesis.json\<close>, \<open>etc/load-mainnet-genesis.json\<close>)\<close>

definition builtin_config :: "u64 \<Rightarrow> chain_config" where
  "builtin_config cid =
     \<lparr>chain_id = cid, homestead_block = Some 0, dao_fork_block = None, eip150_block = Some 0,
      eip155_block = Some 0, eip158_block = Some 0, byzantium_block = Some 0,
      constantinople_block = Some 0, petersburg_block = Some 0, istanbul_block = Some 0,
      muir_glacier_block = None, berlin_block = Some 0, london_block = Some 0,
      arrow_glacier_block = None, gray_glacier_block = None, merge_netsplit_block = Some 0,
      shanghai_time = Some 0, cancun_time = Some 0, prague_time = Some 0, osaka_time = None,
      terminal_total_difficulty = Some 0, terminal_total_difficulty_passed = True\<rparr>"

definition load_dev_genesis :: genesis where
  "load_dev_genesis =
     \<lparr>config = builtin_config 16383, gen_nonce = 0, gen_timestamp = 0,
      gen_extra_data = [76, 111, 97, 100, 32, 78, 101, 116, 119, 111, 114, 107, 32, 68, 101, 118],
      gen_gas_limit = 2000000000, gen_difficulty = 0, gen_base_fee_per_gas = Some 7,
      gen_alloc = [((replicate 19 0) @ [1], 1),
        ([243, 159, 214, 229, 26, 173, 136, 246, 244, 206, 106, 184, 130, 114, 121, 207, 255, 185, 34, 102],
         10000000000000000000000)]\<rparr>"

definition load_mainnet_genesis :: genesis where
  "load_mainnet_genesis =
     \<lparr>config = builtin_config 16888, gen_nonce = 0, gen_timestamp = 0,
      gen_extra_data = [76, 111, 97, 100, 32, 78, 101, 116, 119, 111, 114, 107, 32, 77, 97, 105, 110, 110, 101, 116],
      gen_gas_limit = 2000000000, gen_difficulty = 0, gen_base_fee_per_gas = Some 7,
      gen_alloc = [((replicate 19 0) @ [1], 1)]\<rparr>"

lemma genesis_ok_builtin: "genesis_ok (builtin_config cid)"
proof -
  have "unset_or_zero (get_fork f (builtin_config cid))" for f
    by (cases f) (simp_all add: builtin_config_def unset_or_zero_def)
  then show ?thesis by (simp add: genesis_ok_def builtin_config_def unset_or_zero_def)
qed

lemma config_builtin [simp]:
  "config load_dev_genesis = builtin_config 16383"
  "config load_mainnet_genesis = builtin_config 16888"
  by (simp_all add: load_dev_genesis_def load_mainnet_genesis_def)

lemma builtin_config_sel [simp]:
  "chain_id (builtin_config cid) = cid" "osaka_time (builtin_config cid) = None"
  "cancun_time (builtin_config cid) = Some 0"
  by (simp_all add: builtin_config_def)

text \<open>
  An instance of the upstream functions that satisfies the laws: activation by timestamp, the
  schedule of the laws, and the Cancun and Osaka parameters of Ethereum mainnet.
\<close>

definition example_spec_lib :: "u64 spec_lib" where
  "example_spec_lib =
     (let cancun_p = \<lparr>target_blob_count = 3, max_blob_count = 6, update_fraction = 3338477,
                      min_blob_fee = 1, max_blobs_per_tx = 6, blob_base_cost = 0\<rparr>;
          osaka_p = \<lparr>target_blob_count = 6, max_blob_count = 9, update_fraction = 5007716,
                     min_blob_fee = 1, max_blobs_per_tx = 6, blob_base_cost = 8192\<rparr>;
          active = (\<lambda>s f ts. case hardforks s f of ForkTimestamp t \<Rightarrow> t \<le> ts | OtherCondition \<Rightarrow> False)
      in \<lparr>spec_of_genesis = (\<lambda>g. \<lparr>chain = 0, spec_genesis = g,
            hardforks = (\<lambda>f. case fork_time f (config g) of
               Some t \<Rightarrow> ForkTimestamp t | None \<Rightarrow> OtherCondition),
            spec_blob_params = \<lparr>cancun = cancun_p, prague = cancun_p, osaka = osaka_p, scheduled = []\<rparr>\<rparr>),
          chain_from_id = (\<lambda>n. n), chain_id_of = (\<lambda>n. n),
          cancun_params = cancun_p, osaka_params = osaka_p,
          blob_params_at = (\<lambda>s ts.
            if active s Osaka ts then Some (osaka (spec_blob_params s))
            else if active s Prague ts then Some (prague (spec_blob_params s))
            else if active s Cancun ts then Some (cancun (spec_blob_params s))
            else None),
          fork_active = active\<rparr>)"

lemma example_spec_lib_laws: "spec_lib_laws example_spec_lib"
  by (simp add: spec_lib_laws_def example_spec_lib_def Let_def)

subsection \<open>Properties\<close>

text \<open>C16. Genesis validation accepts exactly the genesis files that have Cancun at timestamp 0
  and every other Load requirement (total difficulty, merge block, the fourteen pre-Cancun
  forks, Shanghai, Prague) either absent or 0; everything else is an error.\<close>

theorem genesis_accept_iff: "is_ok (validate_genesis g) \<longleftrightarrow> genesis_ok (config g)"
  by (simp add: is_ok_iff validate_genesis_Inr)

text \<open>An accepted genesis is normalised: the result satisfies all the guardrails of the
  genesis contract (merge at genesis, every fork through Prague at 0), differs from the input
  in the configuration only, keeps chain id and Osaka time, and validating it again changes
  nothing.\<close>

lemma genesis_normalised:
  assumes "validate_genesis g = Inr g'"
  shows "guardrails (config g') \<and> g' = g\<lparr>config := config g'\<rparr> \<and>
    chain_id (config g') = chain_id (config g) \<and> osaka_time (config g') = osaka_time (config g) \<and>
    validate_genesis g' = Inr g'"
proof -
  from assms have ok: "cancun_time (config g) = Some 0"
    and g': "g' = g\<lparr>config := normal_config (config g)\<rparr>"
    by (simp_all add: validate_genesis_Inr genesis_ok_def)
  from ok have "guardrails (config g')" by (simp add: g' guardrails_normal_config)
  moreover from this have "validate_genesis g' = Inr g'"
    by (simp add: validate_genesis_Inr genesis_ok_if_guardrails normal_config_id)
  ultimately show ?thesis by (simp add: g')
qed

lemma genesis_normalised_witness:
  "\<exists>g'. validate_genesis load_dev_genesis = Inr g' \<and> guardrails (config g') \<and>
     chain_id (config g') = 16383 \<and> validate_genesis g' = Inr g'"
proof -
  have ok: "validate_genesis load_dev_genesis =
      Inr (load_dev_genesis\<lparr>config := normal_config (builtin_config 16383)\<rparr>)"
    by (simp add: validate_genesis_Inr genesis_ok_builtin)
  from ok genesis_normalised [OF ok] show ?thesis by auto
qed

text \<open>C15. The spec built from an accepted genesis has the id of the genesis, keeps the
  normalised genesis, has Shanghai, Cancun and Prague active at every timestamp and Osaka
  exactly from its genesis time on; its blob parameters are the Load ones (target 512, max
  1024, 32 per transaction, Pectra update fraction) at every timestamp before Osaka and the
  upstream Osaka parameters from then on.\<close>

theorem from_genesis_spec:
  assumes "spec_lib_laws lib" and "from_genesis lib g = Inr s"
  shows "chain_id_of lib (spec_chain s) = chain_id (config g) \<and>
    guardrails (config (load_genesis s)) \<and>
    (\<forall>f ts. is_active_at_timestamp lib s f ts =
       (f \<noteq> Osaka \<or> (\<exists>t. osaka_time (config g) = Some t \<and> t \<le> ts))) \<and>
    (\<forall>ts. blob_params_at_timestamp lib s ts =
       Some (if is_active_at_timestamp lib s Osaka ts then osaka_params lib
             else \<lparr>target_blob_count = 512, max_blob_count = 1024, update_fraction = 5007716,
                   min_blob_fee = min_blob_fee (cancun_params lib), max_blobs_per_tx = 32,
                   blob_base_cost = blob_base_cost (cancun_params lib)\<rparr>))"
proof -
  from assms(2) have "cancun_time (config g) = Some 0"
    by (simp add: from_genesis_Inr genesis_ok_def)
  with assms have "chain_id_of lib (spec_chain s) = chain_id (config g)"
    "guardrails (config (load_genesis s))"
    by (simp_all add: from_genesis_Inr spec_chain_def load_genesis_def law_chain_id law_genesis
        guardrails_normal_config)
  moreover have "load_blob_params lib = \<lparr>target_blob_count = 512, max_blob_count = 1024,
      update_fraction = 5007716, min_blob_fee = min_blob_fee (cancun_params lib),
      max_blobs_per_tx = 32, blob_base_cost = blob_base_cost (cancun_params lib)\<rparr>"
    by (simp add: load_blob_params_def load_constants)
  ultimately show ?thesis
    using from_genesis_active [OF assms] by (auto simp: from_genesis_blob_params [OF assms])
qed

theorem from_genesis_spec_witness:
  "\<exists>s. from_genesis example_spec_lib load_dev_genesis = Inr s \<and>
     chain_id_of example_spec_lib (spec_chain s) = 16383 \<and>
     is_active_at_timestamp example_spec_lib s Prague 0 \<and>
     \<not> is_active_at_timestamp example_spec_lib s Osaka 5"
proof -
  obtain s where s: "from_genesis example_spec_lib load_dev_genesis = Inr s"
    using genesis_ok_builtin by (auto simp: from_genesis_Inr)
  from s from_genesis_spec [OF example_spec_lib_laws s] show ?thesis by auto
qed

text \<open>\<open>LoadChainSpec::default()\<close> never panics when upstream's default genesis leaves the
  pre-Cancun forks unset or at block 0, and its chain id is the dev id 16383.\<close>

lemma default_spec_no_panic:
  assumes "spec_lib_laws lib" and "\<And>f. unset_or_zero (get_fork f (config upstream_default))"
  shows "\<exists>s. default_chain_spec lib upstream_default = Some s \<and> chain_id_of lib (spec_chain s) = 16383"
proof -
  have "genesis_ok (config (default_genesis upstream_default))"
    using assms(2) by (simp add: genesis_ok_def default_genesis_def unset_or_zero_def)
  then obtain s where s: "from_genesis lib (default_genesis upstream_default) = Inr s"
    by (simp add: from_genesis_Inr)
  then have "default_chain_spec lib upstream_default = Some s"
    by (simp add: default_chain_spec_def)
  moreover from s assms(1) have "chain_id_of lib (spec_chain s) = 16383"
    by (simp add: from_genesis_Inr spec_chain_def law_chain_id default_genesis_def)
  ultimately show ?thesis by blast
qed

text \<open>When JSON decoding yields the genesis values of the two built-in files, the parser
  succeeds on both supported chain names, with the ids of \<open>GENESIS_CONTRACT.md\<close> (16383 for the
  dev chain, 16888 for the other) and without touching the file system.\<close>

lemma parse_supported_chains:
  assumes "spec_lib_laws lib"
    and "json_genesis plib (LOAD_DEV_GENESIS_JSON plib) = Inr load_dev_genesis"
    and "json_genesis plib (LOAD_MAINNET_GENESIS_JSON plib) = Inr load_mainnet_genesis"
    and "name \<in> set SUPPORTED_CHAINS"
  shows "\<exists>s. (\<forall>file_parser. parse_chain lib (plib\<lparr>parse_genesis_file := file_parser\<rparr>) name = Inr s) \<and>
    chain_id_of lib (spec_chain s) = (if name = ''load-dev'' then 16383 else 16888)"
proof -
  obtain s1 s2 where s: "from_genesis lib load_dev_genesis = Inr s1"
      "from_genesis lib load_mainnet_genesis = Inr s2"
    by (simp add: from_genesis_Inr genesis_ok_builtin)
  then have "chain_id_of lib (spec_chain s1) = 16383" "chain_id_of lib (spec_chain s2) = 16888"
    using assms(1) by (simp_all add: from_genesis_Inr spec_chain_def law_chain_id)
  with s assms(2-4) show ?thesis
    by (auto simp: SUPPORTED_CHAINS_def parse_chain_def)
qed

lemma parse_supported_chains_witness:
  "\<exists>s. parse_chain example_spec_lib
      \<lparr>json_genesis = (\<lambda>t. if t = ''dev'' then Inr load_dev_genesis else Inr load_mainnet_genesis),
       parse_genesis_file = (\<lambda>p. Inl ()), LOAD_DEV_GENESIS_JSON = ''dev'',
       LOAD_MAINNET_GENESIS_JSON = ''main''\<rparr> ''load'' = Inr s \<and>
     chain_id_of example_spec_lib (spec_chain s) = 16888"
  using parse_supported_chains [OF example_spec_lib_laws, of
      "\<lparr>json_genesis = (\<lambda>t. if t = ''dev'' then Inr load_dev_genesis else Inr load_mainnet_genesis),
       parse_genesis_file = (\<lambda>p. Inl ()), LOAD_DEV_GENESIS_JSON = ''dev'',
       LOAD_MAINNET_GENESIS_JSON = ''main''\<rparr>" "''load''"]
  by (auto simp: SUPPORTED_CHAINS_def)

end
