(* ===== verification/Spec_Traits.thy ===== *)
theory Spec_Traits
  imports Chainspec
begin

section \<open>The trait implementations of the chain spec (\<open>src/chainspec/mod.rs\<close>)\<close>

text \<open>
  \<open>LoadChainSpec\<close> implements the chain spec traits of \<open>reth\<close> by handing every question to the inner
  \<open>ChainSpec\<close>; the answers of the inner spec are the fields of \<open>spec_traits\<close> (types: \<open>'bf\<close> base
  fee parameters, \<open>'dc\<close> deposit contract, \<open>'hdr\<close> genesis header, \<open>'nr\<close> node record, \<open>'hd\<close> head,
  \<open>'fid\<close> fork id, \<open>'ff\<close> fork filter). A hardfork is known to the generic \<open>Hardforks\<close> trait by its
  name. The lemmas relate the answers to the fork schedule of the genesis.
\<close>

record ('c, 'bf, 'dc, 'hdr, 'nr, 'hd, 'fid, 'ff) spec_traits =
  up_base_fee_params :: "'c chain_spec \<Rightarrow> u64 \<Rightarrow> 'bf"
  up_deposit_contract :: "'c chain_spec \<Rightarrow> 'dc option"
  contract_address :: "'dc \<Rightarrow> address"
  up_genesis_hash :: "'c chain_spec \<Rightarrow> b256"
  up_prune_delete_limit :: "'c chain_spec \<Rightarrow> usize"
  up_display_hardforks :: "'c chain_spec \<Rightarrow> string"
  up_genesis_header :: "'c chain_spec \<Rightarrow> 'hdr"
  up_bootnodes :: "'c chain_spec \<Rightarrow> 'nr list option"
  up_final_paris_total_difficulty :: "'c chain_spec \<Rightarrow> u256 option"
  up_ethereum_fork_activation :: "'c chain_spec \<Rightarrow> hardfork \<Rightarrow> fork_condition"
  up_fork :: "'c chain_spec \<Rightarrow> string \<Rightarrow> fork_condition"
  up_forks_iter :: "'c chain_spec \<Rightarrow> (string \<times> fork_condition) list"
  up_fork_id :: "'c chain_spec \<Rightarrow> 'hd \<Rightarrow> 'fid"
  up_latest_fork_id :: "'c chain_spec \<Rightarrow> 'fid"
  up_fork_filter :: "'c chain_spec \<Rightarrow> 'hd \<Rightarrow> 'ff"

subsection \<open>\<open>EthChainSpec\<close>\<close>

definition base_fee_params_at_timestamp where
  "base_fee_params_at_timestamp tlib s ts = up_base_fee_params tlib (spec_inner s) ts"

definition deposit_contract where
  "deposit_contract tlib s = up_deposit_contract tlib (spec_inner s)"

definition genesis_hash where
  "genesis_hash tlib s = up_genesis_hash tlib (spec_inner s)"

definition prune_delete_limit where
  "prune_delete_limit tlib s = up_prune_delete_limit tlib (spec_inner s)"

definition display_hardforks where
  "display_hardforks tlib s = up_display_hardforks tlib (spec_inner s)"

definition genesis_header where
  "genesis_header tlib s = up_genesis_header tlib (spec_inner s)"

definition bootnodes where
  "bootnodes tlib s = up_bootnodes tlib (spec_inner s)"

definition final_paris_total_difficulty where
  "final_paris_total_difficulty tlib s = up_final_paris_total_difficulty tlib (spec_inner s)"

subsection \<open>\<open>EthExecutorSpec\<close>, \<open>EthereumHardforks\<close>, \<open>Hardforks\<close>\<close>

definition deposit_contract_address where
  "deposit_contract_address tlib s = map_option (contract_address tlib) (deposit_contract tlib s)"

definition ethereum_fork_activation where
  "ethereum_fork_activation tlib s f = up_ethereum_fork_activation tlib (spec_inner s) f"

definition spec_fork where
  "spec_fork tlib s f = up_fork tlib (spec_inner s) f"

definition forks_iter where
  "forks_iter tlib s = up_forks_iter tlib (spec_inner s)"

definition fork_id where
  "fork_id tlib s head = up_fork_id tlib (spec_inner s) head"

definition latest_fork_id where
  "latest_fork_id tlib s = up_latest_fork_id tlib (spec_inner s)"

definition fork_filter where
  "fork_filter tlib s head = up_fork_filter tlib (spec_inner s) head"

subsection \<open>The fork schedule behind the traits\<close>

text \<open>
  Documented of the inner spec: its Ethereum fork activations are those of its hardfork table,
  and an activation at a timestamp is active from it on.
\<close>

definition activation_law ::
  "('c, 'bf, 'dc, 'hdr, 'nr, 'hd, 'fid, 'ff) spec_traits \<Rightarrow> bool" where
  "activation_law tlib \<longleftrightarrow> (\<forall>s f. up_ethereum_fork_activation tlib s f = hardforks s f)"

lemma deposit_contract_address_None:
  "deposit_contract_address tlib s = None \<longleftrightarrow> deposit_contract tlib s = None"
  by (simp add: deposit_contract_address_def)

text \<open>
  For a spec made from an accepted genesis, Shanghai, Cancun and Prague are activated at
  timestamp 0 whatever the genesis file said, and Osaka where the file schedules it; activity
  at a timestamp is what the activation says.
\<close>

lemma fork_activation_from_genesis:
  assumes "spec_lib_laws lib" and "activation_law tlib" and "from_genesis lib g = Inr s"
  shows "ethereum_fork_activation tlib s f =
    (case f of
       Osaka \<Rightarrow> (case osaka_time (config g) of Some t \<Rightarrow> ForkTimestamp t | None \<Rightarrow> OtherCondition)
     | _ \<Rightarrow> ForkTimestamp 0)"
proof -
  let ?g = "g\<lparr>config := normal_config (config g)\<rparr>"
  have c: "cancun_time (config g) = Some 0"
    using assms(3) by (simp add: from_genesis_Inr genesis_ok_def)
  have "hardforks (spec_inner s) f = hardforks (spec_of_genesis lib ?g) f"
    using assms(3) by (simp add: from_genesis_Inr)
  also have "\<dots> = (case fork_time f (config ?g) of Some t \<Rightarrow> ForkTimestamp t | None \<Rightarrow> OtherCondition)"
    using law_fork_set [OF assms(1)] law_fork_unset [OF assms(1)] by (simp split: option.split)
  finally show ?thesis
    using assms(2)
    by (cases f) (simp_all add: ethereum_fork_activation_def activation_law_def c normal_config_def
        split: option.split)
qed

lemma activation_decides_activity:
  assumes "spec_lib_laws lib" and "activation_law tlib"
  shows "is_active_at_timestamp lib s f ts \<longleftrightarrow>
    (case ethereum_fork_activation tlib s f of ForkTimestamp t \<Rightarrow> t \<le> ts | OtherCondition \<Rightarrow> False)"
  using assms(2)
  by (simp add: is_active_at_timestamp_def law_active [OF assms(1)] ethereum_fork_activation_def
      activation_law_def)

end
