(* ===== verification/Payload.thy ===== *)
theory Payload
  imports Chainspec
begin

section \<open>Payload types and guards (\<open>src/lib.rs\<close>, \<open>src/engine/payload.rs\<close>, \<open>src/transaction/mod.rs\<close>)\<close>

text \<open>
  The PREVRANDAO constant, the payload attributes with their validation, the local attributes
  builder, the built payload with its sidecar guard and its conversions to the envelopes of
  \<open>engine_getPayload\<close>, and the execution data handed to the engine. The locale
  \<open>randao_guard\<close> is the contract of every PREVRANDAO check of the program: the one here and
  those of the RPC layer and of the engine validator are its interpretations.
\<close>

subsection \<open>PREVRANDAO\<close>

definition LOAD_PREVRANDAO :: b256 where
  "LOAD_PREVRANDAO = (replicate 32 0)[31 := 1]"

lemma LOAD_PREVRANDAO_eq: "LOAD_PREVRANDAO = replicate 31 0 @ [1]"
  by (simp add: LOAD_PREVRANDAO_def eval_nat_numeral)

lemma LOAD_PREVRANDAO_not_zero: "LOAD_PREVRANDAO \<noteq> B256_ZERO"
  by (simp add: LOAD_PREVRANDAO_def B256_ZERO_def eval_nat_numeral)

locale randao_guard =
  fixes check :: "b256 \<Rightarrow> 'e + unit"
  assumes accepts_iff: "check r = Inr () \<longleftrightarrow> r = LOAD_PREVRANDAO"
begin

lemma accepts_constant [guard_simps]: "check LOAD_PREVRANDAO = Inr ()"
  by (simp add: accepts_iff)

lemma is_ok_iff_constant: "is_ok (check r) \<longleftrightarrow> r = LOAD_PREVRANDAO"
  using accepts_iff [of r] by (cases "check r") auto

lemma rejects: "r \<noteq> LOAD_PREVRANDAO \<Longrightarrow> \<exists>e. check r = Inl e"
  using accepts_iff [of r] by (cases "check r") auto

lemma rejects_zero: "\<exists>e. check B256_ZERO = Inl e"
  using LOAD_PREVRANDAO_not_zero by (intro rejects) auto

lemma guarded_ok: "rbind (check r) f = Inr a \<longleftrightarrow> r = LOAD_PREVRANDAO \<and> f () = Inr a"
  using accepts_iff [of r] by (cases "check r") auto

lemma guarded_skips: "r \<noteq> LOAD_PREVRANDAO \<Longrightarrow> rbind (check r) f = rbind (check r) g"
  using accepts_iff [of r] by (cases "check r") auto

end

definition RANDAO_MESSAGE :: string where
  "RANDAO_MESSAGE = ''prev_randao must be constant 0x01 for Load''"

definition validate_prev_randao :: "b256 \<Rightarrow> string + unit" where
  "validate_prev_randao prev_randao =
     (if prev_randao = LOAD_PREVRANDAO then Inr () else Inl RANDAO_MESSAGE)"

interpretation payload_randao: randao_guard validate_prev_randao
  by unfold_locales (simp add: validate_prev_randao_def)

subsection \<open>Payload attributes\<close>

datatype load_payload_attributes_error = InvalidPrevRandao string | InvalidTimestamp string

record load_payload_attributes =
  lpa_inner :: eth_payload_attributes

definition attributes_prev_randao :: "load_payload_attributes \<Rightarrow> b256" where
  "attributes_prev_randao self = pa_prev_randao (lpa_inner self)"

definition attributes_timestamp :: "load_payload_attributes \<Rightarrow> u64" where
  "attributes_timestamp self = pa_timestamp (lpa_inner self)"

record load_payload_builder_attributes =
  lba_inner :: eth_builder_attributes

text \<open>
  \<open>EthPayloadBuilderAttributes::try_new\<close> is upstream (and infallible): a parameter. Its law
  is that the attributes it returns carry the RPC timestamp and PREVRANDAO.
\<close>

type_synonym eth_try_new = "b256 \<Rightarrow> eth_payload_attributes \<Rightarrow> u8 \<Rightarrow> eth_builder_attributes"

definition try_new_law :: "eth_try_new \<Rightarrow> bool" where
  "try_new_law eth_new \<longleftrightarrow>
     (\<forall>parent a v. ba_prev_randao (eth_new parent a v) = pa_prev_randao a \<and>
        ba_timestamp (eth_new parent a v) = pa_timestamp a \<and> ba_parent (eth_new parent a v) = parent)"

definition try_new ::
  "eth_try_new \<Rightarrow> b256 \<Rightarrow> load_payload_attributes \<Rightarrow> u8 \<Rightarrow>
   load_payload_attributes_error + load_payload_builder_attributes" where
  "try_new eth_new parent rpc_payload_attributes version =
     (let inner = eth_new parent (lpa_inner rpc_payload_attributes) version in
      rbind (map_err InvalidPrevRandao (validate_prev_randao (ba_prev_randao inner))) (\<lambda>_.
      Inr \<lparr>lba_inner = inner\<rparr>))"

definition validate_payload_attributes ::
  "u64 \<Rightarrow> load_payload_builder_attributes \<Rightarrow> load_payload_attributes_error + unit" where
  "validate_payload_attributes parent_timestamp attrs =
     rbind (map_err InvalidPrevRandao (validate_prev_randao (ba_prev_randao (lba_inner attrs)))) (\<lambda>_.
     if ba_timestamp (lba_inner attrs) \<le> parent_timestamp then
       Inl (InvalidTimestamp (''timestamp '' @ show_word (ba_timestamp (lba_inner attrs)) @
              '' must be greater than parent '' @ show_word parent_timestamp))
     else Inr ())"

text \<open>
  The local attributes builder; \<open>random\<close> is the value \<open>B256::random\<close> returns. The sum is a
  \<open>u64\<close> sum.
\<close>

definition build_local_attributes ::
  "'c spec_lib \<Rightarrow> 'c load_chain_spec \<Rightarrow> b256 \<Rightarrow> header \<Rightarrow> load_payload_attributes" where
  "build_local_attributes lib spec random parent =
     (let timestamp = hd_timestamp parent + 1
      in \<lparr>lpa_inner = \<lparr>pa_timestamp = timestamp,
            pa_prev_randao = LOAD_PREVRANDAO,
            pa_suggested_fee_recipient = ADDRESS_ZERO,
            pa_withdrawals = (if is_active_at_timestamp lib spec Shanghai timestamp
                              then Some [] else None),
            pa_parent_beacon_block_root = (if is_active_at_timestamp lib spec Cancun timestamp
                                           then Some random else None)\<rparr>\<rparr>)"

subsection \<open>Built payloads\<close>

text \<open>\<open>EthBuiltPayload\<close>; \<open>'b\<close> is the sealed block.\<close>

record 'b eth_built_payload =
  bp_id :: bytes
  bp_block :: 'b
  bp_fees :: u256
  bp_sidecars :: blob_sidecars
  bp_requests :: "bytes list option"

record 'b load_built_payload =
  lbp_inner :: "'b eth_built_payload"

datatype conversion_error = UnexpectedEip4844Sidecars | UnexpectedEip7594Sidecars

definition guard_sidecars :: "'b load_built_payload \<Rightarrow> nat \<Rightarrow> conversion_error + unit" where
  "guard_sidecars self max_blobs =
     (case bp_sidecars (lbp_inner self) of
        SidecarsEip7594 _ \<Rightarrow> Inl UnexpectedEip7594Sidecars
      | SidecarsEip4844 sidecars \<Rightarrow>
          if length sidecars > max_blobs then Inl UnexpectedEip4844Sidecars else Inr ()
      | SidecarsEmpty \<Rightarrow> Inr ())"

record blobs_bundle =
  bundle_blobs :: "bytes list"
  bundle_commitments :: "bytes list"
  bundle_proofs :: "bytes list"

record envelope_v3 =
  execution_payload :: payload_v3
  block_value :: u256
  should_override_builder :: bool
  envelope_blobs_bundle :: blobs_bundle

text \<open>Upstream conversions; the V4 and V5 envelopes are the types \<open>'v4\<close> and \<open>'v5\<close>.\<close>

record ('b, 'v4, 'v5) payload_lib =
  block_hash :: "'b \<Rightarrow> b256"
  payload_v3_from_block :: "b256 \<Rightarrow> 'b \<Rightarrow> payload_v3"
  bundle_empty :: blobs_bundle
  bundle_from_sidecars :: "blob_sidecar list \<Rightarrow> blobs_bundle"
  eth_envelope_v4 :: "'b eth_built_payload \<Rightarrow> conversion_error + 'v4"
  eth_envelope_v5 :: "'b eth_built_payload \<Rightarrow> conversion_error + 'v5"
  execution_from_block :: "b256 \<Rightarrow> 'b \<Rightarrow> execution_payload \<times> payload_sidecar"

text \<open>\<open>None\<close> is the panic of the \<open>unreachable!()\<close> arm.\<close>

definition try_into_envelope_v3 ::
  "('b, 'v4, 'v5) payload_lib \<Rightarrow> 'b load_built_payload \<Rightarrow> (conversion_error + envelope_v3) option" where
  "try_into_envelope_v3 plib self =
     (case guard_sidecars self (unat LOAD_MAX_BLOB_COUNT) of
        Inl e \<Rightarrow> Some (Inl e)
      | Inr _ \<Rightarrow>
          let bundle = (case bp_sidecars (lbp_inner self) of
                          SidecarsEmpty \<Rightarrow> Some (bundle_empty plib)
                        | SidecarsEip4844 sidecars \<Rightarrow> Some (bundle_from_sidecars plib sidecars)
                        | SidecarsEip7594 _ \<Rightarrow> None)
          in case bundle of
               None \<Rightarrow> None
             | Some blobs \<Rightarrow> Some (Inr
                 \<lparr>execution_payload = payload_v3_from_block plib
                    (block_hash plib (bp_block (lbp_inner self))) (bp_block (lbp_inner self)),
                  block_value = bp_fees (lbp_inner self),
                  should_override_builder = False,
                  envelope_blobs_bundle = blobs\<rparr>))"

definition try_into_envelope_v4 ::
  "('b, 'v4, 'v5) payload_lib \<Rightarrow> 'b load_built_payload \<Rightarrow> conversion_error + 'v4" where
  "try_into_envelope_v4 plib self =
     rbind (guard_sidecars self (unat LOAD_MAX_BLOB_COUNT)) (\<lambda>_. eth_envelope_v4 plib (lbp_inner self))"

definition try_into_envelope_v5 ::
  "('b, 'v4, 'v5) payload_lib \<Rightarrow> 'b load_built_payload \<Rightarrow> conversion_error + 'v5" where
  "try_into_envelope_v5 plib self =
     rbind (guard_sidecars self (unat LOAD_MAX_BLOB_COUNT)) (\<lambda>_. eth_envelope_v5 plib (lbp_inner self))"

definition empty_load_payload :: "'b \<Rightarrow> bytes \<Rightarrow> 'b load_built_payload" where
  "empty_load_payload default_block payload_id =
     \<lparr>lbp_inner = \<lparr>bp_id = payload_id, bp_block = default_block, bp_fees = 0,
        bp_sidecars = SidecarsEmpty, bp_requests = None\<rparr>\<rparr>"

subsection \<open>Execution data\<close>

record load_execution_data =
  led_inner :: execution_data

definition data_new :: "execution_payload \<Rightarrow> payload_sidecar \<Rightarrow> load_execution_data" where
  "data_new payload sidecar = \<lparr>led_inner = \<lparr>ed_payload = payload, ed_sidecar = sidecar\<rparr>\<rparr>"

definition data_v3 :: "payload_v3 \<Rightarrow> b256 list \<Rightarrow> b256 \<Rightarrow> load_execution_data" where
  "data_v3 payload versioned_hashes parent_beacon_block_root =
     \<lparr>led_inner = \<lparr>ed_payload = PayloadV3 payload,
        ed_sidecar = \<lparr>sc_cancun = Some \<lparr>cf_versioned_hashes = versioned_hashes,
             cf_parent_beacon_block_root = parent_beacon_block_root\<rparr>,
           sc_prague = None\<rparr>\<rparr>\<rparr>"

definition data_v4 ::
  "payload_v3 \<Rightarrow> b256 list \<Rightarrow> b256 \<Rightarrow> requests_or_hash \<Rightarrow> load_execution_data" where
  "data_v4 payload versioned_hashes parent_beacon_block_root execution_requests =
     \<lparr>led_inner = \<lparr>ed_payload = PayloadV3 payload,
        ed_sidecar = \<lparr>sc_cancun = Some \<lparr>cf_versioned_hashes = versioned_hashes,
             cf_parent_beacon_block_root = parent_beacon_block_root\<rparr>,
           sc_prague = Some execution_requests\<rparr>\<rparr>\<rparr>"

definition sidecar_none :: payload_sidecar where
  "sidecar_none = \<lparr>sc_cancun = None, sc_prague = None\<rparr>"

definition data_from_v1 :: "payload_v1 \<Rightarrow> load_execution_data" where
  "data_from_v1 payload = \<lparr>led_inner = \<lparr>ed_payload = PayloadV1 payload, ed_sidecar = sidecar_none\<rparr>\<rparr>"

text \<open>\<open>From<ExecutionPayloadInputV2>\<close>, after upstream's \<open>into_payload\<close>.\<close>

definition data_from_input_v2 :: "execution_payload \<Rightarrow> load_execution_data" where
  "data_from_input_v2 payload = \<lparr>led_inner = \<lparr>ed_payload = payload, ed_sidecar = sidecar_none\<rparr>\<rparr>"

definition into_parts :: "load_execution_data \<Rightarrow> execution_payload \<times> payload_sidecar" where
  "into_parts self = (ed_payload (led_inner self), ed_sidecar (led_inner self))"

definition versioned_hashes :: "payload_sidecar \<Rightarrow> b256 list option" where
  "versioned_hashes sidecar = map_option cf_versioned_hashes (sc_cancun sidecar)"

text \<open>The accessors of the \<open>ExecutionPayload\<close> trait.\<close>

definition data_parent_hash :: "load_execution_data \<Rightarrow> b256" where
  "data_parent_hash self = pl_parent_hash (as_v1 (ed_payload (led_inner self)))"

definition data_block_hash :: "load_execution_data \<Rightarrow> b256" where
  "data_block_hash self = pl_block_hash (as_v1 (ed_payload (led_inner self)))"

definition data_block_number :: "load_execution_data \<Rightarrow> u64" where
  "data_block_number self = pl_block_number (as_v1 (ed_payload (led_inner self)))"

definition data_withdrawals :: "load_execution_data \<Rightarrow> withdrawal list option" where
  "data_withdrawals self = payload_withdrawals (ed_payload (led_inner self))"

definition data_parent_beacon_block_root :: "load_execution_data \<Rightarrow> b256 option" where
  "data_parent_beacon_block_root self =
     map_option cf_parent_beacon_block_root (sc_cancun (ed_sidecar (led_inner self)))"

definition data_timestamp :: "load_execution_data \<Rightarrow> u64" where
  "data_timestamp self = pl_timestamp (as_v1 (ed_payload (led_inner self)))"

definition data_gas_used :: "load_execution_data \<Rightarrow> u64" where
  "data_gas_used self = pl_gas_used (as_v1 (ed_payload (led_inner self)))"

definition data_transaction_count :: "load_execution_data \<Rightarrow> nat" where
  "data_transaction_count self = length (pl_transactions (as_v1 (ed_payload (led_inner self))))"

definition data_prev_randao :: "load_execution_data \<Rightarrow> b256" where
  "data_prev_randao self = pl_prev_randao (as_v1 (ed_payload (led_inner self)))"

text \<open>\<open>LoadEngineTypes::block_to_payload\<close>.\<close>

definition block_to_payload :: "('b, 'v4, 'v5) payload_lib \<Rightarrow> 'b \<Rightarrow> load_execution_data" where
  "block_to_payload plib block =
     (let (payload, sidecar) = execution_from_block plib (block_hash plib block) block
      in data_new payload sidecar)"

lemmas data_defs = data_new_def data_v3_def data_v4_def data_from_v1_def data_from_input_v2_def
  sidecar_none_def into_parts_def versioned_hashes_def data_parent_hash_def data_block_hash_def
  data_block_number_def data_withdrawals_def data_parent_beacon_block_root_def data_timestamp_def
  data_gas_used_def data_transaction_count_def data_prev_randao_def

subsection \<open>Lemmas\<close>

lemma validate_payload_attributes_ok:
  "validate_payload_attributes parent_ts attrs = Inr () \<longleftrightarrow>
   ba_prev_randao (lba_inner attrs) = LOAD_PREVRANDAO \<and> parent_ts < ba_timestamp (lba_inner attrs)"
  by (auto simp: validate_payload_attributes_def rbind_eq_Inr map_err_eq_Inr
      payload_randao.accepts_iff not_le split: if_splits)

lemma try_new_ok:
  "try_new eth_new parent a v = Inr attrs \<longleftrightarrow>
   ba_prev_randao (eth_new parent (lpa_inner a) v) = LOAD_PREVRANDAO \<and>
   attrs = \<lparr>lba_inner = eth_new parent (lpa_inner a) v\<rparr>"
  by (auto simp: try_new_def Let_def rbind_eq_Inr map_err_eq_Inr payload_randao.accepts_iff)

text \<open>The number of blobs behind the sidecars of a payload.\<close>

fun sidecar_list :: "blob_sidecars \<Rightarrow> blob_sidecar list" where
  "sidecar_list SidecarsEmpty = []"
| "sidecar_list (SidecarsEip4844 ss) = ss"
| "sidecar_list (SidecarsEip7594 ss) = ss"

definition total_blobs :: "blob_sidecars \<Rightarrow> nat" where
  "total_blobs s = sum_list (map (length \<circ> bs_blobs) (sidecar_list s))"

lemma guard_sidecars_ok:
  "guard_sidecars p n = Inr () \<longleftrightarrow>
   (\<forall>ss. bp_sidecars (lbp_inner p) \<noteq> SidecarsEip7594 ss) \<and>
   length (sidecar_list (bp_sidecars (lbp_inner p))) \<le> n"
  by (simp add: guard_sidecars_def not_less split: blob_sidecars.splits)

lemma guard_sidecars_eip7594:
  "bp_sidecars (lbp_inner p) = SidecarsEip7594 ss \<Longrightarrow>
   guard_sidecars p n = Inl UnexpectedEip7594Sidecars"
  by (simp add: guard_sidecars_def)

lemma sum_list_le_length: "(\<And>x. x \<in> set xs \<Longrightarrow> f x \<le> (k::nat)) \<Longrightarrow> sum_list (map f xs) \<le> k * length xs"
  by (induction xs) (auto simp: add_le_mono)

lemma length_le_sum_list: "(\<And>x. x \<in> set xs \<Longrightarrow> (1::nat) \<le> f x) \<Longrightarrow> length xs \<le> sum_list (map f xs)"
proof (induction xs)
  case (Cons x xs)
  then have "1 \<le> f x" "length xs \<le> sum_list (map f xs)" by auto
  then show ?case by simp
qed simp

subsection \<open>Properties\<close>

text \<open>Builder attributes can only be constructed with the PREVRANDAO constant, and then they
  are the upstream attributes of the same request; validation against the parent accepts
  exactly the constant together with a timestamp strictly after the parent's, and reports the
  PREVRANDAO error before the timestamp error.\<close>

lemma payload_attributes_guard:
  assumes "try_new_law eth_new"
  shows "(is_ok (try_new eth_new parent a v) \<longleftrightarrow> attributes_prev_randao a = LOAD_PREVRANDAO) \<and>
    (\<forall>attrs. try_new eth_new parent a v = Inr attrs \<longrightarrow>
       (validate_payload_attributes parent_ts attrs =
         (if parent_ts < attributes_timestamp a then Inr ()
          else Inl (InvalidTimestamp (''timestamp '' @ show_word (attributes_timestamp a) @
                 '' must be greater than parent '' @ show_word parent_ts)))))"
proof -
  have r: "ba_prev_randao (eth_new parent (lpa_inner a) v) = pa_prev_randao (lpa_inner a)"
    "ba_timestamp (eth_new parent (lpa_inner a) v) = pa_timestamp (lpa_inner a)"
    using assms by (simp_all add: try_new_law_def)
  then show ?thesis
    by (auto simp: is_ok_iff try_new_ok attributes_prev_randao_def attributes_timestamp_def
        validate_payload_attributes_def payload_randao.accepts_constant not_le)
qed

definition example_try_new :: eth_try_new where
  "example_try_new parent a v =
     \<lparr>ba_payload_id = [v], ba_parent = parent, ba_timestamp = pa_timestamp a,
      ba_suggested_fee_recipient = pa_suggested_fee_recipient a,
      ba_prev_randao = pa_prev_randao a,
      ba_withdrawals = (case pa_withdrawals a of Some w \<Rightarrow> w | None \<Rightarrow> []),
      ba_parent_beacon_block_root = pa_parent_beacon_block_root a\<rparr>"

lemma example_try_new_law: "try_new_law example_try_new"
  by (simp add: try_new_law_def example_try_new_def)

definition example_attributes :: "u64 \<Rightarrow> b256 \<Rightarrow> load_payload_attributes" where
  "example_attributes ts randao = \<lparr>lpa_inner = \<lparr>pa_timestamp = ts, pa_prev_randao = randao,
     pa_suggested_fee_recipient = ADDRESS_ZERO, pa_withdrawals = None,
     pa_parent_beacon_block_root = None\<rparr>\<rparr>"

lemma payload_attributes_guard_witness:
  "is_ok (try_new example_try_new B256_ZERO (example_attributes 2 LOAD_PREVRANDAO) 3) \<and>
   \<not> is_ok (try_new example_try_new B256_ZERO (example_attributes 2 B256_ZERO) 3)"
  using payload_attributes_guard [OF example_try_new_law, of B256_ZERO "example_attributes 2 LOAD_PREVRANDAO" 3]
    payload_attributes_guard [OF example_try_new_law, of B256_ZERO "example_attributes 2 B256_ZERO" 3]
    LOAD_PREVRANDAO_not_zero
  by (auto simp: example_attributes_def attributes_prev_randao_def)

text \<open>The attributes the local builder makes for a parent pass construction and validation
  against that parent, except for a parent with the last possible timestamp, where the sum
  wraps to 0 and validation rejects them.\<close>

lemma local_attributes_valid:
  assumes "try_new_law eth_new"
  shows "\<exists>attrs. try_new eth_new h (build_local_attributes lib spec random parent) v = Inr attrs \<and>
    (is_ok (validate_payload_attributes (hd_timestamp parent) attrs) \<longleftrightarrow> hd_timestamp parent \<noteq> - 1)"
proof -
  let ?a = "build_local_attributes lib spec random parent"
  have a: "pa_prev_randao (lpa_inner ?a) = LOAD_PREVRANDAO"
    "pa_timestamp (lpa_inner ?a) = hd_timestamp parent + 1"
    by (simp_all add: build_local_attributes_def Let_def)
  define attrs where "attrs = \<lparr>lba_inner = eth_new h (lpa_inner ?a) v\<rparr>"
  have "try_new eth_new h ?a v = Inr attrs"
    using assms a by (simp add: try_new_ok try_new_law_def attrs_def)
  moreover have "is_ok (validate_payload_attributes (hd_timestamp parent) attrs) \<longleftrightarrow>
      hd_timestamp parent < hd_timestamp parent + 1"
    using assms a by (simp add: is_ok_iff validate_payload_attributes_ok try_new_law_def attrs_def)
  moreover have "hd_timestamp parent < hd_timestamp parent + 1 \<longleftrightarrow> hd_timestamp parent \<noteq> - 1"
    by (rule less_plus_1_iff)
  ultimately show ?thesis by blast
qed

lemma local_attributes_valid_witness:
  "\<exists>attrs. try_new example_try_new B256_ZERO
      (build_local_attributes example_spec_lib
         \<lparr>spec_inner = spec_of_genesis example_spec_lib load_dev_genesis\<rparr> B256_ZERO
         \<lparr>hd_hash = B256_ZERO, hd_number = 0, hd_timestamp = 41, hd_gas_limit = 0\<rparr>) 3 = Inr attrs \<and>
    is_ok (validate_payload_attributes 41 attrs)"
  using local_attributes_valid [OF example_try_new_law, of B256_ZERO example_spec_lib
      "\<lparr>spec_inner = spec_of_genesis example_spec_lib load_dev_genesis\<rparr>" B256_ZERO
      "\<lparr>hd_hash = B256_ZERO, hd_number = 0, hd_timestamp = 41, hd_gas_limit = 0\<rparr>" 3]
  by simp

text \<open>C35. Conversion to the V3 envelope never reaches its \<open>unreachable!()\<close> arm; it succeeds
  exactly for payloads without EIP-7594 sidecars and with at most 1024 sidecars, and then the
  envelope carries the fees of the payload, never asks to override the builder, and bundles
  exactly the sidecars of the payload.\<close>

theorem envelope_v3_total:
  "\<exists>r. try_into_envelope_v3 plib p = Some r \<and>
     (is_ok r \<longleftrightarrow> (\<forall>ss. bp_sidecars (lbp_inner p) \<noteq> SidecarsEip7594 ss) \<and>
        length (sidecar_list (bp_sidecars (lbp_inner p))) \<le> 1024) \<and>
     (case r of
        Inl e \<Rightarrow> e = (case bp_sidecars (lbp_inner p) of
          SidecarsEip7594 _ \<Rightarrow> UnexpectedEip7594Sidecars | _ \<Rightarrow> UnexpectedEip4844Sidecars)
      | Inr e \<Rightarrow> block_value e = bp_fees (lbp_inner p) \<and> \<not> should_override_builder e \<and>
          envelope_blobs_bundle e = (case bp_sidecars (lbp_inner p) of
            SidecarsEip4844 ss \<Rightarrow> bundle_from_sidecars plib ss | _ \<Rightarrow> bundle_empty plib))"
  by (cases "bp_sidecars (lbp_inner p)")
    (auto simp: try_into_envelope_v3_def guard_sidecars_def Let_def is_ok_iff)

definition example_payload :: "blob_sidecars \<Rightarrow> unit load_built_payload" where
  "example_payload ss = \<lparr>lbp_inner = \<lparr>bp_id = [], bp_block = (), bp_fees = 0, bp_sidecars = ss,
     bp_requests = None\<rparr>\<rparr>"

text \<open>C39. The cap of the sidecar guard counts sidecars (one per blob transaction), not blobs: when
  every sidecar has at most \<open>k\<close> blobs an accepted payload has at most \<open>1024 * k\<close> blobs, and a
  payload with 33 sidecars of 32 blobs, 1056 blobs in all, is accepted.\<close>

theorem sidecar_guard_counts_sidecars:
  "(\<forall>p k. guard_sidecars p 1024 = Inr () \<and>
      (\<forall>s \<in> set (sidecar_list (bp_sidecars (lbp_inner p))). length (bs_blobs s) \<le> k) \<longrightarrow>
      total_blobs (bp_sidecars (lbp_inner (p :: 'b load_built_payload))) \<le> 1024 * k) \<and>
   (\<exists>p :: unit load_built_payload. guard_sidecars p 1024 = Inr () \<and>
      total_blobs (bp_sidecars (lbp_inner p)) = 1056)"
proof (intro conjI allI impI)
  fix p :: "'b load_built_payload" and k
  let ?ss = "sidecar_list (bp_sidecars (lbp_inner p))"
  assume a: "guard_sidecars p 1024 = Inr () \<and> (\<forall>s \<in> set ?ss. length (bs_blobs s) \<le> k)"
  then have "total_blobs (bp_sidecars (lbp_inner p)) \<le> k * length ?ss"
    unfolding total_blobs_def by (intro sum_list_le_length) auto
  also have "\<dots> \<le> k * 1024" using a by (simp add: guard_sidecars_ok)
  finally show "total_blobs (bp_sidecars (lbp_inner p)) \<le> 1024 * k" by (simp add: mult.commute)
next
  let ?s = "\<lparr>bs_blobs = replicate 32 [], bs_commitments = [], bs_proofs = []\<rparr>"
  show "\<exists>p :: unit load_built_payload. guard_sidecars p 1024 = Inr () \<and>
      total_blobs (bp_sidecars (lbp_inner p)) = 1056"
    by (rule exI [of _ "example_payload (SidecarsEip4844 (replicate 33 ?s))"])
      (simp add: guard_sidecars_ok example_payload_def total_blobs_def sum_list_replicate)
qed

theorem sidecar_guard_counts_sidecars_witness:
  "total_blobs (bp_sidecars (lbp_inner (example_payload
     (SidecarsEip4844 [\<lparr>bs_blobs = [[]], bs_commitments = [], bs_proofs = []\<rparr>])))) \<le> 1024 * 1"
  by (rule sidecar_guard_counts_sidecars [THEN conjunct1, rule_format])
    (simp add: guard_sidecars_ok example_payload_def)

end
