(* ===== verification/Evm.thy ===== *)
theory Evm
  imports Payload
begin

section \<open>EVM configuration (\<open>src/evm/mod.rs\<close>)\<close>

text \<open>
  \<open>LoadEvmConfig\<close> wraps the upstream configuration and forces the Load blob parameters into
  every environment it hands out: for an existing header, for the next block and for a
  payload. The upstream constructors are the fields of \<open>upstream_evm\<close>, the methods of
  \<open>BlobParams\<close> the fields of \<open>blob_lib\<close>. The locale \<open>load_env_source\<close> is the contract
  the three constructors share; it is interpreted on each of them.
\<close>

record blob_lib =
  max_blob_gas_per_block :: "blob_params \<Rightarrow> u64"
  calc_blob_fee :: "blob_params \<Rightarrow> u64 \<Rightarrow> u128"

record ('c, 'x) upstream_evm =
  up_chain_spec :: "'c load_chain_spec"
  up_evm_env :: "header \<Rightarrow> 'x + evm_env"
  up_next_evm_env :: "header \<Rightarrow> next_block_attributes \<Rightarrow> 'x + evm_env"
  up_evm_env_for_payload :: "execution_data \<Rightarrow> 'x + evm_env"

record ('c, 'x) load_evm_config =
  evm_inner :: "('c, 'x) upstream_evm"

definition load_blob_params_at ::
  "'c spec_lib \<Rightarrow> ('c, 'x) load_evm_config \<Rightarrow> u64 \<Rightarrow> blob_params" where
  "load_blob_params_at lib self timestamp =
     (let params = (case blob_params_at_timestamp lib (up_chain_spec (evm_inner self)) timestamp of
                      Some p \<Rightarrow> p | None \<Rightarrow> cancun_params lib)
      in params\<lparr>target_blob_count := LOAD_TARGET_BLOB_COUNT,
                max_blob_count := LOAD_MAX_BLOB_COUNT,
                max_blobs_per_tx := LOAD_MAX_BLOBS_PER_TX,
                update_fraction := LOAD_BLOB_UPDATE_FRACTION\<rparr>)"

definition enforce_load_blob_env ::
  "'c spec_lib \<Rightarrow> blob_lib \<Rightarrow> ('c, 'x) load_evm_config \<Rightarrow> u64 \<Rightarrow> evm_env \<Rightarrow> evm_env" where
  "enforce_load_blob_env lib blib self timestamp env0 =
     (let params = load_blob_params_at lib self timestamp;
          env = env0\<lparr>env_cfg := (env_cfg env0)
            \<lparr>cfg_max_blobs_per_tx := Some (max_blobs_per_tx params),
             cfg_blob_base_fee_update_fraction := Some (ucast LOAD_BLOB_UPDATE_FRACTION)\<rparr>\<rparr>
      in case be_blob_excess_gas_and_price (env_block env) of
           Some blob_env0 \<Rightarrow>
             let max_blob_gas = max_blob_gas_per_block blib params;
                 blob_env1 = (if excess_blob_gas blob_env0 > max_blob_gas
                              then blob_env0\<lparr>excess_blob_gas := max_blob_gas\<rparr> else blob_env0);
                 blob_env2 = blob_env1\<lparr>blob_gasprice :=
                   calc_blob_fee blib params (excess_blob_gas blob_env1)\<rparr>
             in env\<lparr>env_block := (env_block env)\<lparr>be_blob_excess_gas_and_price := Some blob_env2\<rparr>\<rparr>
         | None \<Rightarrow>
             if is_active_at_timestamp lib (up_chain_spec (evm_inner self)) Cancun timestamp
             then env\<lparr>env_block := (env_block env)\<lparr>be_blob_excess_gas_and_price :=
                    Some \<lparr>excess_blob_gas = 0, blob_gasprice = calc_blob_fee blib params 0\<rparr>\<rparr>\<rparr>
             else env)"

text \<open>The three environment constructors.\<close>

definition evm_env_for_header ::
  "'c spec_lib \<Rightarrow> blob_lib \<Rightarrow> ('c, 'x) load_evm_config \<Rightarrow> header \<Rightarrow> 'x + evm_env" where
  "evm_env_for_header lib blib self h =
     rbind (up_evm_env (evm_inner self) h) (\<lambda>env.
       Inr (enforce_load_blob_env lib blib self (hd_timestamp h) env))"

definition next_evm_env ::
  "'c spec_lib \<Rightarrow> blob_lib \<Rightarrow> ('c, 'x) load_evm_config \<Rightarrow> header \<Rightarrow> next_block_attributes \<Rightarrow>
   'x + evm_env" where
  "next_evm_env lib blib self parent attributes =
     rbind (up_next_evm_env (evm_inner self) parent attributes) (\<lambda>env.
       Inr (enforce_load_blob_env lib blib self (nb_timestamp attributes) env))"

text \<open>The upstream configuration accepts Load data by unwrapping it (\<open>engine/payload.rs\<close>).\<close>

definition eth_evm_env_for_payload ::
  "('c, 'x) upstream_evm \<Rightarrow> load_execution_data \<Rightarrow> 'x + evm_env" where
  "eth_evm_env_for_payload self payload = up_evm_env_for_payload self (led_inner payload)"

definition evm_env_for_payload ::
  "'c spec_lib \<Rightarrow> blob_lib \<Rightarrow> ('c, 'x) load_evm_config \<Rightarrow> load_execution_data \<Rightarrow> 'x + evm_env" where
  "evm_env_for_payload lib blib self payload =
     rbind (eth_evm_env_for_payload (evm_inner self) payload) (\<lambda>env.
       Inr (enforce_load_blob_env lib blib self (data_timestamp payload) env))"

subsection \<open>What an environment of the Load EVM satisfies\<close>

definition load_env :: "blob_lib \<Rightarrow> blob_params \<Rightarrow> evm_env \<Rightarrow> bool" where
  "load_env blib params env \<longleftrightarrow>
     cfg_max_blobs_per_tx (env_cfg env) = Some 32 \<and>
     cfg_blob_base_fee_update_fraction (env_cfg env) = Some 5007716 \<and>
     (\<forall>b. be_blob_excess_gas_and_price (env_block env) = Some b \<longrightarrow>
        excess_blob_gas b \<le> max_blob_gas_per_block blib params \<and>
        blob_gasprice b = calc_blob_fee blib params (excess_blob_gas b))"

locale load_env_source =
  fixes blib :: blob_lib
    and make :: "'i \<Rightarrow> 'x + evm_env"
    and params :: "'i \<Rightarrow> blob_params"
  assumes make_load: "make i = Inr env \<Longrightarrow> load_env blib (params i) env"
begin

lemma blobs_per_tx: "make i = Inr env \<Longrightarrow> cfg_max_blobs_per_tx (env_cfg env) = Some 32"
  using make_load by (auto simp: load_env_def)

lemma limits_agree:
  "make i = Inr env \<Longrightarrow> make j = Inr env' \<Longrightarrow>
   cfg_max_blobs_per_tx (env_cfg env) = cfg_max_blobs_per_tx (env_cfg env') \<and>
   cfg_blob_base_fee_update_fraction (env_cfg env) = cfg_blob_base_fee_update_fraction (env_cfg env')"
  using make_load [of i env] make_load [of j env'] by (simp add: load_env_def)

lemma excess_bounded:
  "make i = Inr env \<Longrightarrow> be_blob_excess_gas_and_price (env_block env) = Some b \<Longrightarrow>
   excess_blob_gas b \<le> max_blob_gas_per_block blib (params i)"
  using make_load by (auto simp: load_env_def)

lemma price_recomputed:
  "make i = Inr env \<Longrightarrow> be_blob_excess_gas_and_price (env_block env) = Some b \<Longrightarrow>
   blob_gasprice b = calc_blob_fee blib (params i) (excess_blob_gas b)"
  using make_load by (auto simp: load_env_def)

end

lemma load_blob_params_at_limits [simp]:
  "target_blob_count (load_blob_params_at lib self ts) = LOAD_TARGET_BLOB_COUNT"
  "max_blob_count (load_blob_params_at lib self ts) = LOAD_MAX_BLOB_COUNT"
  "max_blobs_per_tx (load_blob_params_at lib self ts) = LOAD_MAX_BLOBS_PER_TX"
  "update_fraction (load_blob_params_at lib self ts) = LOAD_BLOB_UPDATE_FRACTION"
  by (simp_all add: load_blob_params_at_def Let_def)

lemma enforce_load_env:
  "load_env blib (load_blob_params_at lib self ts) (enforce_load_blob_env lib blib self ts env)"
  by (auto simp: load_env_def enforce_load_blob_env_def Let_def load_constants not_less
      split: option.splits)

interpretation header_env: load_env_source blib "evm_env_for_header lib blib self"
    "\<lambda>h. load_blob_params_at lib self (hd_timestamp h)"
  by unfold_locales (auto simp: evm_env_for_header_def rbind_eq_Inr enforce_load_env)

interpretation next_env: load_env_source blib "\<lambda>(p, a). next_evm_env lib blib self p a"
    "\<lambda>(p, a). load_blob_params_at lib self (nb_timestamp a)"
  by unfold_locales (auto simp: next_evm_env_def rbind_eq_Inr enforce_load_env)

interpretation payload_env: load_env_source blib "evm_env_for_payload lib blib self"
    "\<lambda>d. load_blob_params_at lib self (data_timestamp d)"
  by unfold_locales (auto simp: evm_env_for_payload_def rbind_eq_Inr enforce_load_env)

lemma enforce_frame:
  "be_gas_limit (env_block (enforce_load_blob_env lib blib self ts env)) = be_gas_limit (env_block env)"
  "be_basefee (env_block (enforce_load_blob_env lib blib self ts env)) = be_basefee (env_block env)"
  by (simp_all add: enforce_load_blob_env_def Let_def split: option.splits)

subsection \<open>Properties\<close>

text \<open>C21. Enforcement always yields a Load environment: 32 blobs per transaction, the Pectra
  update fraction, excess blob gas clamped to the block maximum of the Load parameters with
  the blob gas price recomputed from the clamped value; an excess within the maximum is kept,
  an absent one is created (as 0) exactly when Cancun is active, and gas limit and base fee are
  untouched.\<close>

theorem enforce_load_blob_env_spec:
  "load_env blib (load_blob_params_at lib self ts) (enforce_load_blob_env lib blib self ts env) \<and>
   map_option excess_blob_gas
       (be_blob_excess_gas_and_price (env_block (enforce_load_blob_env lib blib self ts env))) =
     (case be_blob_excess_gas_and_price (env_block env) of
        Some b \<Rightarrow> Some (min (excess_blob_gas b)
                     (max_blob_gas_per_block blib (load_blob_params_at lib self ts)))
      | None \<Rightarrow> if is_active_at_timestamp lib (up_chain_spec (evm_inner self)) Cancun ts
                then Some 0 else None) \<and>
   be_gas_limit (env_block (enforce_load_blob_env lib blib self ts env)) = be_gas_limit (env_block env) \<and>
   be_basefee (env_block (enforce_load_blob_env lib blib self ts env)) = be_basefee (env_block env)"
  using enforce_load_env [of blib lib self ts env]
  by (simp add: enforce_frame)
    (auto simp: enforce_load_blob_env_def Let_def min_def split: option.splits)

text \<open>Enforcement is idempotent: enforcing a second time at the same timestamp changes
  nothing, so it does not matter how many layers apply it.\<close>

lemma enforce_load_blob_env_idem:
  "enforce_load_blob_env lib blib self ts (enforce_load_blob_env lib blib self ts env) =
   enforce_load_blob_env lib blib self ts env"
  by (simp add: enforce_load_blob_env_def Let_def split: option.splits)

text \<open>The environments of block validation, block building and payload execution agree: any
  environment made for a header, for a next block and for a payload carries the same blob
  limits, whatever the upstream configuration returned.\<close>

lemma environments_agree:
  assumes "evm_env_for_header lib blib self h = Inr e1"
    and "next_evm_env lib blib self p a = Inr e2"
    and "evm_env_for_payload lib blib self d = Inr e3"
  shows "cfg_max_blobs_per_tx (env_cfg e1) = Some 32 \<and>
    cfg_max_blobs_per_tx (env_cfg e2) = Some 32 \<and> cfg_max_blobs_per_tx (env_cfg e3) = Some 32 \<and>
    (\<forall>b. be_blob_excess_gas_and_price (env_block e2) = Some b \<longrightarrow>
       excess_blob_gas b \<le> max_blob_gas_per_block blib (load_blob_params_at lib self (nb_timestamp a)))"
  using header_env.blobs_per_tx [OF assms(1)] payload_env.blobs_per_tx [OF assms(3)]
    next_env.blobs_per_tx [of lib blib self "(p, a)" e2]
    next_env.excess_bounded [of lib blib self "(p, a)" e2] assms(2)
  by simp


text \<open>An instance: an upstream configuration that always returns one environment.\<close>

definition example_blob_lib :: blob_lib where
  "example_blob_lib = \<lparr>max_blob_gas_per_block = (\<lambda>p. max_blob_count p * 131072),
     calc_blob_fee = (\<lambda>p e. 1 + ucast e)\<rparr>"

definition example_env :: evm_env where
  "example_env = \<lparr>env_cfg = \<lparr>cfg_max_blobs_per_tx = Some 6, cfg_blob_base_fee_update_fraction = None\<rparr>,
     env_block = \<lparr>be_gas_limit = 2000000000, be_basefee = 7,
       be_blob_excess_gas_and_price = Some \<lparr>excess_blob_gas = 1000000000, blob_gasprice = 1\<rparr>\<rparr>\<rparr>"

definition example_evm :: "(u64, unit) load_evm_config" where
  "example_evm = \<lparr>evm_inner = \<lparr>up_chain_spec = \<lparr>spec_inner = spec_of_genesis example_spec_lib load_dev_genesis\<rparr>,
     up_evm_env = (\<lambda>h. Inr example_env), up_next_evm_env = (\<lambda>p a. Inr example_env),
     up_evm_env_for_payload = (\<lambda>d. Inr example_env)\<rparr>\<rparr>"

lemma environments_agree_witness:
  "\<forall>h a d. \<exists>e1 e2 e3. evm_env_for_header example_spec_lib example_blob_lib example_evm h = Inr e1 \<and>
     next_evm_env example_spec_lib example_blob_lib example_evm h a = Inr e2 \<and>
     evm_env_for_payload example_spec_lib example_blob_lib example_evm d = Inr e3 \<and>
     cfg_max_blobs_per_tx (env_cfg e1) = Some 32 \<and> cfg_max_blobs_per_tx (env_cfg e2) = Some 32 \<and>
     cfg_max_blobs_per_tx (env_cfg e3) = Some 32"
proof (intro allI)
  fix h a d
  obtain e1 e2 e3 where e:
    "evm_env_for_header example_spec_lib example_blob_lib example_evm h = Inr e1"
    "next_evm_env example_spec_lib example_blob_lib example_evm h a = Inr e2"
    "evm_env_for_payload example_spec_lib example_blob_lib example_evm d = Inr e3"
    by (simp add: evm_env_for_header_def next_evm_env_def evm_env_for_payload_def eth_evm_env_for_payload_def
        example_evm_def)
  with environments_agree [OF e]
  show "\<exists>e1 e2 e3. evm_env_for_header example_spec_lib example_blob_lib example_evm h = Inr e1 \<and>
     next_evm_env example_spec_lib example_blob_lib example_evm h a = Inr e2 \<and>
     evm_env_for_payload example_spec_lib example_blob_lib example_evm d = Inr e3 \<and>
     cfg_max_blobs_per_tx (env_cfg e1) = Some 32 \<and> cfg_max_blobs_per_tx (env_cfg e2) = Some 32 \<and>
     cfg_max_blobs_per_tx (env_cfg e3) = Some 32"
    by blast
qed

end
