(* ===== verification/Builder.thy ===== *)
theory Builder
  imports Evm
begin

section \<open>Payload builder (\<open>src/engine/builder.rs\<close>)\<close>

text \<open>
  The Load payload builder: the gas limit of the service builder, the blob cap, the transaction
  selection loop with its guards in the order of the code, and the construction of the payload
  from what the loop selected. The loop runs over an iterator the pool provides and may run as
  long as the iterator yields: it is a partial function, and that it returns is proved from a
  measure of the iterator. The block builder (\<open>'b\<close>), the state provider (\<open>'p\<close>), the read cache
  (\<open>'r\<close>), the sealed block (\<open>'blk\<close>) and the iterator (\<open>'it\<close>) are upstream types; what the
  code calls on them are the fields of \<open>build_lib\<close>. What other threads may change while the
  loop runs (the cancellation flag, the blob store) is read by iteration number.
\<close>

subsection \<open>Data\<close>

text \<open>A signed transaction and its pool wrapper, by the accessors the loop calls.\<close>

record eth_tx =
  tx_hash :: b256
  tx_rlp_length :: usize
  tx_blob_hashes :: "b256 list option"

record pool_tx =
  pt_gas_limit :: u64
  pt_consensus :: eth_tx

text \<open>\<open>transaction::blob_count\<close>.\<close>

definition blob_count :: "eth_tx \<Rightarrow> usize" where
  "blob_count tx = (case map_option vlen (tx_blob_hashes tx) of Some n \<Rightarrow> n | None \<Rightarrow> 0)"

datatype eip4844_pool_error =
    TooManyEip4844Blobs u64 u64
  | MissingEip4844BlobSidecar
  | UnexpectedEip4844SidecarAfterOsaka
  | UnexpectedEip7594SidecarBeforeOsaka

datatype invalid_pool_error =
    ExceedsGasLimit u64 u64
  | OversizedData usize usize
  | Eip4844Invalid eip4844_pool_error
  | TxTypeNotSupported

datatype 'x execution_error = InvalidTx bool | OtherExecution 'x

datatype 'x payload_builder_error =
    AttributesError load_payload_attributes_error
  | EnvironmentError 'x
  | ProviderError 'x
  | PreExecutionError 'x
  | BlobStoreError 'x
  | EvmError "'x execution_error"
  | FinishError 'x
  | BlockTooLarge usize usize
  | MissingPayload

text \<open>\<open>InvalidTx True\<close> is an invalid transaction whose nonce is too low.\<close>

record eth_builder_config =
  desired_gas_limit :: u64
  await_payload_on_missing :: bool

record ('it, 'b, 'blk, 'x, 'r, 'p) build_lib =
  state_by_block_hash :: "b256 \<Rightarrow> 'x + 'p"
  builder_for_next_block :: "'r \<Rightarrow> 'p \<Rightarrow> header \<Rightarrow> next_block_attributes \<Rightarrow> 'x + 'b"
  builder_block_env :: "'b \<Rightarrow> block_env"
  apply_pre_execution_changes :: "'b \<Rightarrow> 'x + 'b"
  execute_transaction :: "eth_tx \<Rightarrow> 'b \<Rightarrow> ('x execution_error + u64) \<times> 'b"
  finish_block :: "'b \<Rightarrow> 'p \<Rightarrow> 'x + 'blk \<times> bytes list \<times> 'r"
  builder_reads :: "'b \<Rightarrow> 'r"
  sealed_rlp_length :: "'blk \<Rightarrow> usize"
  withdrawals_length :: "withdrawal list \<Rightarrow> usize"
  MAX_RLP_BLOCK_SIZE :: usize
  effective_tip_per_gas :: "eth_tx \<Rightarrow> u64 \<Rightarrow> u128 option"
  best_transactions :: "u64 \<Rightarrow> u64 option \<Rightarrow> 'it"
  best_next :: "'it \<Rightarrow> (pool_tx \<times> 'it) option"
  mark_invalid :: "pool_tx \<Rightarrow> invalid_pool_error \<Rightarrow> 'it \<Rightarrow> 'it"
  skip_blobs :: "'it \<Rightarrow> 'it"
  get_blob :: "nat \<Rightarrow> b256 \<Rightarrow> 'x + sidecar_variant option"
  push_sidecar_variant :: "blob_sidecars \<Rightarrow> sidecar_variant \<Rightarrow> blob_sidecars"
  is_better_payload :: "'blk load_built_payload option \<Rightarrow> u256 \<Rightarrow> bool"
  config_gas_limit :: "eth_builder_config \<Rightarrow> u64 \<Rightarrow> u64"
  default_builder_config :: eth_builder_config
  default_reads :: 'r

record ('r, 'blk) build_arguments =
  arg_cached_reads :: 'r
  arg_parent_header :: header
  arg_attributes :: load_payload_builder_attributes
  arg_is_cancelled :: "nat \<Rightarrow> bool"
  arg_best_payload :: "'blk load_built_payload option"

text \<open>\<open>BuildOutcome\<close> and its \<open>into_payload\<close>.\<close>

datatype ('blk, 'r) build_outcome =
    Better "'blk load_built_payload" 'r
  | Freeze "'blk load_built_payload"
  | Aborted u256 'r
  | Cancelled

fun into_payload :: "('blk, 'r) build_outcome \<Rightarrow> 'blk load_built_payload option" where
  "into_payload (Better p r) = Some p"
| "into_payload (Freeze p) = Some p"
| "into_payload (Aborted f r) = None"
| "into_payload Cancelled = None"

datatype missing_payload_behaviour = AwaitInProgress | RaceEmptyPayload

subsection \<open>Configuration\<close>

definition build_payload_builder ::
  "('it, 'b, 'blk, 'x, 'r, 'p) build_lib \<Rightarrow> u64 option \<Rightarrow> eth_builder_config" where
  "build_payload_builder lib conf_gas_limit =
     (let gas_limit = (case conf_gas_limit of Some g \<Rightarrow> g | None \<Rightarrow> LOAD_EXECUTION_GAS_LIMIT)
      in (default_builder_config lib)\<lparr>desired_gas_limit := gas_limit, await_payload_on_missing := True\<rparr>)"

text \<open>\<open>LoadPayloadBuilder\<close> and the service builder that makes it: it cannot fail.\<close>

record ('cl, 'pl, 'ev) load_payload_builder =
  pb_client :: 'cl
  pb_pool :: 'pl
  pb_evm_config :: 'ev
  pb_builder_config :: eth_builder_config

definition payload_builder_new ::
  "'cl \<Rightarrow> 'pl \<Rightarrow> 'ev \<Rightarrow> eth_builder_config \<Rightarrow> ('cl, 'pl, 'ev) load_payload_builder" where
  "payload_builder_new client pool evm builder_conf =
     \<lparr>pb_client = client, pb_pool = pool, pb_evm_config = evm, pb_builder_config = builder_conf\<rparr>"

definition service_payload_builder ::
  "('it, 'b, 'blk, 'x, 'r, 'p) build_lib \<Rightarrow> u64 option \<Rightarrow> 'cl \<Rightarrow> 'pl \<Rightarrow> 'ev \<Rightarrow>
   'e + ('cl, 'pl, 'ev) load_payload_builder" where
  "service_payload_builder lib conf_gas_limit provider pool evm =
     Inr (payload_builder_new provider pool evm (build_payload_builder lib conf_gas_limit))"

definition compute_load_blob_cap :: "'c spec_lib \<Rightarrow> 'c load_chain_spec \<Rightarrow> u64 \<Rightarrow> u64" where
  "compute_load_blob_cap slib chain_spec timestamp =
     min (case map_option max_blob_count (blob_params_at_timestamp slib chain_spec timestamp) of
            Some n \<Rightarrow> n | None \<Rightarrow> LOAD_MAX_BLOB_COUNT)
         LOAD_MAX_BLOB_COUNT"

subsection \<open>The selection loop\<close>

text \<open>
  The mutable variables of the loop, with two that only the proofs read: the iteration number
  and the transactions included so far with their gas, their tip and their sidecar.
\<close>

record included_tx =
  inc_tx :: pool_tx
  inc_gas_used :: u64
  inc_tip :: u128
  inc_sidecar :: "sidecar_variant option"

record ('it, 'b) build_state =
  best_txs :: 'it
  block_builder :: 'b
  cumulative_gas_used :: u64
  total_fees :: u256
  blob_sidecars :: blob_sidecars
  block_blob_count :: u64
  block_transactions_rlp_length :: usize
  iteration :: nat
  included :: "included_tx list"

text \<open>The values that are fixed before the loop starts.\<close>

record build_ctx =
  block_gas_limit :: u64
  base_fee :: u64
  ctx_max_blob_count :: u64
  is_osaka :: bool
  ctx_withdrawals :: "withdrawal list"
  is_cancelled :: "nat \<Rightarrow> bool"

datatype 'x loop_stop = LoopCancelled | LoopError "'x payload_builder_error" | LoopPanic

datatype ('it, 'b, 'x) loop_exit = Finished "('it, 'b) build_state" | Stopped "'x loop_stop"

datatype ('it, 'b, 'x) flow = Next "('it, 'b) build_state" | Exit "'x loop_stop"

text \<open>\<open>mark_invalid\<close> followed by \<open>continue\<close>.\<close>

definition reject_tx ::
  "('it, 'b, 'blk, 'x, 'r, 'p) build_lib \<Rightarrow> pool_tx \<Rightarrow> invalid_pool_error \<Rightarrow> ('it, 'b) build_state \<Rightarrow>
   ('it, 'b, 'x) flow" where
  "reject_tx lib tx err st = Next (st\<lparr>best_txs := mark_invalid lib tx err (best_txs st)\<rparr>)"

text \<open>The block labelled \<open>'sidecar\<close>; the outer result is the \<open>?\<close> on the blob store.\<close>

definition select_sidecar ::
  "('it, 'b, 'blk, 'x, 'r, 'p) build_lib \<Rightarrow> bool \<Rightarrow> nat \<Rightarrow> eth_tx \<Rightarrow>
   'x + (eip4844_pool_error + sidecar_variant)" where
  "select_sidecar lib osaka_active i tx =
     rbind (get_blob lib i (tx_hash tx)) (\<lambda>found_sidecar.
       Inr (case found_sidecar of
              None \<Rightarrow> Inl MissingEip4844BlobSidecar
            | Some sidecar \<Rightarrow>
                if osaka_active then
                  if is_eip7594 sidecar then Inr sidecar
                  else Inl UnexpectedEip4844SidecarAfterOsaka
                else if is_eip4844 sidecar then Inr sidecar
                else Inl UnexpectedEip7594SidecarBeforeOsaka))"

text \<open>The bookkeeping after a successful execution.\<close>

definition include_transaction ::
  "('it, 'b, 'blk, 'x, 'r, 'p) build_lib \<Rightarrow> build_ctx \<Rightarrow> pool_tx \<Rightarrow> sidecar_variant option \<Rightarrow> u64 \<Rightarrow>
   ('it, 'b) build_state \<Rightarrow> ('it, 'b, 'x) flow" where
  "include_transaction lib ctx ptx blob_tx_sidecar gas_used st =
     (let tx = pt_consensus ptx;
          st1 = (case tx_blob_hashes tx of
                   Some bh \<Rightarrow>
                     let count = block_blob_count st + vlen bh;
                         stb = st\<lparr>block_blob_count := count\<rparr>
                     in if count = ctx_max_blob_count ctx
                        then stb\<lparr>best_txs := skip_blobs lib (best_txs stb)\<rparr> else stb
                 | None \<Rightarrow> st);
          st2 = st1\<lparr>block_transactions_rlp_length :=
                  block_transactions_rlp_length st1 + tx_rlp_length tx\<rparr>
      in case effective_tip_per_gas lib tx (base_fee ctx) of
           None \<Rightarrow> Exit LoopPanic
         | Some miner_fee \<Rightarrow>
             let st3 = st2\<lparr>total_fees := total_fees st2 + ucast miner_fee * ucast gas_used,
                           cumulative_gas_used := cumulative_gas_used st2 + gas_used,
                           included := included st2 @
                             [\<lparr>inc_tx = ptx, inc_gas_used = gas_used, inc_tip = miner_fee,
                               inc_sidecar = blob_tx_sidecar\<rparr>]\<rparr>
             in case blob_tx_sidecar of
                  Some sidecar \<Rightarrow> Next (st3\<lparr>blob_sidecars :=
                      push_sidecar_variant lib (blob_sidecars st3) sidecar\<rparr>)
                | None \<Rightarrow> Next st3)"

definition execute_and_include ::
  "('it, 'b, 'blk, 'x, 'r, 'p) build_lib \<Rightarrow> build_ctx \<Rightarrow> pool_tx \<Rightarrow> sidecar_variant option \<Rightarrow>
   ('it, 'b) build_state \<Rightarrow> ('it, 'b, 'x) flow" where
  "execute_and_include lib ctx ptx blob_tx_sidecar st0 =
     (case execute_transaction lib (pt_consensus ptx) (block_builder st0) of
        (r, b) \<Rightarrow>
          let st = st0\<lparr>block_builder := b\<rparr>
          in case r of
               Inr gas_used \<Rightarrow> include_transaction lib ctx ptx blob_tx_sidecar gas_used st
             | Inl (InvalidTx nonce_too_low) \<Rightarrow>
                 if nonce_too_low then Next st else reject_tx lib ptx TxTypeNotSupported st
             | Inl (OtherExecution e) \<Rightarrow> Exit (LoopError (EvmError (OtherExecution e))))"

text \<open>The body of the loop for the transaction \<open>ptx\<close> the iterator yielded.\<close>

definition build_iter ::
  "('it, 'b, 'blk, 'x, 'r, 'p) build_lib \<Rightarrow> build_ctx \<Rightarrow> pool_tx \<Rightarrow> ('it, 'b) build_state \<Rightarrow>
   ('it, 'b, 'x) flow" where
  "build_iter lib ctx ptx st =
     (if cumulative_gas_used st + pt_gas_limit ptx > block_gas_limit ctx
      then reject_tx lib ptx (ExceedsGasLimit (pt_gas_limit ptx) (block_gas_limit ctx)) st
      else if is_cancelled ctx (iteration st) then Exit LoopCancelled
      else
        let tx = pt_consensus ptx;
            estimated_block_size_with_tx = block_transactions_rlp_length st + tx_rlp_length tx +
              withdrawals_length lib (ctx_withdrawals ctx) + 1024
        in if is_osaka ctx \<and> estimated_block_size_with_tx > MAX_RLP_BLOCK_SIZE lib
           then reject_tx lib ptx (OversizedData estimated_block_size_with_tx (MAX_RLP_BLOCK_SIZE lib)) st
           else
             case tx_blob_hashes tx of
               None \<Rightarrow> execute_and_include lib ctx ptx None st
             | Some bh \<Rightarrow>
                 let tx_blob_count = vlen bh
                 in if block_blob_count st + tx_blob_count > ctx_max_blob_count ctx
                    then reject_tx lib ptx (Eip4844Invalid (TooManyEip4844Blobs
                           (block_blob_count st + tx_blob_count) (ctx_max_blob_count ctx))) st
                    else
                      case select_sidecar lib (is_osaka ctx) (iteration st) tx of
                        Inl e \<Rightarrow> Exit (LoopError (BlobStoreError e))
                      | Inr (Inl err) \<Rightarrow> reject_tx lib ptx (Eip4844Invalid err) st
                      | Inr (Inr sidecar) \<Rightarrow> execute_and_include lib ctx ptx (Some sidecar) st)"

definition advance :: "'it \<Rightarrow> ('it, 'b) build_state \<Rightarrow> ('it, 'b) build_state" where
  "advance it st = st\<lparr>best_txs := it, iteration := iteration st + 1\<rparr>"

text \<open>\<open>while let Some(pool_tx) = best_txs.next()\<close>; \<open>None\<close> is a loop that never returns.\<close>

partial_function (option) build_loop ::
  "('it, 'b, 'blk, 'x, 'r, 'p) build_lib \<Rightarrow> build_ctx \<Rightarrow> ('it, 'b) build_state \<Rightarrow>
   ('it, 'b, 'x) loop_exit option" where
  "build_loop lib ctx st =
     (case best_next lib (best_txs st) of
        None \<Rightarrow> Some (Finished st)
      | Some r \<Rightarrow>
          (case build_iter lib ctx (fst r) (advance (snd r) st) of
             Exit e \<Rightarrow> Some (Stopped e)
           | Next st' \<Rightarrow> build_loop lib ctx st'))"

declare build_loop.simps [code]

subsection \<open>Building a payload\<close>

datatype 'a run = Panicked | Returned 'a

text \<open>What follows the loop: the better-payload check, sealing, and the payload.\<close>

definition finish_payload ::
  "'c spec_lib \<Rightarrow> ('it, 'b, 'blk, 'x, 'r, 'p) build_lib \<Rightarrow> 'c load_chain_spec \<Rightarrow>
   load_payload_builder_attributes \<Rightarrow> 'blk load_built_payload option \<Rightarrow> bool \<Rightarrow> 'p \<Rightarrow>
   ('it, 'b) build_state \<Rightarrow> 'x payload_builder_error + ('blk, 'r) build_outcome" where
  "finish_payload slib lib chain_spec attributes best_payload osaka_active state_provider st =
     (if \<not> is_better_payload lib best_payload (total_fees st)
      then Inr (Aborted (total_fees st) (builder_reads lib (block_builder st)))
      else
        rbind (map_err FinishError (finish_block lib (block_builder st) state_provider))
          (\<lambda>(sealed_block, execution_requests, reads).
            let requests = (if is_active_at_timestamp slib chain_spec Prague
                                 (ba_timestamp (lba_inner attributes))
                            then Some execution_requests else None)
            in if osaka_active \<and> sealed_rlp_length lib sealed_block > MAX_RLP_BLOCK_SIZE lib
               then Inl (BlockTooLarge (sealed_rlp_length lib sealed_block) (MAX_RLP_BLOCK_SIZE lib))
               else Inr (Better \<lparr>lbp_inner =
                 \<lparr>bp_id = ba_payload_id (lba_inner attributes), bp_block = sealed_block,
                  bp_fees = total_fees st, bp_sidecars = blob_sidecars st,
                  bp_requests = requests\<rparr>\<rparr> reads)))"

definition next_env_attributes ::
  "('it, 'b, 'blk, 'x, 'r, 'p) build_lib \<Rightarrow> eth_builder_config \<Rightarrow> 'c load_chain_spec \<Rightarrow> header \<Rightarrow>
   eth_builder_attributes \<Rightarrow> next_block_attributes" where
  "next_env_attributes lib builder_config chain_spec parent_header attributes =
     \<lparr>nb_timestamp = ba_timestamp attributes,
      nb_suggested_fee_recipient = ba_suggested_fee_recipient attributes,
      nb_prev_randao = ba_prev_randao attributes,
      nb_gas_limit = config_gas_limit lib builder_config (hd_gas_limit parent_header),
      nb_parent_beacon_block_root = ba_parent_beacon_block_root attributes,
      nb_withdrawals = Some (ba_withdrawals attributes),
      nb_extra_data = gen_extra_data (spec_genesis (spec_inner chain_spec))\<rparr>"

text \<open>The variables at the start of the loop.\<close>

definition initial_state :: "'it \<Rightarrow> 'b \<Rightarrow> ('it, 'b) build_state" where
  "initial_state it b =
     \<lparr>best_txs = it, block_builder = b, cumulative_gas_used = 0, total_fees = 0,
      blob_sidecars = SidecarsEmpty, block_blob_count = 0, block_transactions_rlp_length = 0,
      iteration = 0, included = []\<rparr>"

definition prepare_build ::
  "('it, 'b, 'blk, 'x, 'r, 'p) build_lib \<Rightarrow> 'c load_chain_spec \<Rightarrow> eth_builder_config \<Rightarrow>
   ('r, 'blk) build_arguments \<Rightarrow> 'x payload_builder_error + 'p \<times> 'b" where
  "prepare_build lib chain_spec builder_config args =
     (let parent_header = arg_parent_header args;
          attributes = arg_attributes args
      in rbind (map_err AttributesError
                 (validate_payload_attributes (hd_timestamp parent_header) attributes)) (\<lambda>_.
         rbind (map_err ProviderError (state_by_block_hash lib (hd_hash parent_header))) (\<lambda>state_provider.
         rbind (map_err EnvironmentError
                 (builder_for_next_block lib (arg_cached_reads args) state_provider parent_header
                   (next_env_attributes lib builder_config chain_spec parent_header
                     (lba_inner attributes)))) (\<lambda>b.
         Inr (state_provider, b)))))"

definition loop_context ::
  "'c spec_lib \<Rightarrow> ('it, 'b, 'blk, 'x, 'r, 'p) build_lib \<Rightarrow> 'c load_chain_spec \<Rightarrow>
   ('r, 'blk) build_arguments \<Rightarrow> 'b \<Rightarrow> build_ctx" where
  "loop_context slib lib chain_spec args b =
     (let timestamp = ba_timestamp (lba_inner (arg_attributes args))
      in \<lparr>block_gas_limit = be_gas_limit (builder_block_env lib b),
          base_fee = be_basefee (builder_block_env lib b),
          ctx_max_blob_count = compute_load_blob_cap slib chain_spec timestamp,
          is_osaka = is_active_at_timestamp slib chain_spec Osaka timestamp,
          ctx_withdrawals = ba_withdrawals (lba_inner (arg_attributes args)),
          is_cancelled = arg_is_cancelled args\<rparr>)"

definition default_load_payload ::
  "'c spec_lib \<Rightarrow> ('it, 'b, 'blk, 'x, 'r, 'p) build_lib \<Rightarrow> 'c load_chain_spec \<Rightarrow> eth_builder_config \<Rightarrow>
   ('r, 'blk) build_arguments \<Rightarrow>
   ('x payload_builder_error + ('blk, 'r) build_outcome) run option" where
  "default_load_payload slib lib chain_spec builder_config args =
     (case prepare_build lib chain_spec builder_config args of
        Inl e \<Rightarrow> Some (Returned (Inl e))
      | Inr (state_provider, b) \<Rightarrow>
          let ctx = loop_context slib lib chain_spec args b;
              it = best_transactions lib (base_fee ctx)
                     (map_option (\<lambda>e. ucast (blob_gasprice e))
                       (be_blob_excess_gas_and_price (builder_block_env lib b)))
          in case apply_pre_execution_changes lib b of
               Inl e \<Rightarrow> Some (Returned (Inl (PreExecutionError e)))
             | Inr b' \<Rightarrow>
                 (case build_loop lib ctx (initial_state it b') of
                    None \<Rightarrow> None
                  | Some (Stopped LoopPanic) \<Rightarrow> Some Panicked
                  | Some (Stopped LoopCancelled) \<Rightarrow> Some (Returned (Inr Cancelled))
                  | Some (Stopped (LoopError e)) \<Rightarrow> Some (Returned (Inl e))
                  | Some (Finished st) \<Rightarrow> Some (Returned
                      (finish_payload slib lib chain_spec (arg_attributes args) (arg_best_payload args)
                        (is_osaka ctx) state_provider st))))"

definition try_build where
  "try_build slib lib chain_spec builder_config args =
     default_load_payload slib lib chain_spec builder_config args"

definition on_missing_payload :: "eth_builder_config \<Rightarrow> missing_payload_behaviour" where
  "on_missing_payload builder_config =
     (if await_payload_on_missing builder_config then AwaitInProgress else RaceEmptyPayload)"

definition build_empty_payload ::
  "'c spec_lib \<Rightarrow> ('it, 'b, 'blk, 'x, 'r, 'p) build_lib \<Rightarrow> 'c load_chain_spec \<Rightarrow> eth_builder_config \<Rightarrow>
   header \<Rightarrow> load_payload_builder_attributes \<Rightarrow>
   ('x payload_builder_error + 'blk load_built_payload) run option" where
  "build_empty_payload slib lib chain_spec builder_config parent_header attributes =
     (let args = \<lparr>arg_cached_reads = default_reads lib, arg_parent_header = parent_header,
                  arg_attributes = attributes, arg_is_cancelled = (\<lambda>_. False),
                  arg_best_payload = None\<rparr>
      in case default_load_payload slib lib chain_spec builder_config args of
           None \<Rightarrow> None
         | Some Panicked \<Rightarrow> Some Panicked
         | Some (Returned r) \<Rightarrow> Some (Returned
             (rbind r (\<lambda>outcome. case into_payload outcome of
                                   Some payload \<Rightarrow> Inr payload
                                 | None \<Rightarrow> Inl MissingPayload))))"

subsection \<open>One iteration\<close>

text \<open>
  An iteration that goes on either includes nothing (and changes at most iterator and block
  builder) or includes one transaction that passed every guard. The invariants below only need
  this.
\<close>

definition skipped :: "('it, 'b) build_state \<Rightarrow> ('it, 'b) build_state \<Rightarrow> bool" where
  "skipped st st' \<longleftrightarrow>
     block_blob_count st' = block_blob_count st \<and>
     block_transactions_rlp_length st' = block_transactions_rlp_length st \<and>
     total_fees st' = total_fees st \<and> cumulative_gas_used st' = cumulative_gas_used st \<and>
     included st' = included st \<and> blob_sidecars st' = blob_sidecars st \<and>
     iteration st' = iteration st"

definition included_one ::
  "('it, 'b, 'blk, 'x, 'r, 'p) build_lib \<Rightarrow> build_ctx \<Rightarrow> included_tx \<Rightarrow> ('it, 'b) build_state \<Rightarrow>
   ('it, 'b) build_state \<Rightarrow> bool" where
  "included_one lib ctx inc st st' \<longleftrightarrow>
     (let tx = pt_consensus (inc_tx inc);
          count = (case tx_blob_hashes tx of
                     Some bh \<Rightarrow> block_blob_count st + vlen bh | None \<Rightarrow> block_blob_count st)
      in block_blob_count st' = count \<and>
         block_transactions_rlp_length st' = block_transactions_rlp_length st + tx_rlp_length tx \<and>
         total_fees st' = total_fees st + ucast (inc_tip inc) * ucast (inc_gas_used inc) \<and>
         cumulative_gas_used st' = cumulative_gas_used st + inc_gas_used inc \<and>
         included st' = included st @ [inc] \<and>
         blob_sidecars st' = (case inc_sidecar inc of
           Some s \<Rightarrow> push_sidecar_variant lib (blob_sidecars st) s | None \<Rightarrow> blob_sidecars st) \<and>
         iteration st' = iteration st \<and>
         cumulative_gas_used st + pt_gas_limit (inc_tx inc) \<le> block_gas_limit ctx \<and>
         (is_osaka ctx \<longrightarrow> block_transactions_rlp_length st + tx_rlp_length tx +
            withdrawals_length lib (ctx_withdrawals ctx) + 1024 \<le> MAX_RLP_BLOCK_SIZE lib) \<and>
         (tx_blob_hashes tx \<noteq> None \<longrightarrow> count \<le> ctx_max_blob_count ctx) \<and>
         (case inc_sidecar inc of
            None \<Rightarrow> tx_blob_hashes tx = None
          | Some s \<Rightarrow> tx_blob_hashes tx \<noteq> None \<and>
              get_blob lib (iteration st) (tx_hash tx) = Inr (Some s) \<and>
              is_eip7594 s = is_osaka ctx) \<and>
         effective_tip_per_gas lib tx (base_fee ctx) = Some (inc_tip inc) \<and>
         (\<exists>b b'. execute_transaction lib tx b = (Inr (inc_gas_used inc), b')))"

lemma is_eip4844_iff: "is_eip4844 s \<longleftrightarrow> \<not> is_eip7594 s"
  by (cases s) simp_all

lemma select_sidecar_ok:
  "select_sidecar lib osk i tx = Inr (Inr s) \<longleftrightarrow>
   get_blob lib i (tx_hash tx) = Inr (Some s) \<and> is_eip7594 s = osk"
  by (auto simp: select_sidecar_def rbind_eq_Inr is_eip4844_iff split: option.splits if_splits)

lemma reject_tx_skipped: "reject_tx lib ptx err st = Next st' \<Longrightarrow> skipped st st'"
  by (auto simp: reject_tx_def skipped_def)

lemma include_transaction_Next:
  assumes "include_transaction lib ctx ptx sc gas st = Next st'"
  obtains tip where "effective_tip_per_gas lib (pt_consensus ptx) (base_fee ctx) = Some tip"
    and "block_blob_count st' = (case tx_blob_hashes (pt_consensus ptx) of
         Some bh \<Rightarrow> block_blob_count st + vlen bh | None \<Rightarrow> block_blob_count st)"
    and "block_transactions_rlp_length st' =
         block_transactions_rlp_length st + tx_rlp_length (pt_consensus ptx)"
    and "total_fees st' = total_fees st + ucast tip * ucast gas"
    and "cumulative_gas_used st' = cumulative_gas_used st + gas"
    and "included st' = included st @ [\<lparr>inc_tx = ptx, inc_gas_used = gas, inc_tip = tip, inc_sidecar = sc\<rparr>]"
    and "blob_sidecars st' = (case sc of
         Some s \<Rightarrow> push_sidecar_variant lib (blob_sidecars st) s | None \<Rightarrow> blob_sidecars st)"
    and "iteration st' = iteration st"
proof -
  obtain tip where tip: "effective_tip_per_gas lib (pt_consensus ptx) (base_fee ctx) = Some tip"
    using assms by (auto simp: include_transaction_def Let_def split: option.splits)
  show thesis
    by (rule that [OF tip]; insert assms tip; cases "tx_blob_hashes (pt_consensus ptx)"; cases sc)
      (auto simp: include_transaction_def Let_def split: if_splits)
qed

lemma execute_and_include_Next:
  assumes "execute_and_include lib ctx ptx sc st = Next st'"
  obtains "skipped st st'"
  | b gas b' where "execute_transaction lib (pt_consensus ptx) b = (Inr gas, b')"
      "b = block_builder st" "include_transaction lib ctx ptx sc gas (st\<lparr>block_builder := b'\<rparr>) = Next st'"
proof -
  obtain r b' where e: "execute_transaction lib (pt_consensus ptx) (block_builder st) = (r, b')"
    by (cases "execute_transaction lib (pt_consensus ptx) (block_builder st)")
  show thesis
  proof (cases r)
    case (Inr gas)
    with assms e show thesis by (intro that(2)) (auto simp: execute_and_include_def)
  next
    case (Inl err)
    with assms e have "skipped st st'"
      by (cases err)
        (auto simp: execute_and_include_def reject_tx_def skipped_def Let_def split: if_splits)
    then show thesis by (rule that(1))
  qed
qed

lemma execute_and_include_included:
  assumes exec: "execute_and_include lib ctx ptx sc st = Next st'"
    and gas: "cumulative_gas_used st + pt_gas_limit ptx \<le> block_gas_limit ctx"
    and osaka_size: "is_osaka ctx \<longrightarrow> block_transactions_rlp_length st + tx_rlp_length (pt_consensus ptx) +
       withdrawals_length lib (ctx_withdrawals ctx) + 1024 \<le> MAX_RLP_BLOCK_SIZE lib"
    and cap: "\<And>bh. tx_blob_hashes (pt_consensus ptx) = Some bh \<Longrightarrow>
       block_blob_count st + vlen bh \<le> ctx_max_blob_count ctx"
    and sc: "case sc of None \<Rightarrow> tx_blob_hashes (pt_consensus ptx) = None
       | Some s \<Rightarrow> tx_blob_hashes (pt_consensus ptx) \<noteq> None \<and>
           get_blob lib (iteration st) (tx_hash (pt_consensus ptx)) = Inr (Some s) \<and>
           is_eip7594 s = is_osaka ctx"
  shows "skipped st st' \<or> (\<exists>inc. inc_tx inc = ptx \<and> included_one lib ctx inc st st')"
  using exec
proof (cases rule: execute_and_include_Next)
  case (2 b gas b')
  from 2(3) show ?thesis
  proof (cases rule: include_transaction_Next)
    case (1 tip)
    have "included_one lib ctx
        \<lparr>inc_tx = ptx, inc_gas_used = gas, inc_tip = tip, inc_sidecar = sc\<rparr> st st'"
      using 1 gas osaka_size cap sc 2(1) unfolding included_one_def Let_def
      by (intro conjI) (auto split: option.splits)
    then show ?thesis by (intro disjI2 exI conjI) simp_all
  qed
qed simp

text \<open>The case analysis every invariant of the loop uses.\<close>

lemma build_iter_Next:
  assumes "build_iter lib ctx ptx st = Next st'"
  shows "skipped st st' \<or> (\<exists>inc. inc_tx inc = ptx \<and> included_one lib ctx inc st st')"
proof (cases "cumulative_gas_used st + pt_gas_limit ptx > block_gas_limit ctx \<or>
    is_cancelled ctx (iteration st) \<or>
    is_osaka ctx \<and> block_transactions_rlp_length st + tx_rlp_length (pt_consensus ptx) +
      withdrawals_length lib (ctx_withdrawals ctx) + 1024 > MAX_RLP_BLOCK_SIZE lib")
  case True
  with assms have "skipped st st'"
    by (auto simp: build_iter_def Let_def dest: reject_tx_skipped split: if_splits)
  then show ?thesis by blast
next
  case False
  then have gas: "cumulative_gas_used st + pt_gas_limit ptx \<le> block_gas_limit ctx"
    and not_cancelled: "\<not> is_cancelled ctx (iteration st)"
    and size: "is_osaka ctx \<longrightarrow> block_transactions_rlp_length st + tx_rlp_length (pt_consensus ptx) +
      withdrawals_length lib (ctx_withdrawals ctx) + 1024 \<le> MAX_RLP_BLOCK_SIZE lib"
    by (auto simp: not_less)
  note go_on = assms [unfolded build_iter_def Let_def]
  show ?thesis
  proof (cases "tx_blob_hashes (pt_consensus ptx)")
    case None
    with go_on False have "execute_and_include lib ctx ptx None st = Next st'"
      by (simp split: if_splits)
    then show ?thesis using gas size None
      by (intro execute_and_include_included [of lib ctx ptx None]) simp_all
  next
    case (Some bh)
    show ?thesis
    proof (cases "skipped st st'")
      case not_skipped: False
      with go_on False Some obtain s where
        s: "select_sidecar lib (is_osaka ctx) (iteration st) (pt_consensus ptx) = Inr (Inr s)"
          "block_blob_count st + vlen bh \<le> ctx_max_blob_count ctx"
          "execute_and_include lib ctx ptx (Some s) st = Next st'"
        by (auto simp: not_less dest: reject_tx_skipped split: if_splits sum.splits)
      then show ?thesis using gas size Some
        by (intro execute_and_include_included [of lib ctx ptx "Some s"])
          (simp_all add: select_sidecar_ok)
    qed simp
  qed
qed

subsection \<open>Invariants of the loop\<close>

text \<open>
  The contract of an invariant of one iteration, and what it gives for the loop: it holds when the
  loop ends, and before the iteration that stopped it.
\<close>

locale iteration_invariant =
  fixes lib :: "('it, 'b, 'blk, 'x, 'r, 'p) build_lib"
    and ctx :: build_ctx
    and I :: "('it, 'b) build_state \<Rightarrow> bool"
  assumes on_iter: "I st \<Longrightarrow> best_next lib it = Some (ptx, it') \<Longrightarrow>
      build_iter lib ctx ptx (advance it' st) = Next st' \<Longrightarrow> I st'"
begin

lemma outcome:
  assumes "build_loop lib ctx st = Some r" and "I st"
  shows "case r of
      Finished st' \<Rightarrow> I st'
    | Stopped e \<Rightarrow> \<exists>st it ptx it'. I st \<and> best_next lib it = Some (ptx, it') \<and>
        build_iter lib ctx ptx (advance it' st) = Exit e"
proof -
  let ?R = "\<lambda>r. case r of
      Finished st' \<Rightarrow> I st'
    | Stopped e \<Rightarrow> \<exists>st it ptx it'. I st \<and> best_next lib it = Some (ptx, it') \<and>
        build_iter lib ctx ptx (advance it' st) = Exit e"
  have "lib' = lib \<longrightarrow> ctx' = ctx \<longrightarrow> I st \<longrightarrow> ?R r"
    if run: "build_loop lib' ctx' st = Some r" for lib' ctx' st r
  proof (rule build_loop.raw_induct [OF _ run], intro impI)
    fix loop lib' ctx' st r
    assume IH: "\<And>lib' ctx' st y. loop lib' ctx' st = Some y \<Longrightarrow>
        lib' = lib \<longrightarrow> ctx' = ctx \<longrightarrow> I st \<longrightarrow> ?R y"
      and step: "(case best_next lib' (best_txs st) of None \<Rightarrow> Some (Finished st)
        | Some r \<Rightarrow> (case build_iter lib' ctx' (fst r) (advance (snd r) st) of
            Next st' \<Rightarrow> loop lib' ctx' st' | Exit e \<Rightarrow> Some (Stopped e))) = Some r"
      and eqs: "lib' = lib" "ctx' = ctx" and I: "I st"
    show "?R r"
    proof (cases "best_next lib (best_txs st)")
      case None
      with step eqs I show ?thesis by auto
    next
      case (Some q)
      obtain ptx it' where q: "q = (ptx, it')" by (cases q)
      show ?thesis
      proof (cases "build_iter lib ctx ptx (advance it' st)")
        case (Next st1)
        with step eqs Some q have "loop lib ctx st1 = Some r" by simp
        moreover have "I st1" by (rule on_iter [OF I]) (use Some q Next in simp_all)
        ultimately show ?thesis using IH [of lib ctx st1 r] by simp
      next
        case (Exit e)
        with step eqs Some q have "r = Stopped e" by simp
        with I Some q Exit show ?thesis by auto
      qed
    qed
  qed
  with assms show ?thesis by blast
qed

lemma finished: "build_loop lib ctx st = Some r \<Longrightarrow> r = Finished st' \<Longrightarrow> I st \<Longrightarrow> I st'"
  using outcome [of st r] by simp

lemma stopped:
  assumes "build_loop lib ctx st = Some (Stopped e)" and "I st"
  obtains st' it ptx it' where "I st'" and "best_next lib it = Some (ptx, it')"
    and "build_iter lib ctx ptx (advance it' st') = Exit e"
  using outcome [OF assms] by auto

end

text \<open>
  An invariant of the loop variables: it does not look at the iterator or the iteration number,
  skipped iterations keep it, and so do included transactions the iterator yielded.
\<close>

locale loop_invariant =
  fixes lib :: "('it, 'b, 'blk, 'x, 'r, 'p) build_lib"
    and ctx :: build_ctx
    and I :: "('it, 'b) build_state \<Rightarrow> bool"
  assumes on_advance: "I st \<Longrightarrow> I (advance it st)"
    and on_skip: "I st \<Longrightarrow> skipped st st' \<Longrightarrow> I st'"
    and on_include: "I st \<Longrightarrow> best_next lib it = Some (inc_tx inc, it') \<Longrightarrow>
      included_one lib ctx inc st st' \<Longrightarrow> I st'"
begin

lemma one_iteration:
  assumes "I st" and "best_next lib it = Some (ptx, it')"
    and "build_iter lib ctx ptx (advance it' st) = Next st'"
  shows "I st'"
  using build_iter_Next [OF assms(3)] on_advance [OF assms(1), of it'] assms(2)
  by (auto intro: on_skip on_include)

end

sublocale loop_invariant \<subseteq> iteration_invariant
  by unfold_locales (rule one_iteration)

lemma advance_sel [simp]:
  "block_blob_count (advance it st) = block_blob_count st"
  "block_transactions_rlp_length (advance it st) = block_transactions_rlp_length st"
  "total_fees (advance it st) = total_fees st"
  "cumulative_gas_used (advance it st) = cumulative_gas_used st"
  "included (advance it st) = included st"
  "blob_sidecars (advance it st) = blob_sidecars st"
  "best_txs (advance it st) = it"
  "block_builder (advance it st) = block_builder st"
  by (simp_all add: advance_def)

text \<open>
  What is documented of the upstream parts: the lengths of \<open>Vec\<close>s and encodings are far below
  the \<open>usize\<close> range, pool transactions do not ask for a gas limit whose sum with a block gas
  limit leaves \<open>u64\<close>, execution uses at most the gas limit, and sidecars are pushed to the list
  of their kind.
\<close>

definition small_length :: "usize \<Rightarrow> bool" where
  "small_length n \<longleftrightarrow> unat n < 2 ^ 62"

definition iterator_law :: "('it, 'b, 'blk, 'x, 'r, 'p) build_lib \<Rightarrow> u64 \<Rightarrow> bool" where
  "iterator_law lib gas_limit \<longleftrightarrow>
     (\<forall>it ptx it'. best_next lib it = Some (ptx, it') \<longrightarrow>
        unat gas_limit + unat (pt_gas_limit ptx) < 2 ^ 64 \<and>
        small_length (tx_rlp_length (pt_consensus ptx)) \<and>
        (case tx_blob_hashes (pt_consensus ptx) of Some bh \<Rightarrow> length bh < 2 ^ 62 | None \<Rightarrow> True) \<and>
        (\<forall>b g b'. execute_transaction lib (pt_consensus ptx) b = (Inr g, b') \<longrightarrow> g \<le> pt_gas_limit ptx))"

definition push_law :: "('it, 'b, 'blk, 'x, 'r, 'p) build_lib \<Rightarrow> bool" where
  "push_law lib \<longleftrightarrow>
     (\<forall>s. push_sidecar_variant lib SidecarsEmpty (VarEip4844 s) = SidecarsEip4844 [s]) \<and>
     (\<forall>s. push_sidecar_variant lib SidecarsEmpty (VarEip7594 s) = SidecarsEip7594 [s]) \<and>
     (\<forall>ss s. push_sidecar_variant lib (SidecarsEip4844 ss) (VarEip4844 s) = SidecarsEip4844 (ss @ [s])) \<and>
     (\<forall>ss s. push_sidecar_variant lib (SidecarsEip7594 ss) (VarEip7594 s) = SidecarsEip7594 (ss @ [s]))"

lemma iterator_lawD:
  assumes "iterator_law lib gas_limit" and "best_next lib it = Some (ptx, it')"
  shows "unat gas_limit + unat (pt_gas_limit ptx) < 2 ^ 64"
    and "small_length (tx_rlp_length (pt_consensus ptx))"
    and "tx_blob_hashes (pt_consensus ptx) = Some bh \<Longrightarrow> length bh < 2 ^ 62"
    and "execute_transaction lib (pt_consensus ptx) b = (Inr g, b') \<Longrightarrow> g \<le> pt_gas_limit ptx"
  using assms unfolding iterator_law_def by (fastforce split: option.splits)+

subsubsection \<open>Blobs\<close>

definition blobs_of :: "included_tx \<Rightarrow> nat" where
  "blobs_of inc = (case tx_blob_hashes (pt_consensus (inc_tx inc)) of Some bh \<Rightarrow> length bh | None \<Rightarrow> 0)"

definition blob_inv :: "build_ctx \<Rightarrow> ('it, 'b) build_state \<Rightarrow> bool" where
  "blob_inv ctx st \<longleftrightarrow>
     unat (block_blob_count st) = sum_list (map blobs_of (included st)) \<and>
     block_blob_count st \<le> ctx_max_blob_count ctx"

definition blob_laws :: "('it, 'b, 'blk, 'x, 'r, 'p) build_lib \<Rightarrow> build_ctx \<Rightarrow> bool" where
  "blob_laws lib ctx \<longleftrightarrow>
     iterator_law lib (block_gas_limit ctx) \<and> unat (ctx_max_blob_count ctx) \<le> 1024"

lemma blob_inv_include:
  assumes "blob_laws lib ctx" and "blob_inv ctx st"
    and "best_next lib it = Some (inc_tx inc, it')" and "included_one lib ctx inc st st'"
  shows "blob_inv ctx st'"
proof (cases "tx_blob_hashes (pt_consensus (inc_tx inc))")
  case None
  with assms show ?thesis
    by (auto simp: blob_inv_def included_one_def Let_def blobs_of_def split: option.splits)
next
  case (Some bh)
  with assms(1,3) have bh: "length bh < 2 ^ 62"
    using iterator_lawD(3) by (fastforce simp: blob_laws_def)
  have "unat (block_blob_count st) \<le> 1024"
    using assms(1,2) by (auto simp: blob_laws_def blob_inv_def word_le_nat_alt)
  with bh have "unat (block_blob_count st + vlen bh) = unat (block_blob_count st) + length bh"
    by (subst unat_add_no_overflow) (simp_all add: unat_vlen)
  with Some assms(2,4) show ?thesis
    by (auto simp: blob_inv_def included_one_def Let_def blobs_of_def)
qed

interpretation blobs: loop_invariant lib ctx "\<lambda>st. blob_laws lib ctx \<longrightarrow> blob_inv ctx st"
proof unfold_locales
  fix st st' :: "('a, 'b) build_state" and it it' inc
  show "blob_laws lib ctx \<longrightarrow> blob_inv ctx st \<Longrightarrow> blob_laws lib ctx \<longrightarrow> blob_inv ctx (advance it st)"
    by (simp add: blob_inv_def)
  show "blob_laws lib ctx \<longrightarrow> blob_inv ctx st \<Longrightarrow> skipped st st' \<Longrightarrow>
      blob_laws lib ctx \<longrightarrow> blob_inv ctx st'"
    by (auto simp: blob_inv_def skipped_def)
  show "blob_laws lib ctx \<longrightarrow> blob_inv ctx st \<Longrightarrow> best_next lib it = Some (inc_tx inc, it') \<Longrightarrow>
      included_one lib ctx inc st st' \<Longrightarrow> blob_laws lib ctx \<longrightarrow> blob_inv ctx st'"
    by (intro impI, rule blob_inv_include) simp_all
qed

subsubsection \<open>Gas and fees\<close>

definition gas_sum :: "included_tx list \<Rightarrow> nat" where
  "gas_sum incs = sum_list (map (\<lambda>i. unat (inc_gas_used i)) incs)"

definition fee_sum :: "included_tx list \<Rightarrow> nat" where
  "fee_sum incs = sum_list (map (\<lambda>i. unat (inc_tip i) * unat (inc_gas_used i)) incs)"

definition accounts_inv :: "build_ctx \<Rightarrow> ('it, 'b) build_state \<Rightarrow> bool" where
  "accounts_inv ctx st \<longleftrightarrow>
     unat (cumulative_gas_used st) = gas_sum (included st) \<and>
     cumulative_gas_used st \<le> block_gas_limit ctx \<and>
     unat (total_fees st) = fee_sum (included st)"

lemma fee_sum_bound: "fee_sum incs \<le> 2 ^ 128 * gas_sum incs"
proof (induction incs)
  case (Cons i incs)
  have "unat (inc_tip i) * unat (inc_gas_used i) \<le> 2 ^ 128 * unat (inc_gas_used i)"
    using unat_less_2_128 [of "inc_tip i"] by (intro mult_right_mono) simp_all
  from add_mono [OF this Cons.IH] show ?case
    by (simp only: fee_sum_def gas_sum_def list.map sum_list.Cons distrib_left)
qed (simp add: fee_sum_def gas_sum_def)

lemma unat_ucast_wider:
  fixes w :: "'a::len word"
  assumes "LENGTH('a) \<le> LENGTH('c::len)"
  shows "unat (ucast w :: 'c word) = unat w"
proof -
  have "unat w < 2 ^ LENGTH('c)"
    by (rule less_le_trans [OF unsigned_less]) (use assms in simp)
  then show ?thesis by (simp add: unsigned_ucast_eq take_bit_nat_eq_self)
qed

lemma unat_fee_product:
  fixes tip :: u128 and gas :: u64
  shows "unat (ucast tip * ucast gas :: u256) = unat tip * unat gas"
proof -
  have "unat tip * unat gas < 2 ^ 128 * 2 ^ 64"
    using unat_less_2_128 [of tip] unat_less_2_64 [of gas] by (intro mult_strict_mono) simp_all
  then have "unat tip * unat gas < 2 ^ LENGTH(256)"
    by (rule less_le_trans) simp
  then show ?thesis
    by (subst unat_mult_lem [THEN iffD1]) (simp_all add: unat_ucast_wider)
qed

lemma unat_add_fee:
  fixes fees :: u256
  assumes "unat fees + unat tip * unat gas \<le> 2 ^ 192"
  shows "unat (fees + ucast (tip :: u128) * ucast (gas :: u64)) = unat fees + unat tip * unat gas"
proof -
  have "unat fees + unat (ucast tip * ucast gas :: u256) < 2 ^ LENGTH(256)"
    unfolding unat_fee_product by (rule le_less_trans [OF assms]) simp
  then show ?thesis by (simp only: unat_add_no_overflow unat_fee_product)
qed

lemma accounts_inv_include:
  assumes law: "iterator_law lib (block_gas_limit ctx)" and inv: "accounts_inv ctx st"
    and nxt: "best_next lib it = Some (inc_tx inc, it')" and inc: "included_one lib ctx inc st st'"
  shows "accounts_inv ctx st'"
proof -
  let ?used = "cumulative_gas_used st" and ?gas = "inc_gas_used inc" and ?lim = "pt_gas_limit (inc_tx inc)"
  obtain b b' where "execute_transaction lib (pt_consensus (inc_tx inc)) b = (Inr ?gas, b')"
    using inc by (auto simp: included_one_def Let_def)
  with law nxt have g: "?gas \<le> ?lim" and room: "unat (block_gas_limit ctx) + unat ?lim < 2 ^ 64"
    by (auto dest: iterator_lawD)
  have used: "unat ?used \<le> unat (block_gas_limit ctx)"
    using inv by (simp add: accounts_inv_def word_le_nat_alt)
  have lim: "unat (?used + ?lim) = unat ?used + unat ?lim"
    using room used by (intro unat_add_no_overflow) simp
  moreover have "unat (?used + ?lim) \<le> unat (block_gas_limit ctx)"
    using inc by (simp add: included_one_def Let_def word_le_nat_alt)
  ultimately have fits: "unat ?used + unat ?gas \<le> unat (block_gas_limit ctx)"
    using g by (simp add: word_le_nat_alt)
  then have sum: "unat (?used + ?gas) = unat ?used + unat ?gas"
    using unat_less_2_64 [of "block_gas_limit ctx"] by (intro unat_add_no_overflow) simp
  have "fee_sum (included st @ [inc]) \<le> 2 ^ 128 * gas_sum (included st @ [inc])"
    by (rule fee_sum_bound)
  also have "gas_sum (included st @ [inc]) \<le> 2 ^ 64"
    using fits inv unat_less_2_64 [of "block_gas_limit ctx"] by (simp add: accounts_inv_def gas_sum_def)
  finally have "fee_sum (included st @ [inc]) \<le> 2 ^ 192" by simp
  then have "unat (total_fees st) + unat (inc_tip inc) * unat ?gas \<le> 2 ^ 192"
    using inv by (simp add: accounts_inv_def fee_sum_def)
  from unat_add_fee [OF this] sum fits inc inv show ?thesis
    by (simp add: accounts_inv_def included_one_def Let_def word_le_nat_alt gas_sum_def fee_sum_def)
qed

interpretation accounts: loop_invariant lib ctx
  "\<lambda>st. iterator_law lib (block_gas_limit ctx) \<longrightarrow> accounts_inv ctx st"
proof unfold_locales
  fix st st' :: "('a, 'b) build_state" and it it' inc
  let ?law = "iterator_law lib (block_gas_limit ctx)"
  show "?law \<longrightarrow> accounts_inv ctx st \<Longrightarrow> ?law \<longrightarrow> accounts_inv ctx (advance it st)"
    by (simp add: accounts_inv_def)
  show "?law \<longrightarrow> accounts_inv ctx st \<Longrightarrow> skipped st st' \<Longrightarrow> ?law \<longrightarrow> accounts_inv ctx st'"
    by (auto simp: accounts_inv_def skipped_def)
  show "?law \<longrightarrow> accounts_inv ctx st \<Longrightarrow> best_next lib it = Some (inc_tx inc, it') \<Longrightarrow>
      included_one lib ctx inc st st' \<Longrightarrow> ?law \<longrightarrow> accounts_inv ctx st'"
    by (intro impI, rule accounts_inv_include) simp_all
qed

subsubsection \<open>Sidecars\<close>

definition variant_sidecar :: "sidecar_variant \<Rightarrow> blob_sidecar" where
  "variant_sidecar v = (case v of VarEip4844 s \<Rightarrow> s | VarEip7594 s \<Rightarrow> s)"

definition included_sidecars :: "included_tx list \<Rightarrow> blob_sidecar list" where
  "included_sidecars incs = map variant_sidecar (List.map_filter inc_sidecar incs)"

definition sidecar_inv :: "build_ctx \<Rightarrow> ('it, 'b) build_state \<Rightarrow> bool" where
  "sidecar_inv ctx st \<longleftrightarrow>
     blob_sidecars st =
       (if included_sidecars (included st) = [] then SidecarsEmpty
        else if is_osaka ctx then SidecarsEip7594 (included_sidecars (included st))
        else SidecarsEip4844 (included_sidecars (included st))) \<and>
     (\<forall>i \<in> set (included st). inc_sidecar i = None \<longleftrightarrow> tx_blob_hashes (pt_consensus (inc_tx i)) = None)"

lemma included_sidecars_append [simp]:
  "included_sidecars (incs @ [i]) = included_sidecars incs @
     (case inc_sidecar i of Some s \<Rightarrow> [variant_sidecar s] | None \<Rightarrow> [])"
  by (simp add: included_sidecars_def map_filter_def split: option.split)

lemma sidecar_inv_include:
  assumes law: "push_law lib" and inv: "sidecar_inv ctx st" and inc: "included_one lib ctx inc st st'"
  shows "sidecar_inv ctx st'"
proof (cases "inc_sidecar inc")
  case None
  with inv inc show ?thesis by (auto simp: sidecar_inv_def included_one_def Let_def)
next
  case (Some s)
  with inc have kind: "is_eip7594 s = is_osaka ctx" "tx_blob_hashes (pt_consensus (inc_tx inc)) \<noteq> None"
    and upd: "blob_sidecars st' = push_sidecar_variant lib (blob_sidecars st) s"
      "included st' = included st @ [inc]"
    by (auto simp: included_one_def Let_def)
  with law inv Some show ?thesis
    by (cases s) (auto simp: sidecar_inv_def push_law_def variant_sidecar_def)
qed

interpretation sidecars: loop_invariant lib ctx "\<lambda>st. push_law lib \<longrightarrow> sidecar_inv ctx st"
proof unfold_locales
  fix st st' :: "('a, 'b) build_state" and it it' inc
  show "push_law lib \<longrightarrow> sidecar_inv ctx st \<Longrightarrow> push_law lib \<longrightarrow> sidecar_inv ctx (advance it st)"
    by (simp add: sidecar_inv_def)
  show "push_law lib \<longrightarrow> sidecar_inv ctx st \<Longrightarrow> skipped st st' \<Longrightarrow> push_law lib \<longrightarrow> sidecar_inv ctx st'"
    by (auto simp: sidecar_inv_def skipped_def)
  show "push_law lib \<longrightarrow> sidecar_inv ctx st \<Longrightarrow> best_next lib it = Some (inc_tx inc, it') \<Longrightarrow>
      included_one lib ctx inc st st' \<Longrightarrow> push_law lib \<longrightarrow> sidecar_inv ctx st'"
    by (intro impI, rule sidecar_inv_include) simp_all
qed

subsubsection \<open>Termination\<close>

text \<open>
  An iterator over finitely many transactions: \<open>next\<close> consumes one, \<open>mark_invalid\<close> and
  \<open>skip_blobs\<close> add none.
\<close>

definition finite_iterator :: "('it, 'b, 'blk, 'x, 'r, 'p) build_lib \<Rightarrow> ('it \<Rightarrow> nat) \<Rightarrow> bool" where
  "finite_iterator lib remaining \<longleftrightarrow>
     (\<forall>it ptx it'. best_next lib it = Some (ptx, it') \<longrightarrow> remaining it' < remaining it) \<and>
     (\<forall>it ptx e. remaining (mark_invalid lib ptx e it) \<le> remaining it) \<and>
     (\<forall>it. remaining (skip_blobs lib it) \<le> remaining it)"

lemma include_transaction_iterator:
  "include_transaction lib ctx ptx sc gas st = Next st' \<Longrightarrow>
   best_txs st' = best_txs st \<or> best_txs st' = skip_blobs lib (best_txs st)"
  by (auto simp: include_transaction_def Let_def split: option.splits if_splits)

lemma execute_and_include_iterator:
  "execute_and_include lib ctx ptx sc st = Next st' \<Longrightarrow>
   best_txs st' = best_txs st \<or> best_txs st' = skip_blobs lib (best_txs st) \<or>
   (\<exists>e. best_txs st' = mark_invalid lib ptx e (best_txs st))"
  by (auto simp: execute_and_include_def reject_tx_def Let_def
      dest!: include_transaction_iterator split: prod.splits sum.splits execution_error.splits if_splits)

lemma build_iter_iterator:
  assumes "build_iter lib ctx ptx st = Next st'"
  shows "best_txs st' = best_txs st \<or> best_txs st' = skip_blobs lib (best_txs st) \<or>
    (\<exists>e. best_txs st' = mark_invalid lib ptx e (best_txs st))"
proof -
  have reject: "(\<exists>e. best_txs st' = mark_invalid lib ptx e (best_txs st))"
    if "reject_tx lib ptx e st = Next st'" for e
    using that by (auto simp: reject_tx_def)
  from assms show ?thesis
    unfolding build_iter_def Let_def
    by (auto dest: execute_and_include_iterator reject split: if_splits option.splits sum.splits)
qed

lemma build_iter_remaining:
  "finite_iterator lib remaining \<Longrightarrow> build_iter lib ctx ptx st = Next st' \<Longrightarrow>
   remaining (best_txs st') \<le> remaining (best_txs st)"
  using build_iter_iterator [of lib ctx ptx st st'] by (auto simp: finite_iterator_def)

lemma build_loop_returns:
  assumes "finite_iterator lib remaining"
  shows "\<exists>r. build_loop lib ctx st = Some r"
proof (induction "remaining (best_txs st)" arbitrary: st rule: less_induct)
  case less
  show ?case
  proof (cases "best_next lib (best_txs st)")
    case None
    then show ?thesis by (subst build_loop.simps) simp
  next
    case (Some q)
    show ?thesis
    proof (cases "build_iter lib ctx (fst q) (advance (snd q) st)")
      case (Next st')
      have "remaining (best_txs st') \<le> remaining (snd q)"
        using build_iter_remaining [OF assms Next] by simp
      also have "\<dots> < remaining (best_txs st)"
        using assms Some by (cases q) (auto simp: finite_iterator_def)
      finally obtain r where "build_loop lib ctx st' = Some r" using less by blast
      with Some Next show ?thesis by (subst build_loop.simps) simp
    next
      case (Exit e)
      with Some show ?thesis by (subst build_loop.simps) simp
    qed
  qed
qed

subsubsection \<open>Block size after Osaka\<close>

definition rlp_sum :: "included_tx list \<Rightarrow> nat" where
  "rlp_sum incs = sum_list (map (\<lambda>i. unat (tx_rlp_length (pt_consensus (inc_tx i)))) incs)"

definition size_laws :: "('it, 'b, 'blk, 'x, 'r, 'p) build_lib \<Rightarrow> build_ctx \<Rightarrow> bool" where
  "size_laws lib ctx \<longleftrightarrow> iterator_law lib (block_gas_limit ctx) \<and>
     small_length (MAX_RLP_BLOCK_SIZE lib) \<and> small_length (withdrawals_length lib (ctx_withdrawals ctx))"

definition size_inv ::
  "('it, 'b, 'blk, 'x, 'r, 'p) build_lib \<Rightarrow> build_ctx \<Rightarrow> ('it, 'b) build_state \<Rightarrow> bool" where
  "size_inv lib ctx st \<longleftrightarrow> is_osaka ctx \<longrightarrow>
     unat (block_transactions_rlp_length st) = rlp_sum (included st) \<and>
     (included st = [] \<or> rlp_sum (included st) + unat (withdrawals_length lib (ctx_withdrawals ctx)) + 1024
        \<le> unat (MAX_RLP_BLOCK_SIZE lib))"

lemma size_inv_include:
  assumes law: "size_laws lib ctx" and inv: "size_inv lib ctx st"
    and nxt: "best_next lib it = Some (inc_tx inc, it')" and inc: "included_one lib ctx inc st st'"
  shows "size_inv lib ctx st'"
proof (cases "is_osaka ctx")
  case True
  let ?len = "block_transactions_rlp_length st" and ?tx = "tx_rlp_length (pt_consensus (inc_tx inc))"
    and ?w = "withdrawals_length lib (ctx_withdrawals ctx)"
  have len: "unat ?len < 2 ^ 62"
    using inv law True by (auto simp: size_inv_def size_laws_def small_length_def rlp_sum_def)
  have tx: "unat ?tx < 2 ^ 62" and w: "unat ?w < 2 ^ 62"
    using law iterator_lawD(2) [OF _ nxt] by (auto simp: size_laws_def small_length_def)
  have 1: "unat (?len + ?tx) = unat ?len + unat ?tx"
    using len tx by (intro unat_add_no_overflow) simp
  have 2: "unat (?len + ?tx + ?w) = unat ?len + unat ?tx + unat ?w"
    using len tx w 1 by (subst unat_add_no_overflow) simp_all
  have "unat (?len + ?tx + ?w + 1024) = unat ?len + unat ?tx + unat ?w + 1024"
    using len tx w 2 by (subst unat_add_no_overflow) simp_all
  with 1 inv inc True show ?thesis
    by (auto simp: size_inv_def included_one_def Let_def word_le_nat_alt rlp_sum_def)
qed (simp add: size_inv_def)

interpretation sizes: loop_invariant lib ctx "\<lambda>st. size_laws lib ctx \<longrightarrow> size_inv lib ctx st"
proof unfold_locales
  fix st st' :: "('a, 'b) build_state" and it it' inc
  show "size_laws lib ctx \<longrightarrow> size_inv lib ctx st \<Longrightarrow> size_laws lib ctx \<longrightarrow> size_inv lib ctx (advance it st)"
    by (simp add: size_inv_def)
  show "size_laws lib ctx \<longrightarrow> size_inv lib ctx st \<Longrightarrow> skipped st st' \<Longrightarrow>
      size_laws lib ctx \<longrightarrow> size_inv lib ctx st'"
    by (auto simp: size_inv_def skipped_def)
  show "size_laws lib ctx \<longrightarrow> size_inv lib ctx st \<Longrightarrow> best_next lib it = Some (inc_tx inc, it') \<Longrightarrow>
      included_one lib ctx inc st st' \<Longrightarrow> size_laws lib ctx \<longrightarrow> size_inv lib ctx st'"
    by (intro impI, rule size_inv_include) simp_all
qed

subsection \<open>From the loop to the payload\<close>

lemma initial_state_sel [simp]:
  "included (initial_state it b) = []" "block_blob_count (initial_state it b) = 0"
  "cumulative_gas_used (initial_state it b) = 0" "total_fees (initial_state it b) = 0"
  "blob_sidecars (initial_state it b) = SidecarsEmpty"
  "block_transactions_rlp_length (initial_state it b) = 0" "best_txs (initial_state it b) = it"
  by (simp_all add: initial_state_def)

lemma initial_invariants:
  "blob_inv ctx (initial_state it b)" "accounts_inv ctx (initial_state it b)"
  "sidecar_inv ctx (initial_state it b)" "size_inv lib ctx (initial_state it b)"
  by (simp_all add: blob_inv_def accounts_inv_def sidecar_inv_def size_inv_def gas_sum_def fee_sum_def
      included_sidecars_def map_filter_def rlp_sum_def)

lemma compute_load_blob_cap_le: "compute_load_blob_cap slib spec ts \<le> LOAD_MAX_BLOB_COUNT"
  by (simp add: compute_load_blob_cap_def)

lemma loop_context_sel [simp]:
  "block_gas_limit (loop_context slib lib spec args b) = be_gas_limit (builder_block_env lib b)"
  "is_osaka (loop_context slib lib spec args b) =
     is_active_at_timestamp slib spec Osaka (ba_timestamp (lba_inner (arg_attributes args)))"
  "unat (ctx_max_blob_count (loop_context slib lib spec args b)) \<le> 1024"
  "ctx_withdrawals (loop_context slib lib spec args b) = ba_withdrawals (lba_inner (arg_attributes args))"
  using compute_load_blob_cap_le [of slib spec]
  by (simp_all add: loop_context_def Let_def word_le_nat_alt)

text \<open>A run that ends with a better payload, taken apart.\<close>

definition loop_run ::
  "'c spec_lib \<Rightarrow> ('it, 'b, 'blk, 'x, 'r, 'p) build_lib \<Rightarrow> 'c load_chain_spec \<Rightarrow> eth_builder_config \<Rightarrow>
   ('r, 'blk) build_arguments \<Rightarrow> 'b \<Rightarrow> 'p \<Rightarrow> ('it, 'b) build_state \<Rightarrow> bool" where
  "loop_run slib lib spec conf args b provider st \<longleftrightarrow>
     prepare_build lib spec conf args = Inr (provider, b) \<and>
     (\<exists>it b'. apply_pre_execution_changes lib b = Inr b' \<and>
        build_loop lib (loop_context slib lib spec args b) (initial_state it b') = Some (Finished st))"

lemma finish_payload_Better:
  "finish_payload slib lib spec attrs best osaka_active provider st = Inr (Better p reads) \<longleftrightarrow>
   is_better_payload lib best (total_fees st) \<and>
   (\<exists>blk reqs. finish_block lib (block_builder st) provider = Inr (blk, reqs, reads) \<and>
      \<not> (osaka_active \<and> sealed_rlp_length lib blk > MAX_RLP_BLOCK_SIZE lib) \<and>
      lbp_inner p = \<lparr>bp_id = ba_payload_id (lba_inner attrs), bp_block = blk,
        bp_fees = total_fees st, bp_sidecars = blob_sidecars st,
        bp_requests = (if is_active_at_timestamp slib spec Prague (ba_timestamp (lba_inner attrs))
                       then Some reqs else None)\<rparr>)"
  by (cases p) (auto simp: finish_payload_def rbind_eq_Inr map_err_eq_Inr Let_def split: if_splits)

lemma default_load_payload_finished:
  assumes "default_load_payload slib lib spec conf args = Some (Returned (Inr outcome))"
    and "outcome \<noteq> Cancelled"
  obtains b provider st where "loop_run slib lib spec conf args b provider st"
    and "finish_payload slib lib spec (arg_attributes args) (arg_best_payload args)
       (is_active_at_timestamp slib spec Osaka (ba_timestamp (lba_inner (arg_attributes args))))
       provider st = Inr outcome"
proof -
  obtain provider b where prep: "prepare_build lib spec conf args = Inr (provider, b)"
    using assms by (auto simp: default_load_payload_def split: sum.splits)
  obtain b' where pre: "apply_pre_execution_changes lib b = Inr b'"
    using assms prep by (auto simp: default_load_payload_def Let_def split: sum.splits)
  note run = assms(1) [unfolded default_load_payload_def prep sum.case prod.case Let_def pre]
  from run assms(2) show thesis
    by (auto split: option.splits loop_exit.splits loop_stop.splits
        intro!: that [of b provider] simp: loop_run_def prep pre)
qed

lemma loop_run_invariants:
  assumes "loop_run slib lib spec conf args b provider st"
    and "iterator_law lib (be_gas_limit (builder_block_env lib b))"
  shows "blob_inv (loop_context slib lib spec args b) st"
    and "accounts_inv (loop_context slib lib spec args b) st"
    and "push_law lib \<Longrightarrow> sidecar_inv (loop_context slib lib spec args b) st"
    and "size_laws lib (loop_context slib lib spec args b) \<Longrightarrow>
      size_inv lib (loop_context slib lib spec args b) st"
proof -
  let ?ctx = "loop_context slib lib spec args b"
  obtain it b' where loop: "build_loop lib ?ctx (initial_state it b') = Some (Finished st)"
    using assms(1) by (auto simp: loop_run_def)
  have "blob_laws lib ?ctx" using assms(2) by (simp add: blob_laws_def)
  with blobs.finished [OF loop refl] show "blob_inv ?ctx st" by (simp add: initial_invariants)
  show "accounts_inv ?ctx st"
    using accounts.finished [OF loop refl] assms(2) by (simp add: initial_invariants)
  show "push_law lib \<Longrightarrow> sidecar_inv ?ctx st"
    using sidecars.finished [OF loop refl] by (simp add: initial_invariants)
  show "size_laws lib ?ctx \<Longrightarrow> size_inv lib ?ctx st"
    using sizes.finished [OF loop refl] by (simp add: initial_invariants)
qed

lemma prepare_build_ok:
  "prepare_build lib spec conf args = Inr (provider, b) \<Longrightarrow>
   validate_payload_attributes (hd_timestamp (arg_parent_header args)) (arg_attributes args) = Inr () \<and>
   builder_for_next_block lib (arg_cached_reads args) provider (arg_parent_header args)
     (next_env_attributes lib conf spec (arg_parent_header args) (lba_inner (arg_attributes args))) = Inr b"
  by (auto simp: prepare_build_def Let_def rbind_eq_Inr map_err_eq_Inr)

lemma default_load_payload_returns:
  assumes "finite_iterator lib remaining"
  shows "\<exists>r. default_load_payload slib lib spec conf args = Some r"
  unfolding default_load_payload_def Let_def
  by (auto split: sum.splits option.splits loop_exit.splits loop_stop.splits)
    (metis build_loop_returns [OF assms] option.distinct(1))+

subsection \<open>Properties\<close>




text \<open>Over an iterator with finitely many transactions a build always returns, with a payload, an
  abort, a cancellation or an error, and it only returns a better payload for attributes with
  the PREVRANDAO constant and a timestamp after the parent's.\<close>

lemma build_returns:
  assumes "finite_iterator lib remaining"
  shows "\<exists>r. default_load_payload slib lib spec conf args = Some r \<and>
    (\<forall>p reads. r = Returned (Inr (Better p reads)) \<longrightarrow>
       ba_prev_randao (lba_inner (arg_attributes args)) = LOAD_PREVRANDAO \<and>
       hd_timestamp (arg_parent_header args) < ba_timestamp (lba_inner (arg_attributes args)))"
proof -
  have "\<exists>r. default_load_payload slib lib spec conf args = Some r"
    by (rule default_load_payload_returns [OF assms])
  moreover have "ba_prev_randao (lba_inner (arg_attributes args)) = LOAD_PREVRANDAO \<and>
      hd_timestamp (arg_parent_header args) < ba_timestamp (lba_inner (arg_attributes args))"
    if "default_load_payload slib lib spec conf args = Some (Returned (Inr (Better p reads)))" for p reads
  proof -
    from that obtain b provider st where "loop_run slib lib spec conf args b provider st"
      by (rule default_load_payload_finished) simp
    then show ?thesis
      using prepare_build_ok [of lib spec conf args provider b]
      by (auto simp: loop_run_def validate_payload_attributes_ok)
  qed
  ultimately show ?thesis by blast
qed

subsection \<open>How the loop ends\<close>

lemma include_transaction_Exit:
  "include_transaction lib ctx ptx sc gas st = Exit e \<Longrightarrow> e = LoopPanic"
  by (auto simp: include_transaction_def Let_def split: option.splits if_splits)

lemma execute_and_include_Exit:
  "execute_and_include lib ctx ptx sc st = Exit e \<Longrightarrow> e = LoopPanic \<or> (\<exists>x. e = LoopError (EvmError x))"
  by (auto simp: execute_and_include_def reject_tx_def Let_def
      dest: include_transaction_Exit split: prod.splits sum.splits execution_error.splits if_splits)

lemma build_iter_Exit:
  assumes "build_iter lib ctx ptx st = Exit e"
  shows "e = LoopCancelled \<and> is_cancelled ctx (iteration st) \<or> e = LoopPanic \<or>
    (\<exists>x. e = LoopError (BlobStoreError x)) \<or> (\<exists>x. e = LoopError (EvmError x))"
proof -
  have reject: "reject_tx lib ptx err st \<noteq> Exit e" for err by (simp add: reject_tx_def)
  from assms show ?thesis
    unfolding build_iter_def Let_def
    by (auto dest: execute_and_include_Exit simp: reject split: if_splits option.splits sum.splits)
qed

interpretation anything: iteration_invariant lib ctx "\<lambda>_. True"
  by unfold_locales simp

lemma build_loop_Stopped:
  assumes "build_loop lib ctx st = Some (Stopped e)"
  shows "e = LoopCancelled \<and> (\<exists>i. is_cancelled ctx i) \<or> e = LoopPanic \<or>
    (\<exists>x. e = LoopError (BlobStoreError x)) \<or> (\<exists>x. e = LoopError (EvmError x))"
proof -
  obtain st' it ptx it' where "build_iter lib ctx ptx (advance it' st') = Exit e"
    by (rule anything.stopped [OF assms]) simp_all
  from build_iter_Exit [OF this] show ?thesis by auto
qed

text \<open>The blob cap of the builder for a spec made from an accepted genesis: 1024 at every
  timestamp before Osaka, whatever the upstream defaults, and the upstream Osaka maximum (at most
  1024) from Osaka on.\<close>

lemma builder_blob_cap:
  assumes "spec_lib_laws slib" and "from_genesis slib g = Inr spec"
  shows "compute_load_blob_cap slib spec ts =
    (if \<exists>t. osaka_time (config g) = Some t \<and> t \<le> ts
     then min (max_blob_count (osaka_params slib)) 1024 else 1024)"
  by (auto simp: compute_load_blob_cap_def from_genesis_blob_params [OF assms]
      from_genesis_active [OF assms] load_blob_params_def load_constants)

subsection \<open>An instance\<close>

text \<open>
  A pool with a list as its iterator and one EIP-4844 sidecar for every hash, and a block builder
  that records its attributes and the transactions and charges 21000 gas for each.
\<close>

type_synonym example_block = "next_block_attributes \<times> eth_tx list"

definition example_sidecar :: blob_sidecar where
  "example_sidecar = \<lparr>bs_blobs = [[]], bs_commitments = [[]], bs_proofs = [[]]\<rparr>"

fun example_push :: "blob_sidecars \<Rightarrow> sidecar_variant \<Rightarrow> blob_sidecars" where
  "example_push SidecarsEmpty (VarEip4844 s) = SidecarsEip4844 [s]"
| "example_push SidecarsEmpty (VarEip7594 s) = SidecarsEip7594 [s]"
| "example_push (SidecarsEip4844 ss) (VarEip4844 s) = SidecarsEip4844 (ss @ [s])"
| "example_push (SidecarsEip7594 ss) (VarEip7594 s) = SidecarsEip7594 (ss @ [s])"
| "example_push ss v = ss"

definition blob_tx :: pool_tx where
  "blob_tx = \<lparr>pt_gas_limit = 21000, pt_consensus =
     \<lparr>tx_hash = B256_ZERO, tx_rlp_length = 100, tx_blob_hashes = Some [B256_ZERO]\<rparr>\<rparr>"

definition example_next :: "pool_tx list \<Rightarrow> (pool_tx \<times> pool_tx list) option" where
  "example_next txs = (case txs of
      [] \<Rightarrow> None
    | t # ts \<Rightarrow> if t = blob_tx then Some (t, ts) else None)"

definition example_build_lib ::
  "sidecar_variant \<Rightarrow> (pool_tx list, example_block, example_block, unit, unit, unit) build_lib" where
  "example_build_lib sidecar = \<lparr>
     state_by_block_hash = (\<lambda>h. Inr ()),
     builder_for_next_block = (\<lambda>r p h a. Inr (a, [])),
     builder_block_env = (\<lambda>b. \<lparr>be_gas_limit = 2000000000, be_basefee = 7,
        be_blob_excess_gas_and_price = Some \<lparr>excess_blob_gas = 0, blob_gasprice = 1\<rparr>\<rparr>),
     apply_pre_execution_changes = (\<lambda>b. Inr b),
     execute_transaction = (\<lambda>tx b. (Inr 21000, (fst b, snd b @ [tx]))),
     finish_block = (\<lambda>b p. Inr (b, [], ())),
     builder_reads = (\<lambda>b. ()),
     sealed_rlp_length = (\<lambda>b. 2000),
     withdrawals_length = (\<lambda>w. 1),
     MAX_RLP_BLOCK_SIZE = 8388608,
     effective_tip_per_gas = (\<lambda>tx f. Some 2),
     best_transactions = (\<lambda>f g. [blob_tx]),
     best_next = example_next,
     mark_invalid = (\<lambda>t e ts. ts),
     skip_blobs = (\<lambda>ts. filter (\<lambda>t. tx_blob_hashes (pt_consensus t) = None) ts),
     get_blob = (\<lambda>i h. Inr (Some sidecar)),
     push_sidecar_variant = example_push,
     is_better_payload = (\<lambda>best fees. case best of None \<Rightarrow> True | Some p \<Rightarrow> bp_fees (lbp_inner p) < fees),
     config_gas_limit = (\<lambda>c g. desired_gas_limit c),
     default_builder_config = \<lparr>desired_gas_limit = 36000000, await_payload_on_missing = False\<rparr>,
     default_reads = ()\<rparr>"

lemma example_iterator_law: "iterator_law (example_build_lib sc) (be_gas_limit (builder_block_env (example_build_lib sc) b))"
  by (auto simp: iterator_law_def example_build_lib_def example_next_def blob_tx_def small_length_def
      split: list.splits if_splits)

lemma example_push_law: "push_law (example_build_lib sc)"
  by (simp add: push_law_def example_build_lib_def)

lemma example_finite: "finite_iterator (example_build_lib sc) length"
  by (auto simp: finite_iterator_def example_build_lib_def example_next_def split: list.splits if_splits)

definition example_args :: "u64 \<Rightarrow> (unit, example_block) build_arguments" where
  "example_args ts = \<lparr>arg_cached_reads = (), arg_parent_header =
       \<lparr>hd_hash = B256_ZERO, hd_number = 0, hd_timestamp = 1, hd_gas_limit = 2000000000\<rparr>,
     arg_attributes = \<lparr>lba_inner = example_try_new B256_ZERO (lpa_inner (example_attributes ts LOAD_PREVRANDAO)) 3\<rparr>,
     arg_is_cancelled = (\<lambda>_. False), arg_best_payload = None\<rparr>"

lemma example_next_simps [simp]:
  "best_next (example_build_lib sc) = example_next"
  "example_next [] = None"
  "example_next [blob_tx] = Some (blob_tx, [])"
  by (simp_all add: example_build_lib_def example_next_def)

lemma example_iter:
  assumes "block_gas_limit ctx = 2000000000" and "base_fee ctx = 7" and "is_osaka ctx = is_eip7594 sc"
    and "ctx_max_blob_count ctx = 1024 \<or> ctx_max_blob_count ctx = 9" and "\<And>i. is_cancelled ctx i = False"
  shows "\<exists>st. build_iter (example_build_lib sc) ctx blob_tx
      (advance [] (initial_state [blob_tx] (a, []))) = Next st \<and>
    total_fees st = 42000 \<and> blob_sidecars st = example_push SidecarsEmpty sc \<and>
    block_builder st = (a, [pt_consensus blob_tx]) \<and> best_txs st = []"
  using assms(4)
  by (cases sc) (auto simp: build_iter_def Let_def assms(1-3,5) blob_tx_def vlen_def select_sidecar_def
      execute_and_include_def include_transaction_def example_build_lib_def initial_state_def)

lemma example_run:
  assumes "is_active_at_timestamp slib spec Osaka 2 = is_eip7594 sc"
    and "compute_load_blob_cap slib spec 2 = (if is_eip7594 sc then 9 else 1024)"
  shows "\<exists>p. default_load_payload slib (example_build_lib sc) spec conf (example_args 2) =
      Some (Returned (Inr (Better p ()))) \<and>
    bp_fees (lbp_inner p) = 42000 \<and> bp_sidecars (lbp_inner p) = example_push SidecarsEmpty sc"
proof -
  let ?lib = "example_build_lib sc"
  let ?a = "next_env_attributes ?lib conf spec (arg_parent_header (example_args 2))
      (lba_inner (arg_attributes (example_args 2)))"
  let ?ctx = "loop_context slib ?lib spec (example_args 2) (?a, [])"
  have ctx: "block_gas_limit ?ctx = 2000000000" "base_fee ?ctx = 7" "is_osaka ?ctx = is_eip7594 sc"
    "ctx_max_blob_count ?ctx = 1024 \<or> ctx_max_blob_count ?ctx = 9" "is_cancelled ?ctx i = False" for i
    using assms by (simp_all add: loop_context_def Let_def example_build_lib_def example_args_def
        example_attributes_def example_try_new_def)
  obtain st where st: "build_iter ?lib ?ctx blob_tx (advance [] (initial_state [blob_tx] (?a, []))) = Next st"
    "total_fees st = 42000" "blob_sidecars st = example_push SidecarsEmpty sc" "best_txs st = []"
    using example_iter [OF ctx, of ?a] by blast
  have loop: "build_loop ?lib ?ctx (initial_state [blob_tx] (?a, [])) = Some (Finished st)"
    by (subst build_loop.simps, simp add: st, subst build_loop.simps, simp add: st)
  have prep: "prepare_build ?lib spec conf (example_args 2) = Inr ((), (?a, []))"
    by (simp add: prepare_build_def Let_def example_build_lib_def example_args_def
        validate_payload_attributes_def example_try_new_def example_attributes_def
        payload_randao.accepts_constant word_le_nat_alt)
  have lib: "best_transactions ?lib f g = [blob_tx]" "apply_pre_execution_changes ?lib b = Inr b" for f g b
    by (simp_all add: example_build_lib_def)
  have "\<exists>p. finish_payload slib ?lib spec (arg_attributes (example_args 2))
      (arg_best_payload (example_args 2)) osk () st = Inr (Better p ()) \<and>
      bp_fees (lbp_inner p) = 42000 \<and> bp_sidecars (lbp_inner p) = example_push SidecarsEmpty sc" for osk
    using st(2,3) by (simp add: finish_payload_def example_build_lib_def example_args_def Let_def)
  then show ?thesis
    by (simp add: default_load_payload_def prep lib Let_def loop)
qed

definition osaka_genesis :: genesis where
  "osaka_genesis = load_dev_genesis\<lparr>config := (builtin_config 16383)\<lparr>osaka_time := Some 0\<rparr>\<rparr>"

lemma example_specs:
  obtains s where "from_genesis example_spec_lib load_dev_genesis = Inr s"
    "\<not> is_active_at_timestamp example_spec_lib s Osaka 2" "compute_load_blob_cap example_spec_lib s 2 = 1024"
proof -
  obtain s where s: "from_genesis example_spec_lib load_dev_genesis = Inr s"
    using genesis_ok_builtin by (auto simp: from_genesis_Inr)
  then show thesis
    by (intro that [OF s])
      (simp_all add: from_genesis_active [OF example_spec_lib_laws s] compute_load_blob_cap_def
        from_genesis_blob_params [OF example_spec_lib_laws s] load_blob_params_def load_constants)
qed

lemma genesis_ok_osaka: "genesis_ok (c\<lparr>osaka_time := t\<rparr>) = genesis_ok c"
proof -
  have "get_fork f (c\<lparr>osaka_time := t\<rparr>) = get_fork f c" for f by (cases f) simp_all
  then show ?thesis by (simp add: genesis_ok_def)
qed

lemma example_osaka_spec:
  obtains s where "from_genesis example_spec_lib osaka_genesis = Inr s"
    "is_active_at_timestamp example_spec_lib s Osaka 2" "compute_load_blob_cap example_spec_lib s 2 = 9"
proof -
  obtain s where s: "from_genesis example_spec_lib osaka_genesis = Inr s"
    using genesis_ok_builtin genesis_ok_osaka by (auto simp: from_genesis_Inr osaka_genesis_def)
  have "osaka_time (config osaka_genesis) = Some 0" "max_blob_count (osaka_params example_spec_lib) = 9"
    by (simp_all add: osaka_genesis_def example_spec_lib_def Let_def)
  with s show thesis
    by (intro that [OF s])
      (simp_all add: from_genesis_active [OF example_spec_lib_laws s] compute_load_blob_cap_def
        from_genesis_blob_params [OF example_spec_lib_laws s] load_constants min_def word_le_nat_alt)
qed




lemma build_returns_witness:
  "\<exists>r. default_load_payload example_spec_lib (example_build_lib (VarEip4844 example_sidecar))
     \<lparr>spec_inner = spec_of_genesis example_spec_lib load_dev_genesis\<rparr>
     (default_builder_config (example_build_lib (VarEip4844 example_sidecar))) (example_args 2) = Some r"
  using build_returns [OF example_finite] by blast

subsection \<open>Where the included transactions come from\<close>

text \<open>Every included transaction was yielded by the iterator.\<close>

definition yielded_inv :: "('it, 'b, 'blk, 'x, 'r, 'p) build_lib \<Rightarrow> ('it, 'b) build_state \<Rightarrow> bool" where
  "yielded_inv lib st \<longleftrightarrow> (\<forall>i \<in> set (included st). \<exists>it it'. best_next lib it = Some (inc_tx i, it'))"

interpretation yielded: loop_invariant lib ctx "yielded_inv lib"
proof unfold_locales
  fix st st' :: "('a, 'b) build_state" and it it' inc
  show "yielded_inv lib st \<Longrightarrow> yielded_inv lib (advance it st)"
    by (simp add: yielded_inv_def)
  show "yielded_inv lib st \<Longrightarrow> skipped st st' \<Longrightarrow> yielded_inv lib st'"
    by (simp add: yielded_inv_def skipped_def)
  show "yielded_inv lib st \<Longrightarrow> best_next lib it = Some (inc_tx inc, it') \<Longrightarrow>
      included_one lib ctx inc st st' \<Longrightarrow> yielded_inv lib st'"
    by (auto simp: yielded_inv_def included_one_def Let_def)
qed

text \<open>EIP-4844: a blob transaction carries at least one versioned hash.\<close>

definition blob_tx_law :: "('it, 'b, 'blk, 'x, 'r, 'p) build_lib \<Rightarrow> bool" where
  "blob_tx_law lib \<longleftrightarrow>
     (\<forall>it ptx it'. best_next lib it = Some (ptx, it') \<longrightarrow> tx_blob_hashes (pt_consensus ptx) \<noteq> Some [])"

lemma loop_run_blob_txs:
  assumes "loop_run slib lib spec conf args b provider st" and "blob_tx_law lib"
    and "i \<in> set (included st)"
  shows "tx_blob_hashes (pt_consensus (inc_tx i)) \<noteq> Some []"
proof -
  obtain it b' where "build_loop lib (loop_context slib lib spec args b) (initial_state it b') =
      Some (Finished st)"
    using assms(1) by (auto simp: loop_run_def)
  from yielded.finished [OF this refl] have "yielded_inv lib st" by (simp add: yielded_inv_def)
  with assms(3) obtain it it' where "best_next lib it = Some (inc_tx i, it')"
    unfolding yielded_inv_def by blast
  with assms(2) show ?thesis unfolding blob_tx_law_def by blast
qed

text \<open>One sidecar per blob transaction, so no more sidecars than blobs.\<close>

lemma sidecars_le_blobs:
  assumes "\<And>i. i \<in> set incs \<Longrightarrow>
      (inc_sidecar i = None \<longleftrightarrow> tx_blob_hashes (pt_consensus (inc_tx i)) = None) \<and>
      tx_blob_hashes (pt_consensus (inc_tx i)) \<noteq> Some []"
  shows "length (included_sidecars incs) \<le> sum_list (map blobs_of incs)"
  using assms
proof (induction incs)
  case (Cons i incs)
  then have "length (included_sidecars incs) \<le> sum_list (map blobs_of incs)" by simp
  moreover have "inc_sidecar i = None \<or> 1 \<le> blobs_of i"
    using Cons.prems [of i] by (cases "tx_blob_hashes (pt_consensus (inc_tx i))")
      (auto simp: blobs_of_def Suc_le_eq)
  ultimately show ?case
    by (auto simp: included_sidecars_def map_filter_def split: option.split)
qed (simp add: included_sidecars_def map_filter_def)

lemma default_load_payload_Better:
  assumes "default_load_payload slib lib spec conf args = Some (Returned (Inr (Better p reads)))"
    and "\<And>b. iterator_law lib (be_gas_limit (builder_block_env lib b))" and "push_law lib"
  obtains b provider st where "loop_run slib lib spec conf args b provider st"
    and "bp_sidecars (lbp_inner p) = blob_sidecars st"
    and "sidecar_inv (loop_context slib lib spec args b) st"
    and "sum_list (map blobs_of (included st)) \<le> 1024"
    and "bp_fees (lbp_inner p) = total_fees st"
proof -
  obtain b provider st where run: "loop_run slib lib spec conf args b provider st"
    and fin: "finish_payload slib lib spec (arg_attributes args) (arg_best_payload args)
       (is_active_at_timestamp slib spec Osaka (ba_timestamp (lba_inner (arg_attributes args))))
       provider st = Inr (Better p reads)"
    by (rule default_load_payload_finished [OF assms(1)]) simp
  have "sum_list (map blobs_of (included st)) \<le> 1024"
    using loop_run_invariants(1) [OF run assms(2)]
      le_trans [OF _ loop_context_sel(3) [of slib lib spec args b]]
    by (simp add: blob_inv_def word_le_nat_alt)
  with that run loop_run_invariants(3) [OF run assms(2,3)] fin show thesis
    by (auto simp: finish_payload_Better)
qed

end
