(* ===== verification/Evm_Config.thy ===== *)
theory Evm_Config
  imports Evm
begin

section \<open>Construction and delegation of the EVM configuration (\<open>src/evm/mod.rs\<close>, \<open>src/consensus/mod.rs\<close>)\<close>

text \<open>
  How a \<open>LoadEvmConfig\<close> is made from the chain spec, and the methods of the EVM configuration
  traits that forward to the upstream configuration (execution contexts, transaction iterators,
  block executors, block assembly); also the builder of the consensus engine. The upstream
  constructors and methods are the fields of \<open>evm_lib\<close>; \<open>'bl\<close> is a sealed block, \<open>'ctx\<close> an
  execution context, \<open>'it\<close> a transaction iterator, \<open>'fac\<close> the block executor factory, \<open>'asm\<close> the
  block assembler, \<open>'cons\<close> the beacon consensus.
\<close>

record ('c, 'x, 'bl, 'ctx, 'it, 'fac, 'asm, 'cons) evm_lib =
  upstream_evm_new :: "'c load_chain_spec \<Rightarrow> ('c, 'x) upstream_evm"
  up_block_executor_factory :: "('c, 'x) upstream_evm \<Rightarrow> 'fac"
  up_block_assembler :: "('c, 'x) upstream_evm \<Rightarrow> 'asm"
  up_context_for_block :: "('c, 'x) upstream_evm \<Rightarrow> 'bl \<Rightarrow> 'x + 'ctx"
  up_context_for_next_block ::
    "('c, 'x) upstream_evm \<Rightarrow> header \<Rightarrow> next_block_attributes \<Rightarrow> 'x + 'ctx"
  up_context_for_payload :: "('c, 'x) upstream_evm \<Rightarrow> execution_data \<Rightarrow> 'x + 'ctx"
  up_tx_iterator_for_payload :: "('c, 'x) upstream_evm \<Rightarrow> execution_data \<Rightarrow> 'x + 'it"
  beacon_consensus_new :: "'c load_chain_spec \<Rightarrow> 'cons"

text \<open>Documented of the upstream constructor: the configuration keeps the spec it was made from.\<close>

definition evm_lib_law :: "('c, 'x, 'bl, 'ctx, 'it, 'fac, 'asm, 'cons) evm_lib \<Rightarrow> bool" where
  "evm_lib_law elib \<longleftrightarrow> (\<forall>s. up_chain_spec (upstream_evm_new elib s) = s)"

subsection \<open>Construction\<close>

definition evm_config_new ::
  "('c, 'x, 'bl, 'ctx, 'it, 'fac, 'asm, 'cons) evm_lib \<Rightarrow> 'c load_chain_spec \<Rightarrow> ('c, 'x) load_evm_config"
  where
  "evm_config_new elib spec = \<lparr>evm_inner = upstream_evm_new elib spec\<rparr>"

definition evm_config_inner :: "('c, 'x) load_evm_config \<Rightarrow> ('c, 'x) upstream_evm" where
  "evm_config_inner self = evm_inner self"

definition evm_config_from_inner :: "('c, 'x) upstream_evm \<Rightarrow> ('c, 'x) load_evm_config" where
  "evm_config_from_inner inner = \<lparr>evm_inner = inner\<rparr>"

lemma evm_config_wrap: "evm_config_from_inner (evm_config_inner self) = self"
  by (simp add: evm_config_from_inner_def evm_config_inner_def)

subsection \<open>Delegation\<close>

definition block_executor_factory where
  "block_executor_factory elib self = up_block_executor_factory elib (evm_inner self)"

definition block_assembler where
  "block_assembler elib self = up_block_assembler elib (evm_inner self)"

definition context_for_block where
  "context_for_block elib self block = up_context_for_block elib (evm_inner self) block"

definition context_for_next_block where
  "context_for_next_block elib self parent attributes =
     up_context_for_next_block elib (evm_inner self) parent attributes"

text \<open>The upstream configuration takes Load data by unwrapping it (\<open>engine/payload.rs\<close>).\<close>

definition eth_context_for_payload where
  "eth_context_for_payload elib self payload = up_context_for_payload elib self (led_inner payload)"

definition eth_tx_iterator_for_payload where
  "eth_tx_iterator_for_payload elib self payload =
     up_tx_iterator_for_payload elib self (led_inner payload)"

definition context_for_payload where
  "context_for_payload elib self payload = eth_context_for_payload elib (evm_inner self) payload"

definition tx_iterator_for_payload where
  "tx_iterator_for_payload elib self payload =
     eth_tx_iterator_for_payload elib (evm_inner self) payload"

subsection \<open>Component builders\<close>

text \<open>Both take the chain spec of the builder context; neither can fail.\<close>

definition build_evm ::
  "('c, 'x, 'bl, 'ctx, 'it, 'fac, 'asm, 'cons) evm_lib \<Rightarrow> 'c load_chain_spec \<Rightarrow>
   'e + ('c, 'x) load_evm_config" where
  "build_evm elib ctx_chain_spec = Inr (evm_config_new elib ctx_chain_spec)"

definition build_consensus ::
  "('c, 'x, 'bl, 'ctx, 'it, 'fac, 'asm, 'cons) evm_lib \<Rightarrow> 'c load_chain_spec \<Rightarrow> 'e + 'cons" where
  "build_consensus elib ctx_chain_spec = Inr (beacon_consensus_new elib ctx_chain_spec)"

text \<open>The configuration a node builds enforces the Load limits for its own spec.\<close>

lemma built_evm_limits:
  assumes "evm_lib_law elib" and "build_evm elib spec = Inr self"
  shows "up_chain_spec (evm_inner self) = spec"
    and "max_blob_count (load_blob_params_at lib self ts) = 1024"
    and "max_blobs_per_tx (load_blob_params_at lib self ts) = 32"
  using assms by (auto simp: build_evm_def evm_config_new_def evm_lib_law_def load_constants)

text \<open>Executing a payload needs the environment, the context and the transactions of the payload:
  all three are read from the same unwrapped data, and only the environment is changed.\<close>

lemma payload_execution_inputs:
  "evm_env_for_payload lib blib self d =
     rbind (up_evm_env_for_payload (evm_inner self) (led_inner d)) (\<lambda>env.
       Inr (enforce_load_blob_env lib blib self (data_timestamp d) env))"
  "context_for_payload elib self d = up_context_for_payload elib (evm_inner self) (led_inner d)"
  "tx_iterator_for_payload elib self d = up_tx_iterator_for_payload elib (evm_inner self) (led_inner d)"
  by (simp_all add: evm_env_for_payload_def eth_evm_env_for_payload_def context_for_payload_def
      eth_context_for_payload_def tx_iterator_for_payload_def eth_tx_iterator_for_payload_def)

end
