(* ===== verification/Validator.thy ===== *)
theory Validator
  imports Payload
begin

section \<open>Engine validator (\<open>src/engine/validator.rs\<close>)\<close>

text \<open>
  \<open>LoadEngineValidator\<close> puts the Load invariants in front of the upstream checks, for payloads
  (\<open>convert_payload_to_block\<close>, \<open>validate_version_specific_fields\<close>) and for payload attributes
  (\<open>validate_version_specific_fields\<close>, \<open>ensure_well_formed_attributes\<close>). Upstream's
  well-formedness and version checks, and the accessor that reads the execution requests of a
  sidecar, are the fields of \<open>validator_lib\<close>.
\<close>

datatype 'v engine_object_error =
    InvalidParams string
  | UnsupportedFork
  | VersionSpecific 'v

datatype ('v, 'p) new_payload_error =
    NewPayloadOther "'v engine_object_error"
  | NewPayloadInner 'p

datatype payload_or_attributes =
    ExecutionPayloadCase load_execution_data
  | PayloadAttributesCase load_payload_attributes

text \<open>\<open>'ver\<close> is \<open>EngineApiMessageVersion\<close>, \<open>'b\<close> the sealed block.\<close>

record ('ver, 'v, 'p, 'b) validator_lib =
  sidecar_requests :: "payload_sidecar \<Rightarrow> bytes list option"
  eth_ensure_well_formed_payload :: "execution_data \<Rightarrow> 'p + 'b"
  eth_validate_version_specific_fields ::
    "'ver \<Rightarrow> payload_or_attributes \<Rightarrow> 'v engine_object_error + unit"

record 'c load_engine_validator =
  val_chain_spec :: "'c load_chain_spec"

text \<open>\<open>LoadEngineValidatorBuilder::build\<close> takes the chain of the node's configuration; it cannot fail.\<close>

definition engine_validator_new :: "'c load_chain_spec \<Rightarrow> 'c load_engine_validator" where
  "engine_validator_new chain_spec = \<lparr>val_chain_spec = chain_spec\<rparr>"

definition build_engine_validator :: "'c load_chain_spec \<Rightarrow> 'e + 'c load_engine_validator" where
  "build_engine_validator ctx_chain = Inr (engine_validator_new ctx_chain)"

definition too_many_hashes_message :: "nat \<Rightarrow> string" where
  "too_many_hashes_message n =
     ''too many blob versioned hashes: '' @ show_nat n @ '' (max '' @ show_word LOAD_MAX_BLOB_COUNT @ '')''"

definition prague_inactive_message :: "u64 \<Rightarrow> string" where
  "prague_inactive_message ts = ''Prague payload fields not active at timestamp '' @ show_word ts"

definition ensure_load_payload_invariants ::
  "'c spec_lib \<Rightarrow> ('ver, 'v, 'p, 'b) validator_lib \<Rightarrow> 'c load_engine_validator \<Rightarrow>
   load_execution_data \<Rightarrow> 'v engine_object_error + unit" where
  "ensure_load_payload_invariants lib vlib self payload =
     (let prague_active =
            is_active_at_timestamp lib (val_chain_spec self) Prague (data_timestamp payload);
          sidecar = ed_sidecar (led_inner payload)
      in if data_prev_randao payload \<noteq> LOAD_PREVRANDAO then Inl (InvalidParams RANDAO_MESSAGE)
         else
           rbind (case versioned_hashes sidecar of
                    Some hashes \<Rightarrow>
                      if length hashes > unat LOAD_MAX_BLOB_COUNT
                      then Inl (InvalidParams (too_many_hashes_message (length hashes)))
                      else Inr ()
                  | None \<Rightarrow> Inr ()) (\<lambda>_.
           if \<not> prague_active \<and> sidecar_requests vlib sidecar \<noteq> None
           then Inl (InvalidParams (prague_inactive_message (data_timestamp payload)))
           else Inr ()))"

definition convert_payload_to_block ::
  "'c spec_lib \<Rightarrow> ('ver, 'v, 'p, 'b) validator_lib \<Rightarrow> 'c load_engine_validator \<Rightarrow>
   load_execution_data \<Rightarrow> ('v, 'p) new_payload_error + 'b" where
  "convert_payload_to_block lib vlib self payload =
     rbind (map_err NewPayloadOther (ensure_load_payload_invariants lib vlib self payload)) (\<lambda>_.
     map_err NewPayloadInner (eth_ensure_well_formed_payload vlib (led_inner payload)))"

text \<open>The PREVRANDAO check both attribute entry points make.\<close>

definition check_attributes_randao :: "b256 \<Rightarrow> 'v engine_object_error + unit" where
  "check_attributes_randao r =
     (if r \<noteq> LOAD_PREVRANDAO then Inl (InvalidParams RANDAO_MESSAGE) else Inr ())"

definition validate_version_specific_fields ::
  "'c spec_lib \<Rightarrow> ('ver, 'v, 'p, 'b) validator_lib \<Rightarrow> 'c load_engine_validator \<Rightarrow> 'ver \<Rightarrow>
   payload_or_attributes \<Rightarrow> 'v engine_object_error + unit" where
  "validate_version_specific_fields lib vlib self version payload_or_attrs =
     rbind (case payload_or_attrs of
              ExecutionPayloadCase payload \<Rightarrow> ensure_load_payload_invariants lib vlib self payload
            | PayloadAttributesCase attrs \<Rightarrow> Inr ()) (\<lambda>_.
     rbind (case payload_or_attrs of
              PayloadAttributesCase attrs \<Rightarrow> check_attributes_randao (attributes_prev_randao attrs)
            | ExecutionPayloadCase payload \<Rightarrow> Inr ()) (\<lambda>_.
     eth_validate_version_specific_fields vlib version payload_or_attrs))"

definition ensure_well_formed_attributes ::
  "('ver, 'v, 'p, 'b) validator_lib \<Rightarrow> 'ver \<Rightarrow> load_payload_attributes \<Rightarrow>
   'v engine_object_error + unit" where
  "ensure_well_formed_attributes vlib version attributes =
     rbind (check_attributes_randao (attributes_prev_randao attributes)) (\<lambda>_.
     eth_validate_version_specific_fields vlib version (PayloadAttributesCase attributes))"

interpretation validator_randao:
  randao_guard "check_attributes_randao :: b256 \<Rightarrow> 'v engine_object_error + unit"
  by unfold_locales (simp add: check_attributes_randao_def)

subsection \<open>The Load invariants of a payload\<close>

definition load_payload_ok ::
  "'c spec_lib \<Rightarrow> ('ver, 'v, 'p, 'b) validator_lib \<Rightarrow> 'c load_chain_spec \<Rightarrow> load_execution_data \<Rightarrow> bool"
  where
  "load_payload_ok lib vlib spec payload \<longleftrightarrow>
     data_prev_randao payload = LOAD_PREVRANDAO \<and>
     (case versioned_hashes (ed_sidecar (led_inner payload)) of
        Some hashes \<Rightarrow> length hashes \<le> 1024 | None \<Rightarrow> True) \<and>
     (is_active_at_timestamp lib spec Prague (data_timestamp payload) \<or>
      sidecar_requests vlib (ed_sidecar (led_inner payload)) = None)"

lemma ensure_load_payload_invariants_ok:
  "ensure_load_payload_invariants lib vlib self payload = Inr () \<longleftrightarrow>
   load_payload_ok lib vlib (val_chain_spec self) payload"
  by (auto simp: ensure_load_payload_invariants_def load_payload_ok_def Let_def not_less
      split: option.splits if_splits)

lemma ensure_load_payload_invariants_err:
  "ensure_load_payload_invariants lib vlib self payload = Inl e \<Longrightarrow> \<exists>m. e = InvalidParams m"
  by (auto simp: ensure_load_payload_invariants_def Let_def rbind_eq_Inl
      split: option.splits if_splits)

lemma ensure_load_payload_invariants_requests:
  "sidecar_requests vlib1 = sidecar_requests vlib2 \<Longrightarrow>
   ensure_load_payload_invariants lib vlib1 self payload =
     ensure_load_payload_invariants lib vlib2 self payload"
  by (simp only: ensure_load_payload_invariants_def)

lemma rejected_payload:
  "\<not> load_payload_ok lib vlib (val_chain_spec self) payload \<Longrightarrow>
   \<exists>m. ensure_load_payload_invariants lib vlib self payload = Inl (InvalidParams m)"
  using ensure_load_payload_invariants_ok [of lib vlib self payload]
    ensure_load_payload_invariants_err [of lib vlib self payload]
  by (cases "ensure_load_payload_invariants lib vlib self payload") auto

lemma load_payload_ok_from_genesis:
  assumes "spec_lib_laws lib" and "from_genesis lib g = Inr s"
  shows "load_payload_ok lib vlib s payload \<longleftrightarrow>
    data_prev_randao payload = LOAD_PREVRANDAO \<and>
    (case versioned_hashes (ed_sidecar (led_inner payload)) of
       Some hashes \<Rightarrow> length hashes \<le> 1024 | None \<Rightarrow> True)"
  by (simp add: load_payload_ok_def from_genesis_active [OF assms])

subsection \<open>Properties\<close>

text \<open>C22. Both entry points for payloads accept exactly the payloads that satisfy the Load
  invariants (PREVRANDAO constant, at most 1024 versioned hashes, no execution requests before
  Prague) and pass the upstream check of that entry point.\<close>

theorem payload_entry_points:
  "(is_ok (convert_payload_to_block lib vlib self payload) \<longleftrightarrow>
      load_payload_ok lib vlib (val_chain_spec self) payload \<and>
      is_ok (eth_ensure_well_formed_payload vlib (led_inner payload))) \<and>
   (is_ok (validate_version_specific_fields lib vlib self version (ExecutionPayloadCase payload)) \<longleftrightarrow>
      load_payload_ok lib vlib (val_chain_spec self) payload \<and>
      is_ok (eth_validate_version_specific_fields vlib version (ExecutionPayloadCase payload)))"
  by (auto simp: is_ok_iff convert_payload_to_block_def validate_version_specific_fields_def
      rbind_eq_Inr map_err_eq_Inr ensure_load_payload_invariants_ok)

text \<open>A payload that violates a Load invariant is rejected with the same invalid-parameters
  error by both entry points, before any upstream check: the outcome is the same for every
  upstream well-formedness and version check.\<close>

lemma bad_payload_rejected_alike:
  assumes "\<not> load_payload_ok lib vlib (val_chain_spec self) payload"
  shows "\<exists>m. \<forall>wellf vers.
    convert_payload_to_block lib (vlib\<lparr>eth_ensure_well_formed_payload := wellf\<rparr>) self payload =
      Inl (NewPayloadOther (InvalidParams m)) \<and>
    validate_version_specific_fields lib (vlib\<lparr>eth_validate_version_specific_fields := vers\<rparr>) self
      version (ExecutionPayloadCase payload) = Inl (InvalidParams m)"
proof -
  obtain m where m: "ensure_load_payload_invariants lib vlib self payload = Inl (InvalidParams m)"
    using rejected_payload [OF assms] by blast
  have "ensure_load_payload_invariants lib (vlib\<lparr>eth_ensure_well_formed_payload := wellf\<rparr>) self payload =
      Inl (InvalidParams m)" for wellf
    unfolding m [symmetric] by (rule ensure_load_payload_invariants_requests) simp
  moreover have "ensure_load_payload_invariants lib
      (vlib\<lparr>eth_validate_version_specific_fields := vers\<rparr>) self payload = Inl (InvalidParams m)" for vers
    unfolding m [symmetric] by (rule ensure_load_payload_invariants_requests) simp
  ultimately show ?thesis
    by (intro exI [of _ m] allI)
      (simp add: convert_payload_to_block_def validate_version_specific_fields_def)
qed

text \<open>The two entry points for payload attributes are the same check: the PREVRANDAO
  constant first, then the upstream version check.\<close>

lemma attributes_entry_points_equal:
  "ensure_well_formed_attributes vlib version attrs =
     validate_version_specific_fields lib vlib self version (PayloadAttributesCase attrs) \<and>
   (is_ok (ensure_well_formed_attributes vlib version attrs) \<longleftrightarrow>
     attributes_prev_randao attrs = LOAD_PREVRANDAO \<and>
     is_ok (eth_validate_version_specific_fields vlib version (PayloadAttributesCase attrs)))"
  by (auto simp: is_ok_iff ensure_well_formed_attributes_def validate_version_specific_fields_def
      validator_randao.guarded_ok)

text \<open>Instances.\<close>

definition example_validator_lib :: "(nat, unit, unit, unit) validator_lib" where
  "example_validator_lib = \<lparr>
     sidecar_requests = (\<lambda>s. case sc_prague s of Some (Requests rs) \<Rightarrow> Some rs | _ \<Rightarrow> None),
     eth_ensure_well_formed_payload = (\<lambda>d. Inr ()),
     eth_validate_version_specific_fields = (\<lambda>v x. Inr ())\<rparr>"

definition example_payload_v3 :: "b256 \<Rightarrow> payload_v3" where
  "example_payload_v3 randao = \<lparr>v3_payload_inner = \<lparr>v2_payload_inner =
     \<lparr>pl_parent_hash = B256_ZERO, pl_fee_recipient = ADDRESS_ZERO, pl_state_root = B256_ZERO,
      pl_receipts_root = B256_ZERO, pl_prev_randao = randao, pl_block_number = 1,
      pl_gas_limit = LOAD_EXECUTION_GAS_LIMIT, pl_gas_used = 0, pl_timestamp = 1,
      pl_extra_data = [], pl_base_fee_per_gas = 0, pl_block_hash = B256_ZERO,
      pl_transactions = []\<rparr>, v2_withdrawals = []\<rparr>,
     v3_blob_gas_used = 0, v3_excess_blob_gas = 0\<rparr>"

end
