(* ===== verification/Engine_Rpc.thy ===== *)
theory Engine_Rpc
  imports Validator Metrics
begin

section \<open>Engine API wrapper (\<open>src/engine/rpc.rs\<close>)\<close>

text \<open>
  \<open>LoadEngineApi\<close> wraps the upstream \<open>EngineApi\<close>: guards for blob counts and PREVRANDAO in
  front of the calls, latency and blob metrics behind them, and its own \<open>engine_getBlobs\<close>.
  The state of the wrapper is the state of everything upstream (engine, payload store, pool,
  network; the type \<open>'s\<close>) together with the metrics. The upstream methods are the fields of
  \<open>inner_api\<close>; a handler takes the state and returns a result and the new state. The clock
  reading and the elapsed time of a call are arguments. \<open>EngineApiError\<close> is kept as it is: its
  conversion to a JSON-RPC error object is upstream code.
\<close>

subsection \<open>Data\<close>

datatype 'x engine_api_error =
    BlobRequestTooLarge nat
  | EngineObjectValidationError "'x engine_object_error"
  | InternalError 'x

record forkchoice_state =
  head_block_hash :: b256
  safe_block_hash :: b256
  finalized_block_hash :: b256

datatype payload_status = StatusValid | StatusInvalid string | StatusSyncing | StatusAccepted

record forkchoice_updated =
  fcu_payload_status :: payload_status
  fcu_payload_id :: "bytes option"

record payload_body =
  body_transactions :: "bytes list"
  body_withdrawals :: "withdrawal list option"

type_synonym payload_bodies = "payload_body option list"

record blob_and_proof_v1 =
  bp1_blob :: bytes
  bp1_proof :: bytes

record blob_and_proof_v2 =
  bp2_blob :: bytes
  bp2_proofs :: "bytes list"

type_synonym ('s, 'e, 'a) api_call = "'s \<Rightarrow> ('e + 'a) \<times> 's"

text \<open>
  The upstream \<open>EngineApi\<close> with the pool and the network behind it: \<open>'s\<close> is their state,
  \<open>'x\<close> the payload of an upstream error, \<open>'env\<close> the envelopes of \<open>engine_getPayload\<close>, \<open>'k\<close>
  the type \<open>EngineCapabilities\<close>. Pool reads and \<open>is_syncing\<close> do not change the state.
\<close>

record ('s, 'x, 'env, 'k, 'c) inner_api =
  new_payload_v1_metered :: "load_execution_data \<Rightarrow> ('s, 'x engine_api_error, payload_status) api_call"
  new_payload_v2_metered :: "load_execution_data \<Rightarrow> ('s, 'x engine_api_error, payload_status) api_call"
  new_payload_v3_metered :: "load_execution_data \<Rightarrow> ('s, 'x engine_api_error, payload_status) api_call"
  new_payload_v4_metered :: "load_execution_data \<Rightarrow> ('s, 'x engine_api_error, payload_status) api_call"
  fork_choice_updated_v1_metered :: "forkchoice_state \<Rightarrow> load_payload_attributes option \<Rightarrow>
    ('s, 'x engine_api_error, forkchoice_updated) api_call"
  fork_choice_updated_v2_metered :: "forkchoice_state \<Rightarrow> load_payload_attributes option \<Rightarrow>
    ('s, 'x engine_api_error, forkchoice_updated) api_call"
  fork_choice_updated_v3_metered :: "forkchoice_state \<Rightarrow> load_payload_attributes option \<Rightarrow>
    ('s, 'x engine_api_error, forkchoice_updated) api_call"
  get_payload_v1_metered :: "bytes \<Rightarrow> ('s, 'x engine_api_error, 'env) api_call"
  get_payload_v2_metered :: "bytes \<Rightarrow> ('s, 'x engine_api_error, 'env) api_call"
  get_payload_v3_metered :: "bytes \<Rightarrow> ('s, 'x engine_api_error, 'env) api_call"
  get_payload_v4_metered :: "bytes \<Rightarrow> ('s, 'x engine_api_error, 'env) api_call"
  get_payload_v5_metered :: "bytes \<Rightarrow> ('s, 'x engine_api_error, 'env) api_call"
  bodies_by_hash_v1_metered :: "b256 list \<Rightarrow> ('s, 'x engine_api_error, payload_bodies) api_call"
  bodies_by_range_v1_metered :: "u64 \<Rightarrow> u64 \<Rightarrow> ('s, 'x engine_api_error, payload_bodies) api_call"
  inner_client_version_v1 :: "client_version_v1 \<Rightarrow> ('s, 'x engine_api_error, client_version_v1 list) api_call"
  inner_capabilities :: 'k
  add_capability :: "'k \<Rightarrow> string \<Rightarrow> 'k"
  list_capabilities :: "'k \<Rightarrow> string list"
  inner_chain_spec :: "'c load_chain_spec"
  pool_blobs_v1 :: "b256 list \<Rightarrow> 's \<Rightarrow> 'x + blob_and_proof_v1 option list"
  pool_blobs_v2 :: "b256 list \<Rightarrow> 's \<Rightarrow> 'x + blob_and_proof_v2 list option"
  pool_blobs_v3 :: "b256 list \<Rightarrow> 's \<Rightarrow> 'x + blob_and_proof_v2 option list"
  network_is_syncing :: "'s \<Rightarrow> bool"

text \<open>\<open>EngineCapabilities\<close> is a set of strings.\<close>

definition capabilities_law :: "('s, 'x, 'env, 'k, 'c) inner_api \<Rightarrow> bool" where
  "capabilities_law api \<longleftrightarrow>
     (\<forall>k c. set (list_capabilities api (add_capability api k c)) =
        insert c (set (list_capabilities api k)))"

record 's api_state =
  inner_state :: 's
  metrics :: load_engine_rpc_metrics

definition LOAD_CAP_BLOBS :: string where "LOAD_CAP_BLOBS = ''load.blobs.1024''"
definition LOAD_CAP_PREVRANDAO :: string where "LOAD_CAP_PREVRANDAO = ''load.prev_randao.0x01''"

subsection \<open>Guards\<close>

definition validate_blob_request :: "b256 list \<Rightarrow> 'x engine_api_error + unit" where
  "validate_blob_request hashes =
     (if length hashes > unat LOAD_MAX_BLOB_COUNT
      then Inl (BlobRequestTooLarge (length hashes)) else Inr ())"

definition ensure_load_prev_randao :: "b256 \<Rightarrow> 'x engine_api_error + unit" where
  "ensure_load_prev_randao prev_randao =
     (if prev_randao = LOAD_PREVRANDAO then Inr ()
      else Inl (EngineObjectValidationError (InvalidParams RANDAO_MESSAGE)))"

definition payload_v3_prev_randao :: "payload_v3 \<Rightarrow> b256" where
  "payload_v3_prev_randao payload = pl_prev_randao (v2_payload_inner (v3_payload_inner payload))"

interpretation rpc_randao:
  randao_guard "ensure_load_prev_randao :: b256 \<Rightarrow> 'x engine_api_error + unit"
  by unfold_locales (simp add: ensure_load_prev_randao_def)

lemma validate_blob_request_ok [guard_simps]:
  "validate_blob_request hs = Inr () \<longleftrightarrow> length hs \<le> 1024"
  by (simp add: validate_blob_request_def not_less)

lemma validate_blob_request_err [guard_simps]:
  "validate_blob_request hs = Inl e \<longleftrightarrow> 1024 < length hs \<and> e = BlobRequestTooLarge (length hs)"
  by (auto simp: validate_blob_request_def)

subsection \<open>Handlers\<close>

text \<open>
  \<open>rejecting\<close> is the early return of a guard; \<open>metered\<close> the shape
  \<open>let start = now(); let result = call.await?; metrics.record(start.elapsed()); Ok(result)\<close>.
\<close>

definition rejecting ::
  "'e + unit \<Rightarrow> ('s api_state \<Rightarrow> ('e + 'a) \<times> 's api_state) \<Rightarrow> 's api_state \<Rightarrow> ('e + 'a) \<times> 's api_state"
  where
  "rejecting guard body st = (case guard of Inl e \<Rightarrow> (Inl e, st) | Inr _ \<Rightarrow> body st)"

definition forward :: "('s, 'e, 'a) api_call \<Rightarrow> 's api_state \<Rightarrow> ('e + 'a) \<times> 's api_state" where
  "forward call st = (case call (inner_state st) of (r, s) \<Rightarrow> (r, st\<lparr>inner_state := s\<rparr>))"

definition metered ::
  "(duration \<Rightarrow> load_engine_rpc_metrics \<Rightarrow> load_engine_rpc_metrics) \<Rightarrow> duration \<Rightarrow>
   ('s, 'e, 'a) api_call \<Rightarrow> 's api_state \<Rightarrow> ('e + 'a) \<times> 's api_state" where
  "metered record_metric elapsed call st =
     (case forward call st of
        (Inl e, st1) \<Rightarrow> (Inl e, st1)
      | (Inr result, st1) \<Rightarrow> (Inr result, st1\<lparr>metrics := record_metric elapsed (metrics st1)\<rparr>))"

definition rpc_new_payload_v1 where
  "rpc_new_payload_v1 api elapsed payload =
     metered record_new_payload elapsed (new_payload_v1_metered api (data_from_v1 payload))"

definition rpc_new_payload_v2 where
  "rpc_new_payload_v2 api elapsed payload =
     metered record_new_payload elapsed (new_payload_v2_metered api (data_from_input_v2 payload))"

definition rpc_new_payload_v3 where
  "rpc_new_payload_v3 api elapsed payload hashes parent_beacon_block_root =
     rejecting (validate_blob_request hashes)
       (rejecting (ensure_load_prev_randao (payload_v3_prev_randao payload))
         (metered record_new_payload elapsed
           (new_payload_v3_metered api (data_v3 payload hashes parent_beacon_block_root))))"

definition rpc_new_payload_v4 where
  "rpc_new_payload_v4 api elapsed payload hashes parent_beacon_block_root execution_requests =
     rejecting (validate_blob_request hashes)
       (rejecting (ensure_load_prev_randao (payload_v3_prev_randao payload))
         (metered record_new_payload elapsed
           (new_payload_v4_metered api
             (data_v4 payload hashes parent_beacon_block_root execution_requests))))"

definition rpc_fork_choice_updated_v1 where
  "rpc_fork_choice_updated_v1 api elapsed fork_choice_state payload_attributes =
     metered record_forkchoice elapsed
       (fork_choice_updated_v1_metered api fork_choice_state payload_attributes)"

definition rpc_fork_choice_updated_v2 where
  "rpc_fork_choice_updated_v2 api elapsed fork_choice_state payload_attributes =
     metered record_forkchoice elapsed
       (fork_choice_updated_v2_metered api fork_choice_state payload_attributes)"

definition check_optional_attributes :: "load_payload_attributes option \<Rightarrow> 'x engine_api_error + unit"
  where
  "check_optional_attributes payload_attributes =
     (case payload_attributes of
        Some attrs \<Rightarrow> ensure_load_prev_randao (attributes_prev_randao attrs)
      | None \<Rightarrow> Inr ())"

definition rpc_fork_choice_updated_v3 where
  "rpc_fork_choice_updated_v3 api elapsed fork_choice_state payload_attributes =
     rejecting (check_optional_attributes payload_attributes)
       (metered record_forkchoice elapsed
         (fork_choice_updated_v3_metered api fork_choice_state payload_attributes))"

definition rpc_get_payload_v1 where
  "rpc_get_payload_v1 api elapsed payload_id =
     metered record_get_payload elapsed (get_payload_v1_metered api payload_id)"

definition rpc_get_payload_v2 where
  "rpc_get_payload_v2 api elapsed payload_id =
     metered record_get_payload elapsed (get_payload_v2_metered api payload_id)"

definition rpc_get_payload_v3 where
  "rpc_get_payload_v3 api elapsed payload_id =
     metered record_get_payload elapsed (get_payload_v3_metered api payload_id)"

definition rpc_get_payload_v4 where
  "rpc_get_payload_v4 api elapsed payload_id =
     metered record_get_payload elapsed (get_payload_v4_metered api payload_id)"

definition rpc_get_payload_v5 where
  "rpc_get_payload_v5 api elapsed payload_id =
     metered record_get_payload elapsed (get_payload_v5_metered api payload_id)"

definition rpc_bodies_by_hash_v1 where
  "rpc_bodies_by_hash_v1 api hashes = forward (bodies_by_hash_v1_metered api hashes)"

definition rpc_bodies_by_range_v1 where
  "rpc_bodies_by_range_v1 api start count = forward (bodies_by_range_v1_metered api start count)"

definition rpc_client_version_v1 where
  "rpc_client_version_v1 api build client_version st =
     (case forward (inner_client_version_v1 api client_version) st of
        (Inl e, st1) \<Rightarrow> (Inl e, st1)
      | (Inr versions, st1) \<Rightarrow> (Inr (versions @ [load_client_version_entry build]), st1))"

definition rpc_exchange_capabilities where
  "rpc_exchange_capabilities api build capabilities =
     (let caps = add_capability api
                   (add_capability api
                     (add_capability api (inner_capabilities api) LOAD_CAP_BLOBS)
                     LOAD_CAP_PREVRANDAO)
                   (load_client_version_string (CARGO_PKG_VERSION build) (VERGEN_GIT_SHA_SHORT build))
      in list_capabilities api (fold (\<lambda>cap caps. add_capability api caps cap) capabilities caps))"

text \<open>\<open>duration_since(UNIX_EPOCH).unwrap_or_default()\<close>: a clock before the epoch reads as 0.\<close>

definition unix_secs :: "u64 option \<Rightarrow> u64" where
  "unix_secs clock = (case clock of Some s \<Rightarrow> s | None \<Rightarrow> 0)"

definition count_hits :: "'a option list \<Rightarrow> u64" where
  "count_hits blobs = of_nat (length (filter (\<lambda>entry. entry \<noteq> None) blobs))"

definition check_osaka ::
  "'c spec_lib \<Rightarrow> ('s, 'x, 'env, 'k, 'c) inner_api \<Rightarrow> u64 option \<Rightarrow> 'x engine_api_error + unit" where
  "check_osaka lib api clock =
     (if \<not> is_active_at_timestamp lib (inner_chain_spec api) Osaka (unix_secs clock)
      then Inl (EngineObjectValidationError UnsupportedFork) else Inr ())"

definition rpc_get_blobs_v1 where
  "rpc_get_blobs_v1 api hashes =
     rejecting (validate_blob_request hashes) (\<lambda>st.
       case pool_blobs_v1 api hashes (inner_state st) of
         Inl err \<Rightarrow> (Inl (InternalError err), st)
       | Inr blobs \<Rightarrow>
           let hits = count_hits blobs;
               misses = vlen blobs - hits
           in (Inr blobs, st\<lparr>metrics := record_get_blobs hits misses (metrics st)\<rparr>))"

definition rpc_get_blobs_v2 where
  "rpc_get_blobs_v2 lib api clock hashes =
     rejecting (check_osaka lib api clock)
       (rejecting (validate_blob_request hashes) (\<lambda>st.
         case pool_blobs_v2 api hashes (inner_state st) of
           Inl err \<Rightarrow> (Inl (InternalError err), st)
         | Inr blobs \<Rightarrow>
             (case blobs of
                Some entries \<Rightarrow>
                  let hits = vlen entries;
                      misses = vlen hashes - hits
                  in (Inr blobs, st\<lparr>metrics := record_get_blobs hits misses (metrics st)\<rparr>)
              | None \<Rightarrow>
                  (Inr blobs, st\<lparr>metrics := record_get_blobs 0 (vlen hashes) (metrics st)\<rparr>))))"

definition rpc_get_blobs_v3 where
  "rpc_get_blobs_v3 lib api clock hashes =
     rejecting (check_osaka lib api clock)
       (rejecting (validate_blob_request hashes) (\<lambda>st.
         if network_is_syncing api (inner_state st) then (Inr None, st)
         else
           case pool_blobs_v3 api hashes (inner_state st) of
             Inl err \<Rightarrow> (Inl (InternalError err), st)
           | Inr blobs \<Rightarrow>
               let hits = count_hits blobs;
                   misses = vlen blobs - hits
               in (Inr (Some blobs), st\<lparr>metrics := record_get_blobs hits misses (metrics st)\<rparr>)))"

subsection \<open>Lemmas on the combinators\<close>

lemma rejecting_Inl [simp]: "rejecting (Inl e) body st = (Inl e, st)"
  by (simp add: rejecting_def)

lemma rejecting_Inr [simp]: "rejecting (Inr u) body st = body st"
  by (simp add: rejecting_def)

lemma rejecting_ok: "rejecting g body st = (Inr a, st') \<longleftrightarrow> g = Inr () \<and> body st = (Inr a, st')"
  by (cases g) simp_all

lemma forward_metrics [simp]: "metrics (snd (forward call st)) = metrics st"
  by (simp add: forward_def split: prod.splits)

lemma forward_inner [simp]: "inner_state (snd (forward call st)) = snd (call (inner_state st))"
  by (simp add: forward_def split: prod.splits)

lemma forward_result [simp]: "fst (forward call st) = fst (call (inner_state st))"
  by (simp add: forward_def split: prod.splits)

lemma metered_inner [simp]: "inner_state (snd (metered f d call st)) = snd (call (inner_state st))"
  by (simp add: metered_def forward_def split: prod.splits sum.splits)

lemma metered_result [simp]: "fst (metered f d call st) = fst (call (inner_state st))"
  by (simp add: metered_def forward_def split: prod.splits sum.splits)

lemma metered_metrics [simp]:
  "metrics (snd (metered f d call st)) =
     (if is_ok (fst (call (inner_state st))) then f d (metrics st) else metrics st)"
  by (simp add: metered_def forward_def split: prod.splits sum.splits)

text \<open>
  The contract of a guarded handler: a request the guard refuses is answered with the guard's
  error and changes nothing; every other request is answered by the body.
\<close>

locale guarded_handler =
  fixes handler :: "'i \<Rightarrow> 's api_state \<Rightarrow> ('e + 'a) \<times> 's api_state"
    and guard :: "'i \<Rightarrow> 'e + unit"
    and body :: "'i \<Rightarrow> 's api_state \<Rightarrow> ('e + 'a) \<times> 's api_state"
  assumes guarded: "handler i st = rejecting (guard i) (body i) st"
begin

lemma refused: "guard i = Inl e \<Longrightarrow> handler i st = (Inl e, st)"
  by (simp add: guarded)

lemma passed: "guard i = Inr u \<Longrightarrow> handler i st = body i st"
  by (simp add: guarded)

lemma ok_passed: "is_ok (fst (handler i st)) \<Longrightarrow> guard i = Inr ()"
  by (cases "guard i") (simp_all add: guarded)

lemma changed_passed: "snd (handler i st) \<noteq> st \<Longrightarrow> guard i = Inr ()"
  by (cases "guard i") (simp_all add: guarded)

lemma preserves:
  "P st \<Longrightarrow> (guard i = Inr () \<Longrightarrow> P (snd (body i st))) \<Longrightarrow> P (snd (handler i st))"
  by (cases "guard i") (simp_all add: guarded)

end

text \<open>The guard of \<open>newPayloadV3/V4\<close>: the blob count first, then PREVRANDAO.\<close>

definition new_payload_guard :: "payload_v3 \<Rightarrow> b256 list \<Rightarrow> 'x engine_api_error + unit" where
  "new_payload_guard payload hashes =
     rbind (validate_blob_request hashes) (\<lambda>_. ensure_load_prev_randao (payload_v3_prev_randao payload))"

lemma new_payload_guard_ok [guard_simps]:
  "new_payload_guard p hs = Inr () \<longleftrightarrow> length hs \<le> 1024 \<and> payload_v3_prev_randao p = LOAD_PREVRANDAO"
  by (simp add: new_payload_guard_def rbind_eq_Inr validate_blob_request_ok rpc_randao.accepts_iff)

lemma rejecting_rejecting:
  "rejecting g (rejecting h body) st = rejecting (rbind g (\<lambda>_. h)) body st"
  by (cases g) simp_all

interpretation new_payload_v3: guarded_handler
    "\<lambda>(payload, hashes, root). rpc_new_payload_v3 api elapsed payload hashes root"
    "\<lambda>(payload, hashes, root). new_payload_guard payload hashes"
    "\<lambda>(payload, hashes, root). metered record_new_payload elapsed
       (new_payload_v3_metered api (data_v3 payload hashes root))"
  by unfold_locales
    (simp add: rpc_new_payload_v3_def new_payload_guard_def rejecting_rejecting split: prod.splits)

interpretation new_payload_v4: guarded_handler
    "\<lambda>(payload, hashes, root, requests). rpc_new_payload_v4 api elapsed payload hashes root requests"
    "\<lambda>(payload, hashes, root, requests). new_payload_guard payload hashes"
    "\<lambda>(payload, hashes, root, requests). metered record_new_payload elapsed
       (new_payload_v4_metered api (data_v4 payload hashes root requests))"
  by unfold_locales
    (simp add: rpc_new_payload_v4_def new_payload_guard_def rejecting_rejecting split: prod.splits)

interpretation fork_choice_v3: guarded_handler
    "\<lambda>(fcs, attrs). rpc_fork_choice_updated_v3 api elapsed fcs attrs"
    "\<lambda>(fcs, attrs). check_optional_attributes attrs"
    "\<lambda>(fcs, attrs). metered record_forkchoice elapsed (fork_choice_updated_v3_metered api fcs attrs)"
  by unfold_locales (simp add: rpc_fork_choice_updated_v3_def split: prod.splits)

lemma check_optional_attributes_ok [guard_simps]:
  "check_optional_attributes attrs = Inr () \<longleftrightarrow>
   (case attrs of Some a \<Rightarrow> attributes_prev_randao a = LOAD_PREVRANDAO | None \<Rightarrow> True)"
  by (simp add: check_optional_attributes_def rpc_randao.accepts_iff split: option.splits)

text \<open>The bodies of \<open>engine_getBlobs\<close>: an answer records hits and misses and touches nothing else.\<close>

definition pool_law :: "('s, 'x, 'env, 'k, 'c) inner_api \<Rightarrow> bool" where
  "pool_law api \<longleftrightarrow>
     (\<forall>hs s bs. pool_blobs_v1 api hs s = Inr bs \<longrightarrow> length bs = length hs) \<and>
     (\<forall>hs s bs. pool_blobs_v2 api hs s = Inr (Some bs) \<longrightarrow> length bs = length hs) \<and>
     (\<forall>hs s bs. pool_blobs_v3 api hs s = Inr bs \<longrightarrow> length bs = length hs)"

definition found :: "'a option list \<Rightarrow> nat" where
  "found blobs = length (filter (\<lambda>e. e \<noteq> None) blobs)"

lemma found_le: "found bs \<le> length bs"
  by (simp add: found_def)

lemma unat_of_nat_diff:
  assumes "h \<le> n" and "n \<le> 1024"
  shows "unat (of_nat h :: u64) = h \<and> unat (of_nat n - of_nat h :: u64) = n - h"
proof -
  have "unat (of_nat h :: u64) = h" "unat (of_nat n :: u64) = n"
    using assms by (simp_all add: unat_of_nat)
  with assms show ?thesis by (simp add: unat_sub word_le_nat_alt)
qed

lemma check_osaka_ok [guard_simps]:
  "check_osaka lib api clock = Inr () \<longleftrightarrow>
   is_active_at_timestamp lib (inner_chain_spec api) Osaka (unix_secs clock)"
  by (simp add: check_osaka_def)

definition osaka_blobs_guard ::
  "'c spec_lib \<Rightarrow> ('s, 'x, 'env, 'k, 'c) inner_api \<Rightarrow> u64 option \<Rightarrow> b256 list \<Rightarrow>
   'x engine_api_error + unit" where
  "osaka_blobs_guard lib api clock hs =
     rbind (check_osaka lib api clock) (\<lambda>_. validate_blob_request hs)"

lemma osaka_blobs_guard_ok [guard_simps]:
  "osaka_blobs_guard lib api clock hs = Inr () \<longleftrightarrow>
   is_active_at_timestamp lib (inner_chain_spec api) Osaka (unix_secs clock) \<and> length hs \<le> 1024"
  by (simp add: osaka_blobs_guard_def rbind_eq_Inr guard_simps)

lemma get_blobs_v1_ok:
  "rpc_get_blobs_v1 api hs st = (Inr bs, st') \<longleftrightarrow>
   length hs \<le> 1024 \<and> pool_blobs_v1 api hs (inner_state st) = Inr bs \<and>
   st' = st\<lparr>metrics := record_get_blobs (of_nat (found bs)) (of_nat (length bs) - of_nat (found bs)) (metrics st)\<rparr>"
  by (auto simp: rpc_get_blobs_v1_def rejecting_ok validate_blob_request_ok Let_def count_hits_def
      found_def vlen_def split: sum.splits)

lemma get_blobs_v2_ok:
  "rpc_get_blobs_v2 lib api clock hs st = (Inr bs, st') \<longleftrightarrow>
   is_active_at_timestamp lib (inner_chain_spec api) Osaka (unix_secs clock) \<and> length hs \<le> 1024 \<and>
   pool_blobs_v2 api hs (inner_state st) = Inr bs \<and>
   st' = st\<lparr>metrics := (case bs of
       Some es \<Rightarrow> record_get_blobs (of_nat (length es)) (of_nat (length hs) - of_nat (length es)) (metrics st)
     | None \<Rightarrow> record_get_blobs 0 (of_nat (length hs)) (metrics st))\<rparr>"
  by (simp only: rpc_get_blobs_v2_def rejecting_ok validate_blob_request_ok check_osaka_ok)
    (auto simp: Let_def vlen_def split: sum.splits option.splits)

lemma get_blobs_v3_ok:
  "rpc_get_blobs_v3 lib api clock hs st = (Inr bs, st') \<longleftrightarrow>
   is_active_at_timestamp lib (inner_chain_spec api) Osaka (unix_secs clock) \<and> length hs \<le> 1024 \<and>
   (if network_is_syncing api (inner_state st) then bs = None \<and> st' = st
    else \<exists>es. pool_blobs_v3 api hs (inner_state st) = Inr es \<and> bs = Some es \<and>
      st' = st\<lparr>metrics := record_get_blobs (of_nat (found es)) (of_nat (length es) - of_nat (found es)) (metrics st)\<rparr>)"
  by (simp only: rpc_get_blobs_v3_def rejecting_ok validate_blob_request_ok check_osaka_ok)
    (auto simp: Let_def vlen_def count_hits_def found_def split: sum.splits option.splits)

subsection \<open>Serving requests\<close>

text \<open>
  One constructor per method of \<open>EngineApiServer\<close>; \<open>serve\<close> is the dispatch to its handler. A
  session is a list of requests, each with the clock reading and the elapsed time of its call.
\<close>

datatype request =
    NewPayloadV1 payload_v1
  | NewPayloadV2 execution_payload
  | NewPayloadV3 payload_v3 "b256 list" b256
  | NewPayloadV4 payload_v3 "b256 list" b256 requests_or_hash
  | ForkchoiceUpdatedV1 forkchoice_state "load_payload_attributes option"
  | ForkchoiceUpdatedV2 forkchoice_state "load_payload_attributes option"
  | ForkchoiceUpdatedV3 forkchoice_state "load_payload_attributes option"
  | GetPayloadV1 bytes
  | GetPayloadV2 bytes
  | GetPayloadV3 bytes
  | GetPayloadV4 bytes
  | GetPayloadV5 bytes
  | BodiesByHashV1 "b256 list"
  | BodiesByRangeV1 u64 u64
  | GetClientVersionV1 client_version_v1
  | ExchangeCapabilities "string list"
  | GetBlobsV1 "b256 list"
  | GetBlobsV2 "b256 list"
  | GetBlobsV3 "b256 list"

datatype 'env response =
    PayloadStatusReply payload_status
  | ForkchoiceReply forkchoice_updated
  | EnvelopeReply 'env
  | BodiesReply payload_bodies
  | VersionsReply "client_version_v1 list"
  | CapabilitiesReply "string list"
  | BlobsV1Reply "blob_and_proof_v1 option list"
  | BlobsV2Reply "blob_and_proof_v2 list option"
  | BlobsV3Reply "blob_and_proof_v2 option list option"

definition reply :: "('a \<Rightarrow> 'b) \<Rightarrow> ('e + 'a) \<times> 's \<Rightarrow> ('e + 'b) \<times> 's" where
  "reply f r = (map_sum id f (fst r), snd r)"

record 'c rpc_context =
  ctx_lib :: "'c spec_lib"
  ctx_build :: build_env

fun serve ::
  "'c rpc_context \<Rightarrow> ('s, 'x, 'env, 'k, 'c) inner_api \<Rightarrow> u64 option \<Rightarrow> duration \<Rightarrow> request \<Rightarrow>
   's api_state \<Rightarrow> ('x engine_api_error + 'env response) \<times> 's api_state" where
  "serve ctx api clock d (NewPayloadV1 p) st =
     reply PayloadStatusReply (rpc_new_payload_v1 api d p st)"
| "serve ctx api clock d (NewPayloadV2 p) st =
     reply PayloadStatusReply (rpc_new_payload_v2 api d p st)"
| "serve ctx api clock d (NewPayloadV3 p hs root) st =
     reply PayloadStatusReply (rpc_new_payload_v3 api d p hs root st)"
| "serve ctx api clock d (NewPayloadV4 p hs root reqs) st =
     reply PayloadStatusReply (rpc_new_payload_v4 api d p hs root reqs st)"
| "serve ctx api clock d (ForkchoiceUpdatedV1 f a) st =
     reply ForkchoiceReply (rpc_fork_choice_updated_v1 api d f a st)"
| "serve ctx api clock d (ForkchoiceUpdatedV2 f a) st =
     reply ForkchoiceReply (rpc_fork_choice_updated_v2 api d f a st)"
| "serve ctx api clock d (ForkchoiceUpdatedV3 f a) st =
     reply ForkchoiceReply (rpc_fork_choice_updated_v3 api d f a st)"
| "serve ctx api clock d (GetPayloadV1 i) st = reply EnvelopeReply (rpc_get_payload_v1 api d i st)"
| "serve ctx api clock d (GetPayloadV2 i) st = reply EnvelopeReply (rpc_get_payload_v2 api d i st)"
| "serve ctx api clock d (GetPayloadV3 i) st = reply EnvelopeReply (rpc_get_payload_v3 api d i st)"
| "serve ctx api clock d (GetPayloadV4 i) st = reply EnvelopeReply (rpc_get_payload_v4 api d i st)"
| "serve ctx api clock d (GetPayloadV5 i) st = reply EnvelopeReply (rpc_get_payload_v5 api d i st)"
| "serve ctx api clock d (BodiesByHashV1 hs) st = reply BodiesReply (rpc_bodies_by_hash_v1 api hs st)"
| "serve ctx api clock d (BodiesByRangeV1 a n) st = reply BodiesReply (rpc_bodies_by_range_v1 api a n st)"
| "serve ctx api clock d (GetClientVersionV1 v) st =
     reply VersionsReply (rpc_client_version_v1 api (ctx_build ctx) v st)"
| "serve ctx api clock d (ExchangeCapabilities cs) st =
     (Inr (CapabilitiesReply (rpc_exchange_capabilities api (ctx_build ctx) cs)), st)"
| "serve ctx api clock d (GetBlobsV1 hs) st = reply BlobsV1Reply (rpc_get_blobs_v1 api hs st)"
| "serve ctx api clock d (GetBlobsV2 hs) st =
     reply BlobsV2Reply (rpc_get_blobs_v2 (ctx_lib ctx) api clock hs st)"
| "serve ctx api clock d (GetBlobsV3 hs) st =
     reply BlobsV3Reply (rpc_get_blobs_v3 (ctx_lib ctx) api clock hs st)"

fun run_session ::
  "'c rpc_context \<Rightarrow> ('s, 'x, 'env, 'k, 'c) inner_api \<Rightarrow> (u64 option \<times> duration \<times> request) list \<Rightarrow>
   's api_state \<Rightarrow> ('x engine_api_error + 'env response) list \<times> 's api_state" where
  "run_session ctx api [] st = ([], st)"
| "run_session ctx api ((clock, d, req) # reqs) st =
     (let (r, st1) = serve ctx api clock d req st;
          (rs, st2) = run_session ctx api reqs st1
      in (r # rs, st2))"

lemma run_session_snd:
  "snd (run_session ctx api ((clock, d, req) # reqs) st) =
     snd (run_session ctx api reqs (snd (serve ctx api clock d req st)))"
  by (simp add: Let_def split: prod.splits)

lemma reply_simps [simp]:
  "fst (reply f r) = map_sum id f (fst r)" "snd (reply f r) = snd r"
  "is_ok (map_sum id f x) = is_ok x"
  by (simp_all add: reply_def) (cases x; simp)

lemma map_sum_eq_Inr [simp]: "map_sum id f x = Inr b \<longleftrightarrow> (\<exists>a. x = Inr a \<and> b = f a)"
  by (cases x) auto

text \<open>Requests whose handler carries a guard, and what the guard lets through.\<close>

fun guarded_request :: "request \<Rightarrow> bool" where
  "guarded_request (NewPayloadV1 p) = False"
| "guarded_request (NewPayloadV2 p) = False"
| "guarded_request (ForkchoiceUpdatedV1 f a) = False"
| "guarded_request (ForkchoiceUpdatedV2 f a) = False"
| "guarded_request req = True"

definition admitted_data :: "load_execution_data \<Rightarrow> bool" where
  "admitted_data d \<longleftrightarrow> data_prev_randao d = LOAD_PREVRANDAO \<and>
     (\<exists>hs. versioned_hashes (ed_sidecar (led_inner d)) = Some hs \<and> length hs \<le> 1024)"

definition admitted_attributes :: "load_payload_attributes option \<Rightarrow> bool" where
  "admitted_attributes attrs \<longleftrightarrow>
     (case attrs of Some a \<Rightarrow> attributes_prev_randao a = LOAD_PREVRANDAO | None \<Rightarrow> True)"

text \<open>
  \<open>inner_keeps I api\<close>: the upstream calls keep \<open>I\<close> as long as they are only handed data and
  attributes that satisfy the Load rules.
\<close>

definition method_keeps :: "('s \<Rightarrow> bool) \<Rightarrow> ('s, 'e, 'a) api_call \<Rightarrow> bool" where
  "method_keeps I call \<longleftrightarrow> (\<forall>s. I s \<longrightarrow> I (snd (call s)))"

definition inner_keeps :: "('s \<Rightarrow> bool) \<Rightarrow> ('s, 'x, 'env, 'k, 'c) inner_api \<Rightarrow> bool" where
  "inner_keeps I api \<longleftrightarrow>
     (\<forall>d. admitted_data d \<longrightarrow> method_keeps I (new_payload_v3_metered api d) \<and>
        method_keeps I (new_payload_v4_metered api d)) \<and>
     (\<forall>f a. admitted_attributes a \<longrightarrow> method_keeps I (fork_choice_updated_v3_metered api f a)) \<and>
     (\<forall>i. method_keeps I (get_payload_v1_metered api i) \<and> method_keeps I (get_payload_v2_metered api i) \<and>
        method_keeps I (get_payload_v3_metered api i) \<and> method_keeps I (get_payload_v4_metered api i) \<and>
        method_keeps I (get_payload_v5_metered api i)) \<and>
     (\<forall>hs. method_keeps I (bodies_by_hash_v1_metered api hs)) \<and>
     (\<forall>a n. method_keeps I (bodies_by_range_v1_metered api a n)) \<and>
     (\<forall>v. method_keeps I (inner_client_version_v1 api v))"

lemma admitted_by_guard:
  assumes "new_payload_guard p hs = (Inr () :: 'x engine_api_error + unit)"
  shows "admitted_data (data_v3 p hs root)" "admitted_data (data_v4 p hs root reqs)"
  using assms by (auto simp: new_payload_guard_ok admitted_data_def data_defs payload_v3_prev_randao_def)

lemma client_version_inner [simp]:
  "inner_state (snd (rpc_client_version_v1 api b v st)) =
     snd (inner_client_version_v1 api v (inner_state st))"
  by (simp add: rpc_client_version_v1_def forward_def split: prod.splits sum.splits)

lemma client_version_metrics [simp]:
  "metrics (snd (rpc_client_version_v1 api b v st)) = metrics st"
  by (simp add: rpc_client_version_v1_def forward_def split: prod.splits sum.splits)

lemma rejecting_frame:
  "(\<And>st. inner_state (snd (body st)) = inner_state st) \<Longrightarrow>
   inner_state (snd (rejecting g body st)) = inner_state st"
  by (cases g) simp_all

lemma get_blobs_inner [simp]:
  "inner_state (snd (rpc_get_blobs_v1 api hs st)) = inner_state st"
  "inner_state (snd (rpc_get_blobs_v2 lib api clock hs st)) = inner_state st"
  "inner_state (snd (rpc_get_blobs_v3 lib api clock hs st)) = inner_state st"
  unfolding rpc_get_blobs_v1_def rpc_get_blobs_v2_def rpc_get_blobs_v3_def
  by (intro rejecting_frame; simp add: Let_def split: sum.split option.split)+

lemmas unguarded_defs = rpc_new_payload_v1_def rpc_new_payload_v2_def
  rpc_fork_choice_updated_v1_def rpc_fork_choice_updated_v2_def rpc_get_payload_v1_def
  rpc_get_payload_v2_def rpc_get_payload_v3_def rpc_get_payload_v4_def rpc_get_payload_v5_def
  rpc_bodies_by_hash_v1_def rpc_bodies_by_range_v1_def

lemma serve_keeps:
  assumes keeps: "inner_keeps I api" and I: "I (inner_state st)" and g: "guarded_request req"
  shows "I (inner_state (snd (serve ctx api clock d req st)))"
proof (cases req)
  case (NewPayloadV3 p hs root)
  from keeps I show ?thesis unfolding NewPayloadV3
    using new_payload_v3.preserves [of "\<lambda>st. I (inner_state st)" st "(p, hs, root)" d api]
    by (simp add: inner_keeps_def method_keeps_def admitted_by_guard)
next
  case (NewPayloadV4 p hs root reqs)
  from keeps I show ?thesis unfolding NewPayloadV4
    using new_payload_v4.preserves [of "\<lambda>st. I (inner_state st)" st "(p, hs, root, reqs)" d api]
    by (simp add: inner_keeps_def method_keeps_def admitted_by_guard)
next
  case (ForkchoiceUpdatedV3 f a)
  from keeps I show ?thesis unfolding ForkchoiceUpdatedV3
    using fork_choice_v3.preserves [of "\<lambda>st. I (inner_state st)" st "(f, a)" d api]
    by (simp add: inner_keeps_def method_keeps_def admitted_attributes_def guard_simps)
qed (use assms in \<open>simp_all add: unguarded_defs inner_keeps_def method_keeps_def\<close>)

text \<open>Which requests a metric counts, and what an answer to \<open>engine_getBlobs\<close> found.\<close>

fun new_payload_request :: "request \<Rightarrow> bool" where
  "new_payload_request (NewPayloadV1 p) = True"
| "new_payload_request (NewPayloadV2 p) = True"
| "new_payload_request (NewPayloadV3 p hs r) = True"
| "new_payload_request (NewPayloadV4 p hs r rs) = True"
| "new_payload_request req = False"

fun forkchoice_request :: "request \<Rightarrow> bool" where
  "forkchoice_request (ForkchoiceUpdatedV1 f a) = True"
| "forkchoice_request (ForkchoiceUpdatedV2 f a) = True"
| "forkchoice_request (ForkchoiceUpdatedV3 f a) = True"
| "forkchoice_request req = False"

fun get_payload_request :: "request \<Rightarrow> bool" where
  "get_payload_request (GetPayloadV1 i) = True"
| "get_payload_request (GetPayloadV2 i) = True"
| "get_payload_request (GetPayloadV3 i) = True"
| "get_payload_request (GetPayloadV4 i) = True"
| "get_payload_request (GetPayloadV5 i) = True"
| "get_payload_request req = False"

fun requested_hashes :: "request \<Rightarrow> b256 list" where
  "requested_hashes (GetBlobsV1 hs) = hs"
| "requested_hashes (GetBlobsV2 hs) = hs"
| "requested_hashes (GetBlobsV3 hs) = hs"
| "requested_hashes req = []"

fun blobs_found :: "'env response \<Rightarrow> nat option" where
  "blobs_found (BlobsV1Reply bs) = Some (found bs)"
| "blobs_found (BlobsV2Reply bs) = Some (case bs of Some es \<Rightarrow> length es | None \<Rightarrow> 0)"
| "blobs_found (BlobsV3Reply (Some bs)) = Some (found bs)"
| "blobs_found r = None"

definition answered_blobs :: "'x engine_api_error + 'env response \<Rightarrow> bool" where
  "answered_blobs r \<longleftrightarrow> (case r of Inr a \<Rightarrow> blobs_found a \<noteq> None | Inl e \<Rightarrow> False)"

definition tick :: "bool \<Rightarrow> nat" where "tick b = (if b then 1 else 0)"

lemma record_sel [simp]:
  "new_payload_latency (record_new_payload d m) = d # new_payload_latency m"
  "forkchoice_latency (record_new_payload d m) = forkchoice_latency m"
  "get_payload_latency (record_new_payload d m) = get_payload_latency m"
  "get_blobs_requests (record_new_payload d m) = get_blobs_requests m"
  "new_payload_latency (record_forkchoice d m) = new_payload_latency m"
  "forkchoice_latency (record_forkchoice d m) = d # forkchoice_latency m"
  "get_payload_latency (record_forkchoice d m) = get_payload_latency m"
  "get_blobs_requests (record_forkchoice d m) = get_blobs_requests m"
  "new_payload_latency (record_get_payload d m) = new_payload_latency m"
  "forkchoice_latency (record_get_payload d m) = forkchoice_latency m"
  "get_payload_latency (record_get_payload d m) = d # get_payload_latency m"
  "get_blobs_requests (record_get_payload d m) = get_blobs_requests m"
  "new_payload_latency (record_get_blobs h n m) = new_payload_latency m"
  "forkchoice_latency (record_get_blobs h n m) = forkchoice_latency m"
  "get_payload_latency (record_get_blobs h n m) = get_payload_latency m"
  "get_blobs_requests (record_get_blobs h n m) = get_blobs_requests m + 1"
  by (simp_all add: record_defs)

definition latency_effect ::
  "bool \<Rightarrow> bool \<Rightarrow> bool \<Rightarrow> nat \<Rightarrow> load_engine_rpc_metrics \<Rightarrow> load_engine_rpc_metrics \<Rightarrow> bool" where
  "latency_effect np fc gp blobs m m' \<longleftrightarrow>
     length (new_payload_latency m') = length (new_payload_latency m) + tick np \<and>
     length (forkchoice_latency m') = length (forkchoice_latency m) + tick fc \<and>
     length (get_payload_latency m') = length (get_payload_latency m) + tick gp \<and>
     get_blobs_requests m' = get_blobs_requests m + of_nat blobs"

lemma latency_effect_metered:
  "latency_effect (is_ok (fst (metered record_new_payload d call st))) False False 0
     (metrics st) (metrics (snd (metered record_new_payload d call st)))"
  "latency_effect False (is_ok (fst (metered record_forkchoice d call st))) False 0
     (metrics st) (metrics (snd (metered record_forkchoice d call st)))"
  "latency_effect False False (is_ok (fst (metered record_get_payload d call st))) 0
     (metrics st) (metrics (snd (metered record_get_payload d call st)))"
  by (simp_all add: latency_effect_def tick_def)

lemma latency_effect_refl: "latency_effect False False False 0 m m"
  by (simp add: latency_effect_def tick_def)

lemma rejecting_effect:
  assumes "\<And>e. P (Inl e, st)" and "P (body st)"
  shows "P (rejecting g body st)"
  using assms by (cases g) simp_all

lemma get_blobs_effect:
  "latency_effect False False False (tick (is_ok (fst (rpc_get_blobs_v1 api hs st))))
     (metrics st) (metrics (snd (rpc_get_blobs_v1 api hs st)))"
  "latency_effect False False False (tick (is_ok (fst (rpc_get_blobs_v2 lib api clock hs st))))
     (metrics st) (metrics (snd (rpc_get_blobs_v2 lib api clock hs st)))"
  "latency_effect False False False
     (tick (\<exists>bs. fst (rpc_get_blobs_v3 lib api clock hs st) = Inr (Some bs)))
     (metrics st) (metrics (snd (rpc_get_blobs_v3 lib api clock hs st)))"
  unfolding rpc_get_blobs_v1_def rpc_get_blobs_v2_def rpc_get_blobs_v3_def
  by (rule rejecting_effect; (rule rejecting_effect)?;
      simp add: latency_effect_def tick_def Let_def split: sum.split option.split)+

lemma new_payload_effect:
  "latency_effect (is_ok (fst (rpc_new_payload_v3 api d p hs root st))) False False 0
     (metrics st) (metrics (snd (rpc_new_payload_v3 api d p hs root st)))"
  "latency_effect (is_ok (fst (rpc_new_payload_v4 api d p hs root reqs st))) False False 0
     (metrics st) (metrics (snd (rpc_new_payload_v4 api d p hs root reqs st)))"
  "latency_effect False (is_ok (fst (rpc_fork_choice_updated_v3 api d f a st))) False 0
     (metrics st) (metrics (snd (rpc_fork_choice_updated_v3 api d f a st)))"
  unfolding rpc_new_payload_v3_def rpc_new_payload_v4_def rpc_fork_choice_updated_v3_def
  by (rule rejecting_effect; (rule rejecting_effect)?; simp add: latency_effect_def tick_def)+

lemma answered_blobs_map:
  "answered_blobs (map_sum id f x) = (case x of Inl _ \<Rightarrow> False | Inr a \<Rightarrow> blobs_found (f a) \<noteq> None)"
  by (cases x) (simp_all add: answered_blobs_def)

lemma answered_blobs_reply [simp]:
  "\<not> answered_blobs (map_sum id PayloadStatusReply r)"
  "\<not> answered_blobs (map_sum id ForkchoiceReply r1)"
  "\<not> answered_blobs (map_sum id EnvelopeReply r2)"
  "\<not> answered_blobs (map_sum id BodiesReply r3)"
  "\<not> answered_blobs (map_sum id VersionsReply r4)"
  "answered_blobs (map_sum id BlobsV1Reply r5) = is_ok r5"
  "answered_blobs (map_sum id BlobsV2Reply r6) = is_ok r6"
  by (simp_all add: answered_blobs_map is_ok_iff split: sum.splits)

lemma answered_blobs_v3 [simp]:
  "answered_blobs (map_sum id BlobsV3Reply r) = (\<exists>bs. r = Inr (Some bs))"
proof (cases r)
  case (Inr a)
  then show ?thesis by (cases a) (simp_all add: answered_blobs_def)
qed (simp add: answered_blobs_def)

lemma serve_effect:
  "latency_effect (new_payload_request req \<and> is_ok (fst (serve ctx api clock d req st)))
     (forkchoice_request req \<and> is_ok (fst (serve ctx api clock d req st)))
     (get_payload_request req \<and> is_ok (fst (serve ctx api clock d req st)))
     (tick (answered_blobs (fst (serve ctx api clock d req st))))
     (metrics st) (metrics (snd (serve ctx api clock d req st)))"
proof (cases req)
  case (NewPayloadV1 p)
  then show ?thesis by (simp add: unguarded_defs latency_effect_def tick_def)
next
  case (NewPayloadV2 p)
  then show ?thesis by (simp add: unguarded_defs latency_effect_def tick_def)
next
  case (NewPayloadV3 p hs root)
  then show ?thesis using new_payload_effect(1) [of api d p hs root st] by (simp add: tick_def)
next
  case (NewPayloadV4 p hs root reqs)
  then show ?thesis using new_payload_effect(2) [of api d p hs root reqs st] by (simp add: tick_def)
next
  case (ForkchoiceUpdatedV3 f a)
  then show ?thesis using new_payload_effect(3) [of api d f a st] by (simp add: tick_def)
next
  case (GetBlobsV1 hs)
  then show ?thesis using get_blobs_effect(1) [of api hs st] by simp
next
  case (GetBlobsV2 hs)
  then show ?thesis using get_blobs_effect(2) [of "ctx_lib ctx" api clock hs st] by simp
next
  case (GetBlobsV3 hs)
  then show ?thesis using get_blobs_effect(3) [of "ctx_lib ctx" api clock hs st] by simp
next
  case (ExchangeCapabilities cs)
  then show ?thesis by (simp add: latency_effect_def tick_def answered_blobs_def)
qed (simp_all add: unguarded_defs latency_effect_def tick_def)

text \<open>Counting over a session.\<close>

definition tally ::
  "(request \<Rightarrow> bool) \<Rightarrow> ('x engine_api_error + 'env response) list \<Rightarrow>
   (u64 option \<times> duration \<times> request) list \<Rightarrow> nat" where
  "tally P rs reqs = length (filter (\<lambda>(r, clock, d, req). P req \<and> is_ok r) (zip rs reqs))"

lemma tally_Nil [simp]: "tally P [] reqs = 0"
  by (simp add: tally_def)

lemma tally_Cons [simp]:
  "tally P (r # rs) ((clock, d, req) # reqs) = tick (P req \<and> is_ok r) + tally P rs reqs"
  by (simp add: tally_def tick_def)

subsection \<open>Properties\<close>

text \<open>A \<open>newPayloadV3/V4\<close> call reaches the upstream engine exactly when it has at most 1024
  versioned hashes and the PREVRANDAO constant; otherwise the answer is the blob-count error
  (checked first) or the PREVRANDAO error and neither the engine state nor the metrics change.
  A \<open>forkchoiceUpdatedV3\<close> call with attributes is guarded by PREVRANDAO in the same way.\<close>

lemma engine_calls_guarded:
  "rpc_new_payload_v3 api d p hs root st =
     (if 1024 < length hs then (Inl (BlobRequestTooLarge (length hs)), st)
      else if pl_prev_randao (v2_payload_inner (v3_payload_inner p)) \<noteq> LOAD_PREVRANDAO
      then (Inl (EngineObjectValidationError (InvalidParams RANDAO_MESSAGE)), st)
      else metered record_new_payload d (new_payload_v3_metered api (data_v3 p hs root)) st) \<and>
   rpc_new_payload_v4 api d p hs root reqs st =
     (if 1024 < length hs then (Inl (BlobRequestTooLarge (length hs)), st)
      else if pl_prev_randao (v2_payload_inner (v3_payload_inner p)) \<noteq> LOAD_PREVRANDAO
      then (Inl (EngineObjectValidationError (InvalidParams RANDAO_MESSAGE)), st)
      else metered record_new_payload d (new_payload_v4_metered api (data_v4 p hs root reqs)) st) \<and>
   rpc_fork_choice_updated_v3 api d f (Some a) st =
     (if attributes_prev_randao a \<noteq> LOAD_PREVRANDAO
      then (Inl (EngineObjectValidationError (InvalidParams RANDAO_MESSAGE)), st)
      else metered record_forkchoice d (fork_choice_updated_v3_metered api f (Some a)) st)"
  by (simp add: rpc_new_payload_v3_def rpc_new_payload_v4_def rpc_fork_choice_updated_v3_def
      validate_blob_request_def ensure_load_prev_randao_def payload_v3_prev_randao_def
      check_optional_attributes_def)

text \<open>C17. Requests that break the Load rules never reach the engine: an invariant of the upstream
  state that the upstream calls keep when they are handed only PREVRANDAO-constant data with at
  most 1024 versioned hashes survives every session of guarded requests, whatever payloads,
  attributes and hash lists the session contains.\<close>

theorem session_keeps_engine_invariant:
  assumes "inner_keeps I api" and "I (inner_state st)"
    and "list_all (\<lambda>(clock, d, req). guarded_request req) reqs"
  shows "I (inner_state (snd (run_session ctx api reqs st)))"
  using assms(2,3)
proof (induction reqs arbitrary: st)
  case (Cons r reqs)
  obtain clock d req where r: "r = (clock, d, req)" by (cases r)
  have "I (inner_state (snd (serve ctx api clock d req st)))"
    using Cons.prems by (intro serve_keeps [OF assms(1)]) (simp_all add: r)
  with Cons.IH Cons.prems(2) show ?case unfolding r run_session_snd by simp
qed simp

text \<open>C25. The metrics count what happened: over any session each latency histogram grows by the
  number of successful calls of its family, and the blob request counter by the number of
  \<open>engine_getBlobs\<close> calls answered from the pool (not by refused ones, and not by the \<open>null\<close>
  answer of V3 during sync).\<close>

theorem session_metrics:
  "case run_session ctx api reqs st of (rs, st') \<Rightarrow>
     length rs = length reqs \<and>
     length (new_payload_latency (metrics st')) =
       length (new_payload_latency (metrics st)) + tally new_payload_request rs reqs \<and>
     length (forkchoice_latency (metrics st')) =
       length (forkchoice_latency (metrics st)) + tally forkchoice_request rs reqs \<and>
     length (get_payload_latency (metrics st')) =
       length (get_payload_latency (metrics st)) + tally get_payload_request rs reqs \<and>
     get_blobs_requests (metrics st') =
       get_blobs_requests (metrics st) + of_nat (length (filter answered_blobs rs))"
proof (induction reqs arbitrary: st)
  case (Cons r reqs)
  obtain clock d req where r: "r = (clock, d, req)" by (cases r)
  obtain a st1 where s1: "serve ctx api clock d req st = (a, st1)"
    by (cases "serve ctx api clock d req st")
  obtain rs st2 where s2: "run_session ctx api reqs st1 = (rs, st2)"
    by (cases "run_session ctx api reqs st1")
  show ?case
    using serve_effect [of req ctx api clock d st] Cons.IH [of st1]
    by (simp add: r s1 s2 latency_effect_def) (simp add: tick_def)
qed simp

definition blob_answer :: "'s api_state \<Rightarrow> 's api_state \<Rightarrow> nat \<Rightarrow> nat \<Rightarrow> bool" where
  "blob_answer st st' n l \<longleftrightarrow> l \<le> 1024 \<and>
     (\<exists>h m. st' = st\<lparr>metrics := record_get_blobs h m (metrics st)\<rparr> \<and> unat h = n \<and> unat h + unat m = l)"

lemma blob_answerI:
  assumes "n \<le> l" and "l \<le> 1024"
  shows "blob_answer st (st\<lparr>metrics := record_get_blobs (of_nat n) (of_nat l - of_nat n) (metrics st)\<rparr>) n l"
  unfolding blob_answer_def using assms unat_of_nat_diff [OF assms]
  by (intro conjI) (simp, rule exI [of _ "of_nat n"], rule exI [of _ "of_nat l - of_nat n"], simp)

lemma get_blobs_v1_answer:
  assumes "pool_law api" and "rpc_get_blobs_v1 api hs st = (Inr bs, st')"
  shows "blob_answer st st' (found bs) (length hs)"
proof -
  from assms have "length bs = length hs" by (auto simp: get_blobs_v1_ok pool_law_def)
  with assms(2) found_le [of bs] show ?thesis
    unfolding get_blobs_v1_ok using blob_answerI [of "found bs" "length hs" st] by simp
qed

lemma get_blobs_v2_answer:
  assumes "pool_law api" and "rpc_get_blobs_v2 lib api clock hs st = (Inr bs, st')"
  shows "blob_answer st st' (case bs of Some es \<Rightarrow> length es | None \<Rightarrow> 0) (length hs)"
proof (cases bs)
  case None
  with assms(2) show ?thesis
    unfolding get_blobs_v2_ok using blob_answerI [of 0 "length hs" st] by simp
next
  case (Some es)
  with assms have "length es = length hs" by (auto simp: get_blobs_v2_ok pool_law_def)
  with assms(2) Some show ?thesis
    unfolding get_blobs_v2_ok using blob_answerI [of "length es" "length hs" st] by simp
qed

lemma get_blobs_v3_answer:
  assumes "pool_law api" and "rpc_get_blobs_v3 lib api clock hs st = (Inr (Some es), st')"
  shows "blob_answer st st' (found es) (length hs)"
proof -
  from assms have "length es = length hs" by (auto simp: get_blobs_v3_ok pool_law_def split: if_splits)
  with assms(2) found_le [of es] show ?thesis
    unfolding get_blobs_v3_ok using blob_answerI [of "found es" "length hs" st] by (simp split: if_splits)
qed

text \<open>C29. Accounting of \<open>engine_getBlobs\<close>: with a pool that returns one entry per hash, every
  answer from the pool adds as many hits as entries were found and as many misses as were not,
  at most 1024 together, without wrap-around, and changes no other state.\<close>

theorem get_blobs_accounting:
  assumes "pool_law api"
    and "serve ctx api clock d req st = (Inr resp, st')"
    and "blobs_found resp = Some n"
  shows "length (requested_hashes req) \<le> 1024 \<and>
    (\<exists>h m. st' = st\<lparr>metrics := record_get_blobs h m (metrics st)\<rparr> \<and> unat h = n \<and>
       unat h + unat m = length (requested_hashes req))"
  unfolding blob_answer_def [symmetric]
proof (cases req)
  case (GetBlobsV1 hs)
  with assms show "blob_answer st st' n (length (requested_hashes req))"
    using get_blobs_v1_answer [OF assms(1)] by (auto simp: reply_def prod_eq_iff)
next
  case (GetBlobsV2 hs)
  with assms show "blob_answer st st' n (length (requested_hashes req))"
    using get_blobs_v2_answer [OF assms(1)] by (auto simp: reply_def prod_eq_iff)
next
  case (GetBlobsV3 hs)
  with assms obtain bs where
    ok: "rpc_get_blobs_v3 (ctx_lib ctx) api clock hs st = (Inr bs, st')" "resp = BlobsV3Reply bs"
    by (auto simp: reply_def prod_eq_iff)
  with assms(3) obtain es where "bs = Some es" "n = found es" by (cases bs) auto
  with ok GetBlobsV3 get_blobs_v3_answer [OF assms(1)]
  show "blob_answer st st' n (length (requested_hashes req))" by auto
qed (use assms(2,3) in \<open>auto simp: reply_def\<close>)

text \<open>The order of the checks of V2 and V3: before Osaka both answer "unsupported fork"
  whatever the size of the request; then an oversized request is refused; then V3 answers
  \<open>null\<close> while the node is syncing, without asking the pool and without touching the metrics;
  only then is the pool asked, and a pool error is an internal error that changes nothing.\<close>

lemma get_blobs_gates:
  "(if \<not> is_active_at_timestamp (ctx_lib ctx) (inner_chain_spec api) Osaka (unix_secs clock)
    then serve ctx api clock d (GetBlobsV2 hs) st = (Inl (EngineObjectValidationError UnsupportedFork), st) \<and>
         serve ctx api clock d (GetBlobsV3 hs) st = (Inl (EngineObjectValidationError UnsupportedFork), st)
    else if 1024 < length hs
    then serve ctx api clock d (GetBlobsV2 hs) st = (Inl (BlobRequestTooLarge (length hs)), st) \<and>
         serve ctx api clock d (GetBlobsV3 hs) st = (Inl (BlobRequestTooLarge (length hs)), st)
    else serve ctx api clock d (GetBlobsV3 hs) st =
      (if network_is_syncing api (inner_state st) then (Inr (BlobsV3Reply None), st)
       else case pool_blobs_v3 api hs (inner_state st) of
         Inl e \<Rightarrow> (Inl (InternalError e), st)
       | Inr bs \<Rightarrow> (Inr (BlobsV3Reply (Some bs)),
           st\<lparr>metrics := record_get_blobs (count_hits bs) (vlen bs - count_hits bs) (metrics st)\<rparr>)))"
  by (auto simp: rpc_get_blobs_v2_def rpc_get_blobs_v3_def check_osaka_def validate_blob_request_def
      reply_def Let_def split: sum.splits)

lemma add_capabilities:
  assumes "capabilities_law api"
  shows "set (list_capabilities api (fold (\<lambda>cap caps. add_capability api caps cap) cs k)) =
    set cs \<union> set (list_capabilities api k)"
proof (induction cs arbitrary: k)
  case (Cons c cs)
  with assms show ?case by (auto simp: capabilities_law_def)
qed simp

text \<open>The advertised capabilities are exactly those of the upstream engine, the two Load
  capabilities, the client version string, and everything the peer sent.\<close>

lemma capabilities_exchanged:
  assumes "capabilities_law api"
  shows "set (rpc_exchange_capabilities api build peer) =
    set (list_capabilities api (inner_capabilities api)) \<union> set peer \<union>
    {''load.blobs.1024'', ''load.prev_randao.0x01'',
     load_client_version_string (CARGO_PKG_VERSION build) (VERGEN_GIT_SHA_SHORT build)}"
  using assms add_capabilities [OF assms]
  by (auto simp: rpc_exchange_capabilities_def capabilities_law_def LOAD_CAP_BLOBS_def
      LOAD_CAP_PREVRANDAO_def)

text \<open>An instance: an engine that logs the data it is handed and a pool that knows one hash.\<close>

definition example_inner :: "(load_execution_data list, unit, unit, string list, u64) inner_api" where
  "example_inner = \<lparr>
     new_payload_v1_metered = (\<lambda>d s. (Inr StatusValid, d # s)),
     new_payload_v2_metered = (\<lambda>d s. (Inr StatusValid, d # s)),
     new_payload_v3_metered = (\<lambda>d s. (Inr StatusValid, d # s)),
     new_payload_v4_metered = (\<lambda>d s. (Inr StatusValid, d # s)),
     fork_choice_updated_v1_metered = (\<lambda>f a s. (Inr \<lparr>fcu_payload_status = StatusValid, fcu_payload_id = None\<rparr>, s)),
     fork_choice_updated_v2_metered = (\<lambda>f a s. (Inr \<lparr>fcu_payload_status = StatusValid, fcu_payload_id = None\<rparr>, s)),
     fork_choice_updated_v3_metered = (\<lambda>f a s. (Inr \<lparr>fcu_payload_status = StatusValid, fcu_payload_id = None\<rparr>, s)),
     get_payload_v1_metered = (\<lambda>i s. (Inr (), s)),
     get_payload_v2_metered = (\<lambda>i s. (Inr (), s)),
     get_payload_v3_metered = (\<lambda>i s. (Inr (), s)),
     get_payload_v4_metered = (\<lambda>i s. (Inr (), s)),
     get_payload_v5_metered = (\<lambda>i s. (Inr (), s)),
     bodies_by_hash_v1_metered = (\<lambda>hs s. (Inr [], s)),
     bodies_by_range_v1_metered = (\<lambda>a n s. (Inr [], s)),
     inner_client_version_v1 = (\<lambda>v s. (Inr [v], s)),
     inner_capabilities = [''engine_newPayloadV3''],
     add_capability = (\<lambda>k c. List.insert c k),
     list_capabilities = (\<lambda>k. k),
     inner_chain_spec = \<lparr>spec_inner = spec_of_genesis example_spec_lib load_dev_genesis\<rparr>,
     pool_blobs_v1 = (\<lambda>hs s. Inr (map (\<lambda>h. if h = B256_ZERO
        then Some \<lparr>bp1_blob = [], bp1_proof = []\<rparr> else None) hs)),
     pool_blobs_v2 = (\<lambda>hs s. Inr None),
     pool_blobs_v3 = (\<lambda>hs s. Inr (map (\<lambda>h. None) hs)),
     network_is_syncing = (\<lambda>s. False)\<rparr>"

definition example_api_state :: "load_execution_data list api_state" where
  "example_api_state = \<lparr>inner_state = [], metrics = engine_metrics_new\<rparr>"

definition example_rpc_context :: "u64 rpc_context" where
  "example_rpc_context = \<lparr>ctx_lib = example_spec_lib, ctx_build = \<lparr>CARGO_PKG_VERSION = ''0.1.0'',
     VERGEN_GIT_SHA_SHORT = None, VERGEN_GIT_SHA_LONG = None, CLIENT_CODE = ''RH''\<rparr>\<rparr>"

lemma example_inner_keeps: "inner_keeps (list_all admitted_data) example_inner"
  by (simp add: inner_keeps_def method_keeps_def example_inner_def)

theorem session_keeps_engine_invariant_witness:
  "list_all admitted_data (inner_state (snd (run_session example_rpc_context example_inner
     [(None, 5, NewPayloadV3 (example_payload_v3 B256_ZERO) [] B256_ZERO),
      (None, 7, NewPayloadV4 (example_payload_v3 LOAD_PREVRANDAO) [B256_ZERO] B256_ZERO (Requests []))]
     example_api_state)))"
  by (rule session_keeps_engine_invariant [OF example_inner_keeps])
    (simp_all add: example_api_state_def)

theorem get_blobs_accounting_witness:
  "\<exists>h m. snd (serve example_rpc_context example_inner None 5 (GetBlobsV1 [B256_ZERO, LOAD_PREVRANDAO])
       example_api_state) =
      example_api_state\<lparr>metrics := record_get_blobs h m (metrics example_api_state)\<rparr> \<and>
     unat h = 1 \<and> unat h + unat m = 2"
proof -
  let ?req = "GetBlobsV1 [B256_ZERO, LOAD_PREVRANDAO]"
  let ?resp = "BlobsV1Reply [Some \<lparr>bp1_blob = [], bp1_proof = []\<rparr>, None] :: unit response"
  have law: "pool_law example_inner" by (auto simp: pool_law_def example_inner_def)
  have pool: "pool_blobs_v1 example_inner [B256_ZERO, LOAD_PREVRANDAO] s =
      Inr [Some \<lparr>bp1_blob = [], bp1_proof = []\<rparr>, None]" for s
    using LOAD_PREVRANDAO_not_zero by (simp add: example_inner_def)
  obtain st' where "serve example_rpc_context example_inner None 5 ?req example_api_state = (Inr ?resp, st')"
    by (simp add: rpc_get_blobs_v1_def validate_blob_request_def pool reply_def Let_def)
  with get_blobs_accounting [OF law this, of 1] show ?thesis by (simp add: found_def numeral_2_eq_2)
qed

lemma capabilities_exchanged_witness:
  "''load.blobs.1024'' \<in> set (rpc_exchange_capabilities example_inner (ctx_build example_rpc_context) [''x''])
   \<and> ''x'' \<in> set (rpc_exchange_capabilities example_inner (ctx_build example_rpc_context) [''x''])"
  using capabilities_exchanged [of example_inner "ctx_build example_rpc_context" "[''x'']"]
  by (simp add: capabilities_law_def example_inner_def)

end
