(* ===== verification/Engine_Build.thy ===== *)
theory Engine_Build
  imports Engine_Rpc
begin

section \<open>Building the Engine API (\<open>src/engine/rpc.rs\<close>, \<open>LoadEngineApiBuilder\<close>)\<close>

text \<open>
  \<open>build_engine_api\<close>: the validator is built first (the only step that can fail), then the
  upstream \<open>EngineApi\<close> with the client version of the upstream binary, the upstream
  capabilities extended by the two Load ones, and the handles of the node; the result is wrapped
  together with fresh metrics. \<open>EngineApi::new\<close> is upstream: a function of its arguments, the
  record \<open>engine_api_args\<close> (\<open>'v\<close> the validator, \<open>'hd\<close> the handles of provider, engine, payload
  store, pool, executor and network). The state behind the handles is a parameter.
\<close>

record version_metadata =
  name_client :: string
  cargo_pkg_version :: string
  vergen_git_sha :: string

record ('c, 'k, 'v, 'hd) engine_api_args =
  ea_chain_spec :: "'c load_chain_spec"
  ea_client :: client_version_v1
  ea_capabilities :: 'k
  ea_validator :: 'v
  ea_accept_execution_requests_hash :: bool
  ea_handles :: 'hd

record ('s, 'x, 'env, 'k, 'c, 'v, 'hd) engine_lib =
  engine_api_new :: "('c, 'k, 'v, 'hd) engine_api_args \<Rightarrow> ('s, 'x, 'env, 'k, 'c) inner_api"
  default_capabilities :: 'k
  capabilities_add :: "'k \<Rightarrow> string \<Rightarrow> 'k"
  capabilities_list :: "'k \<Rightarrow> string list"

text \<open>What the wrapper itself asks of the pool of the node.\<close>

record ('s, 'x) blob_pool =
  bpool_v1 :: "b256 list \<Rightarrow> 's \<Rightarrow> 'x + blob_and_proof_v1 option list"
  bpool_v2 :: "b256 list \<Rightarrow> 's \<Rightarrow> 'x + blob_and_proof_v2 list option"
  bpool_v3 :: "b256 list \<Rightarrow> 's \<Rightarrow> 'x + blob_and_proof_v2 option list"

record ('s, 'x, 'c, 'hd) add_ons_context =
  ac_chain :: "'c load_chain_spec"
  ac_accept_execution_requests_hash :: bool
  ac_handles :: 'hd
  ac_pool :: "('s, 'x) blob_pool"
  ac_network_is_syncing :: "'s \<Rightarrow> bool"

definition engine_client :: "version_metadata \<Rightarrow> build_env \<Rightarrow> client_version_v1" where
  "engine_client vm build =
     \<lparr>cv_code = CLIENT_CODE build, cv_name = name_client vm, cv_version = cargo_pkg_version vm,
      cv_commit = vergen_git_sha vm\<rparr>"

definition engine_capabilities :: "('s, 'x, 'env, 'k, 'c, 'v, 'hd) engine_lib \<Rightarrow> 'k" where
  "engine_capabilities enlib =
     (let capabilities0 = default_capabilities enlib;
          capabilities1 = capabilities_add enlib capabilities0 LOAD_CAP_BLOBS
      in capabilities_add enlib capabilities1 LOAD_CAP_PREVRANDAO)"

text \<open>\<open>LoadEngineApi::new\<close>: the wrapped API with the pool and the syncing test it was given, and its
  state with the metrics.\<close>

definition load_engine_api_new ::
  "('s, 'x, 'env, 'k, 'c) inner_api \<Rightarrow> ('s, 'x) blob_pool \<Rightarrow> load_engine_rpc_metrics \<Rightarrow> ('s \<Rightarrow> bool) \<Rightarrow> 's \<Rightarrow>
   ('s, 'x, 'env, 'k, 'c) inner_api \<times> 's api_state" where
  "load_engine_api_new inner pool mt is_syncing s =
     (inner\<lparr>pool_blobs_v1 := bpool_v1 pool, pool_blobs_v2 := bpool_v2 pool, pool_blobs_v3 := bpool_v3 pool,
        network_is_syncing := is_syncing\<rparr>, \<lparr>inner_state = s, metrics = mt\<rparr>)"

definition load_engine_api_debug :: string where
  "load_engine_api_debug = ''LoadEngineApi { .. }''"

definition build_engine_api ::
  "('s, 'x, 'env, 'k, 'c, 'v, 'hd) engine_lib \<Rightarrow> version_metadata \<Rightarrow> build_env \<Rightarrow> ('e + 'v) \<Rightarrow>
   ('s, 'x, 'c, 'hd) add_ons_context \<Rightarrow> 's \<Rightarrow> 'e + ('s, 'x, 'env, 'k, 'c) inner_api \<times> 's api_state" where
  "build_engine_api enlib vm build built_validator ctx s =
     rbind built_validator (\<lambda>engine_validator.
       let inner = engine_api_new enlib
             \<lparr>ea_chain_spec = ac_chain ctx, ea_client = engine_client vm build,
              ea_capabilities = engine_capabilities enlib, ea_validator = engine_validator,
              ea_accept_execution_requests_hash = ac_accept_execution_requests_hash ctx,
              ea_handles = ac_handles ctx\<rparr>
       in Inr (load_engine_api_new inner (ac_pool ctx) engine_metrics_new (ac_network_is_syncing ctx) s))"

text \<open>
  Documented of the upstream API: it keeps the spec, the capabilities and the client it was given,
  answers \<open>engine_getClientVersionV1\<close> with the latter, and its capabilities are a set of strings
  with the operations of \<open>EngineCapabilities\<close>.
\<close>

definition engine_lib_law :: "('s, 'x, 'env, 'k, 'c, 'v, 'hd) engine_lib \<Rightarrow> bool" where
  "engine_lib_law enlib \<longleftrightarrow>
     (\<forall>a. inner_chain_spec (engine_api_new enlib a) = ea_chain_spec a \<and>
        inner_capabilities (engine_api_new enlib a) = ea_capabilities a \<and>
        add_capability (engine_api_new enlib a) = capabilities_add enlib \<and>
        list_capabilities (engine_api_new enlib a) = capabilities_list enlib \<and>
        (\<forall>v s. inner_client_version_v1 (engine_api_new enlib a) v s = (Inr [ea_client a], s))) \<and>
     (\<forall>k c. set (capabilities_list enlib (capabilities_add enlib k c)) =
        insert c (set (capabilities_list enlib k)))"

lemma build_engine_api_ok:
  "build_engine_api enlib vm build built ctx s = Inr (api, st) \<longleftrightarrow>
   (\<exists>v. built = Inr v \<and> (api, st) = load_engine_api_new (engine_api_new enlib
             \<lparr>ea_chain_spec = ac_chain ctx, ea_client = engine_client vm build,
              ea_capabilities = engine_capabilities enlib, ea_validator = v,
              ea_accept_execution_requests_hash = ac_accept_execution_requests_hash ctx,
              ea_handles = ac_handles ctx\<rparr>) (ac_pool ctx) engine_metrics_new (ac_network_is_syncing ctx) s)"
  by (auto simp: build_engine_api_def rbind_eq_Inr Let_def)

lemma built_capabilities:
  assumes "engine_lib_law enlib" and "build_engine_api enlib vm build built ctx s = Inr (api, st)"
  shows "capabilities_law api"
    and "set (list_capabilities api (inner_capabilities api)) =
      set (capabilities_list enlib (default_capabilities enlib)) \<union>
      {''load.blobs.1024'', ''load.prev_randao.0x01''}"
  using assms
  by (auto simp: build_engine_api_ok load_engine_api_new_def engine_lib_law_def capabilities_law_def engine_capabilities_def
      Let_def LOAD_CAP_BLOBS_def LOAD_CAP_PREVRANDAO_def)

subsection \<open>Properties\<close>

text \<open>C26. The Engine API a node builds identifies itself as Load: \<open>engine_exchangeCapabilities\<close> answers
  exactly upstream's capabilities, the two Load ones, the client version string and the
  peer's; \<open>engine_getClientVersionV1\<close> answers upstream's entry followed by the Load entry and changes
  nothing; \<open>engine_getBlobs\<close> reads the pool, the network and the spec of the node; all metrics start at 0; and
  building fails exactly when the validator cannot be built.\<close>

theorem engine_api_identity:
  assumes "engine_lib_law enlib"
  shows "(case build_engine_api enlib vm build built ctx s of
      Inl e \<Rightarrow> built = Inl e
    | Inr (api, st) \<Rightarrow>
        is_ok built \<and> inner_chain_spec api = ac_chain ctx \<and> inner_state st = s \<and>
        metrics st = engine_metrics_new \<and>
        pool_blobs_v1 api = bpool_v1 (ac_pool ctx) \<and> network_is_syncing api = ac_network_is_syncing ctx \<and>
        set (rpc_exchange_capabilities api build peer) =
          set (capabilities_list enlib (default_capabilities enlib)) \<union> set peer \<union>
          {''load.blobs.1024'', ''load.prev_randao.0x01'',
           load_client_version_string (CARGO_PKG_VERSION build) (VERGEN_GIT_SHA_SHORT build)} \<and>
        rpc_client_version_v1 api build v st =
          (Inr [engine_client vm build, load_client_version_entry build], st))"
proof (cases "build_engine_api enlib vm build built ctx s")
  case (Inl e)
  then show ?thesis by (auto simp: build_engine_api_def rbind_eq_Inl)
next
  case (Inr q)
  obtain api st where q: "q = (api, st)" by (cases q)
  note b = Inr [unfolded q]
  have "inner_chain_spec api = ac_chain ctx" "inner_state st = s" "metrics st = engine_metrics_new"
    "is_ok built" "inner_client_version_v1 api v s = (Inr [engine_client vm build], s)"
    "pool_blobs_v1 api = bpool_v1 (ac_pool ctx)" "network_is_syncing api = ac_network_is_syncing ctx"
    using assms b by (auto simp: build_engine_api_ok load_engine_api_new_def engine_lib_law_def)
  with Inr q capabilities_exchanged [OF built_capabilities(1) [OF assms b], of build peer]
    built_capabilities(2) [OF assms b]
  show ?thesis by (auto simp: rpc_client_version_v1_def forward_def)
qed

text \<open>An instance: the example engine with the capabilities and the spec it is given.\<close>

definition example_engine_lib ::
  "(load_execution_data list, unit, unit, string list, u64, unit, unit) engine_lib" where
  "example_engine_lib =
     \<lparr>engine_api_new = (\<lambda>a. example_inner\<lparr>inner_capabilities := ea_capabilities a,
        inner_chain_spec := ea_chain_spec a,
        inner_client_version_v1 := (\<lambda>v s. (Inr [ea_client a], s))\<rparr>),
      default_capabilities = [''engine_newPayloadV3''],
      capabilities_add = (\<lambda>k c. List.insert c k),
      capabilities_list = (\<lambda>k. k)\<rparr>"

definition example_blob_pool :: "(load_execution_data list, unit) blob_pool" where
  "example_blob_pool = \<lparr>bpool_v1 = (\<lambda>hs s. Inr (map (\<lambda>h. None) hs)), bpool_v2 = (\<lambda>hs s. Inr None),
     bpool_v3 = (\<lambda>hs s. Inr (map (\<lambda>h. None) hs))\<rparr>"

lemma example_engine_lib_law: "engine_lib_law example_engine_lib"
  by (simp add: engine_lib_law_def example_engine_lib_def example_inner_def)

theorem engine_api_identity_witness:
  "\<forall>vm. \<exists>api st. build_engine_api example_engine_lib vm (ctx_build example_rpc_context) (Inr () :: unit + unit)
       \<lparr>ac_chain = \<lparr>spec_inner = spec_of_genesis example_spec_lib load_dev_genesis\<rparr>,
        ac_accept_execution_requests_hash = False, ac_handles = (), ac_pool = example_blob_pool,
        ac_network_is_syncing = (\<lambda>s. False)\<rparr> [] = Inr (api, st) \<and>
     ''load.prev_randao.0x01'' \<in> set (rpc_exchange_capabilities api (ctx_build example_rpc_context) [])"
proof
  fix vm
  let ?ctx = "\<lparr>ac_chain = \<lparr>spec_inner = spec_of_genesis example_spec_lib load_dev_genesis\<rparr>,
        ac_accept_execution_requests_hash = False, ac_handles = (), ac_pool = example_blob_pool,
        ac_network_is_syncing = (\<lambda>s. False)\<rparr>"
  obtain api st where b: "build_engine_api example_engine_lib vm (ctx_build example_rpc_context)
      (Inr () :: unit + unit) ?ctx [] = Inr (api, st)"
    by (simp add: build_engine_api_def Let_def load_engine_api_new_def)
  with engine_api_identity [OF example_engine_lib_law, where vm = vm and build = "ctx_build example_rpc_context"
      and built = "Inr () :: unit + unit" and ctx = ?ctx and s = "[]" and peer = "[]"]
  have "''load.prev_randao.0x01'' \<in> set (rpc_exchange_capabilities api (ctx_build example_rpc_context) [])"
    by auto
  with b show "\<exists>api st. build_engine_api example_engine_lib vm (ctx_build example_rpc_context)
      (Inr () :: unit + unit) ?ctx [] = Inr (api, st) \<and>
    ''load.prev_randao.0x01'' \<in> set (rpc_exchange_capabilities api (ctx_build example_rpc_context) [])"
    by blast
qed

end
