(* ===== verification/Payload_Access.thy ===== *)
theory Payload_Access
  imports Payload
begin

section \<open>Accessors and conversions of the payload types (\<open>src/engine/payload.rs\<close>)\<close>

text \<open>
  The trait implementations of the payload wrappers that read a field or forward to the wrapped
  upstream value, and the conversions that cannot fail. The upstream conversions are the fields
  of \<open>conversion_lib\<close>.
\<close>

subsection \<open>RPC attributes and builder attributes\<close>

definition attributes_withdrawals :: "load_payload_attributes \<Rightarrow> withdrawal list option" where
  "attributes_withdrawals self = pa_withdrawals (lpa_inner self)"

definition attributes_parent_beacon_block_root :: "load_payload_attributes \<Rightarrow> b256 option" where
  "attributes_parent_beacon_block_root self = pa_parent_beacon_block_root (lpa_inner self)"

definition builder_attributes_new :: "eth_builder_attributes \<Rightarrow> load_payload_builder_attributes" where
  "builder_attributes_new inner = \<lparr>lba_inner = inner\<rparr>"

definition builder_attributes_into_inner :: "load_payload_builder_attributes \<Rightarrow> eth_builder_attributes" where
  "builder_attributes_into_inner self = lba_inner self"

definition builder_payload_id :: "load_payload_builder_attributes \<Rightarrow> bytes" where
  "builder_payload_id self = ba_payload_id (lba_inner self)"

definition builder_parent :: "load_payload_builder_attributes \<Rightarrow> b256" where
  "builder_parent self = ba_parent (lba_inner self)"

definition builder_timestamp :: "load_payload_builder_attributes \<Rightarrow> u64" where
  "builder_timestamp self = ba_timestamp (lba_inner self)"

definition builder_parent_beacon_block_root :: "load_payload_builder_attributes \<Rightarrow> b256 option" where
  "builder_parent_beacon_block_root self = ba_parent_beacon_block_root (lba_inner self)"

definition builder_suggested_fee_recipient :: "load_payload_builder_attributes \<Rightarrow> address" where
  "builder_suggested_fee_recipient self = ba_suggested_fee_recipient (lba_inner self)"

definition builder_prev_randao :: "load_payload_builder_attributes \<Rightarrow> b256" where
  "builder_prev_randao self = ba_prev_randao (lba_inner self)"

definition builder_withdrawals :: "load_payload_builder_attributes \<Rightarrow> withdrawal list" where
  "builder_withdrawals self = ba_withdrawals (lba_inner self)"

lemma builder_attributes_inverse:
  "builder_attributes_into_inner (builder_attributes_new a) = a"
  "builder_attributes_new (builder_attributes_into_inner b) = b"
  by (simp_all add: builder_attributes_new_def builder_attributes_into_inner_def)

text \<open>What the attributes a consensus client sent look like to the builder.\<close>

lemma accepted_attributes:
  assumes "try_new_law eth_new" and "try_new eth_new parent a v = Inr attrs"
  shows "builder_parent attrs = parent" and "builder_timestamp attrs = attributes_timestamp a"
    and "builder_prev_randao attrs = LOAD_PREVRANDAO"
  using assms
  by (auto simp: try_new_ok try_new_law_def builder_parent_def builder_timestamp_def
      builder_prev_randao_def attributes_timestamp_def)

subsection \<open>The local attributes builder\<close>

text \<open>\<open>Debug\<close> prints the chain; \<open>Clone\<close> wraps the same chain spec again.\<close>

record 'c local_attributes_builder =
  local_chain_spec :: "'c load_chain_spec"

definition local_builder_debug :: "('c \<Rightarrow> string) \<Rightarrow> 'c local_attributes_builder \<Rightarrow> string" where
  "local_builder_debug show_chain self =
     ''LoadLocalPayloadAttributesBuilder('' @ show_chain (spec_chain (local_chain_spec self)) @ '')''"

definition local_builder_clone :: "'c local_attributes_builder \<Rightarrow> 'c local_attributes_builder" where
  "local_builder_clone self = \<lparr>local_chain_spec = local_chain_spec self\<rparr>"

lemma local_builder_clone_eq: "local_builder_clone self = self"
  by (simp add: local_builder_clone_def)

subsection \<open>Built payloads\<close>

record ('b, 'v2) conversion_lib =
  eth_payload_v1 :: "'b eth_built_payload \<Rightarrow> payload_v1"
  eth_envelope_v2 :: "'b eth_built_payload \<Rightarrow> 'v2"

definition built_payload_new :: "'b eth_built_payload \<Rightarrow> 'b load_built_payload" where
  "built_payload_new inner = \<lparr>lbp_inner = inner\<rparr>"

definition built_block :: "'b load_built_payload \<Rightarrow> 'b" where
  "built_block self = bp_block (lbp_inner self)"

definition built_fees :: "'b load_built_payload \<Rightarrow> u256" where
  "built_fees self = bp_fees (lbp_inner self)"

definition built_requests :: "'b load_built_payload \<Rightarrow> bytes list option" where
  "built_requests self = bp_requests (lbp_inner self)"

definition into_payload_v1 :: "('b, 'v2) conversion_lib \<Rightarrow> 'b load_built_payload \<Rightarrow> payload_v1" where
  "into_payload_v1 clib self = eth_payload_v1 clib (lbp_inner self)"

definition into_envelope_v2 :: "('b, 'v2) conversion_lib \<Rightarrow> 'b load_built_payload \<Rightarrow> 'v2" where
  "into_envelope_v2 clib self = eth_envelope_v2 clib (lbp_inner self)"

text \<open>V1 and V2 carry no blobs, and their conversions do not look at the sidecars: a payload that
  V3, V4 and V5 refuse because of its sidecars still converts to them.\<close>

lemma legacy_conversions_unguarded:
  assumes "guard_sidecars p (unat LOAD_MAX_BLOB_COUNT) = Inl e"
  shows "into_payload_v1 clib p = eth_payload_v1 clib (lbp_inner p) \<and>
    into_envelope_v2 clib p = eth_envelope_v2 clib (lbp_inner p) \<and>
    try_into_envelope_v3 plib p = Some (Inl e) \<and> try_into_envelope_v4 plib p = Inl e \<and>
    try_into_envelope_v5 plib p = Inl e"
  using assms
  by (simp add: into_payload_v1_def into_envelope_v2_def try_into_envelope_v3_def
      try_into_envelope_v4_def try_into_envelope_v5_def)

subsection \<open>Execution data\<close>

definition data_sidecar :: "load_execution_data \<Rightarrow> payload_sidecar" where
  "data_sidecar self = ed_sidecar (led_inner self)"

definition data_payload :: "load_execution_data \<Rightarrow> execution_payload" where
  "data_payload self = ed_payload (led_inner self)"

definition data_inner :: "load_execution_data \<Rightarrow> execution_data" where
  "data_inner self = led_inner self"

definition data_block_access_list :: "load_execution_data \<Rightarrow> bytes option" where
  "data_block_access_list self = None"

definition into_execution_data :: "load_execution_data \<Rightarrow> execution_data" where
  "into_execution_data self = led_inner self"

lemma data_parts_inverse:
  "case into_parts d of (payload, sidecar) \<Rightarrow> data_new payload sidecar = d"
  "into_parts (data_new payload sidecar) = (payload, sidecar)"
  "into_parts d = (data_payload d, data_sidecar d)"
  by (simp_all add: data_defs data_payload_def data_sidecar_def)

text \<open>The three constructors of an engine call, read back through the accessors.\<close>

lemma data_v3_v4_accessors:
  "data_timestamp (data_v3 p hs root) = pl_timestamp (v2_payload_inner (v3_payload_inner p))"
  "data_parent_beacon_block_root (data_v3 p hs root) = Some root"
  "versioned_hashes (data_sidecar (data_v3 p hs root)) = Some hs"
  "data_parent_beacon_block_root (data_v4 p hs root reqs) = Some root"
  "versioned_hashes (data_sidecar (data_v4 p hs root reqs)) = Some hs"
  "data_parent_beacon_block_root (data_from_v1 p1) = None"
  "versioned_hashes (data_sidecar (data_from_v1 p1)) = None"
  by (simp_all add: data_defs data_sidecar_def)

end
