(* ===== verification/Pool.thy ===== *)
theory Pool
  imports Chainspec
begin

section \<open>Transaction pool sizing (\<open>src/pool/mod.rs\<close>)\<close>

text \<open>
  What \<open>LoadPoolBuilder::build_pool\<close> computes before it hands the configuration to the
  upstream pool: the blob cache size and the limits of the blob subpool. The arithmetic is at
  the width of the code (\<open>u64\<close> for the cache, \<open>as u32\<close>, \<open>usize\<close> for the limits).
  \<open>EPOCH_SLOTS\<close> is a constant of \<open>alloy_eips\<close> and a parameter here. The rest of \<open>build_pool\<close> is
  in \<open>Pool_Build\<close>.
\<close>

record sub_pool_limit =
  max_txs :: usize
  max_size :: usize

record pool_config =
  blob_cache_size :: "u32 option"
  blob_limit :: sub_pool_limit

definition calculated_blob_cache :: "u64 \<Rightarrow> blob_params \<Rightarrow> u32" where
  "calculated_blob_cache EPOCH_SLOTS params =
     ucast (saturating_mul (saturating_mul (target_blob_count params) EPOCH_SLOTS) 2)"

definition min_blob_txs :: "u32 \<Rightarrow> usize" where
  "min_blob_txs cache_size =
     max (case checked_div (saturating_mul (ucast cache_size) 4) (ucast LOAD_MAX_BLOBS_PER_TX) of
            Some n \<Rightarrow> n | None \<Rightarrow> - 1)
         (ucast LOAD_TARGET_BLOB_COUNT)"

definition scale_blob_limit :: "sub_pool_limit \<Rightarrow> usize \<Rightarrow> sub_pool_limit" where
  "scale_blob_limit default_blob_limit min_txs =
     (let target_blob_txs = max (max_txs default_blob_limit) min_txs;
          scale = (target_blob_txs + max_txs default_blob_limit - 1)
                  div (max (max_txs default_blob_limit) 1)
      in \<lparr>max_txs = target_blob_txs,
          max_size = saturating_mul (max_size default_blob_limit) scale\<rparr>)"

definition size_pool ::
  "'c spec_lib \<Rightarrow> u64 \<Rightarrow> 'c load_chain_spec \<Rightarrow> u64 \<Rightarrow> 'z pool_config_scheme \<Rightarrow>
   'z pool_config_scheme" where
  "size_pool lib EPOCH_SLOTS spec current_timestamp conf =
     (let params = (case blob_params_at_timestamp lib spec current_timestamp of
                      Some p \<Rightarrow> p | None \<Rightarrow> cancun_params lib);
          cache_size = (case blob_cache_size conf of
                          Some n \<Rightarrow> n | None \<Rightarrow> calculated_blob_cache EPOCH_SLOTS params);
          conf1 = conf\<lparr>blob_cache_size := Some cache_size\<rparr>
      in conf1\<lparr>blob_limit := scale_blob_limit (blob_limit conf1) (min_blob_txs cache_size)\<rparr>)"

subsection \<open>Reading the sizes as numbers\<close>

lemma unat_max: "unat (max a b) = max (unat a) (unat b)"
  by (simp add: max_def word_le_nat_alt)

lemma unat_ucast_32_64 [simp]: "unat (ucast (x :: u32) :: usize) = unat x"
  using unsigned_less [of x, where 'a = nat]
  by (simp add: unsigned_ucast_eq take_bit_nat_eq_self_iff)

lemma unat_min_blob_txs: "unat (min_blob_txs c) = max (unat c * 4 div 32) 512"
proof -
  have c: "unat c < 2 ^ 32" using unsigned_less [of c, where 'a = nat] by simp
  then have "min (unat c * 4) 18446744073709551615 = unat c * 4" by simp
  then show ?thesis
    by (simp add: min_blob_txs_def checked_div_def load_constants unat_max unat_div_distrib
        unat_saturating_mul)
qed

lemma min_blob_txs_small: "unat (min_blob_txs c) < 2 ^ 31"
  using unsigned_less [of c, where 'a = nat] by (simp add: unat_min_blob_txs)

text \<open>The scaling factor: a rounded-up quotient as long as the sum fits in a \<open>usize\<close>.\<close>

lemma unat_scale:
  fixes t m :: usize
  assumes "0 < m" and "unat t + unat m \<le> 2 ^ 64"
  shows "unat ((t + m - 1) div max m 1) = (unat t + unat m - 1) div unat m"
proof -
  have m0: "0 < unat m" using assms(1) by (simp add: word_less_nat_alt)
  then have m1: "max m 1 = m" by (intro max.absorb1) (simp add: word_le_nat_alt)
  have m_less: "unat m \<le> 2 ^ 64 - 1" using unat_less_2_64 [of m] by simp
  have m_1: "unat (m - 1) = unat m - 1"
    using m0 by (simp add: unat_sub word_le_nat_alt)
  have "unat (t + (m - 1)) = unat t + (unat m - 1)"
    using assms(2) m0 by (subst unat_add_no_overflow) (simp_all add: m_1)
  then have "unat (t + m - 1) = unat t + unat m - 1"
    using m0 by (simp only: add_diff_eq)
  with m1 show ?thesis by (simp add: unat_div_distrib)
qed

lemma scale_ge_1: "0 < m \<Longrightarrow> m \<le> t \<Longrightarrow> 1 \<le> (t + m - 1) div (m :: nat)"
  using div_greater_zero_iff [of "t + m - 1" m] by (simp add: Suc_le_eq)

text \<open>Past half the range the sum wraps and the quotient is 0.\<close>

lemma scale_wraps:
  fixes m :: usize
  assumes "2 ^ 63 < unat m"
  shows "(m + m - 1) div max m 1 = 0"
proof -
  have m: "unat m < 2 ^ 64" by (rule unat_less_2_64)
  have 1: "unat (m + m) = unat m + unat m - 2 ^ 64"
    using assms m unat_plus_if' [of m m] by simp
  then have "1 \<le> m + m" using assms by (simp only: word_le_nat_alt) simp
  then have "unat (m + m - 1) = unat (m + m) - 1" by (simp only: unat_sub) simp
  with 1 m assms have "unat (m + m - 1) < unat m" by simp
  moreover have "max m 1 = m" using assms by (intro max.absorb1) (simp add: word_le_nat_alt)
  ultimately show ?thesis by (simp only: word_unat_eq_iff unat_div_distrib) simp
qed

lemma scaled_sizes:
  fixes l :: sub_pool_limit and cache :: u32
  defines "l' \<equiv> scale_blob_limit l (min_blob_txs cache)"
  assumes "0 < max_txs l" and "unat (max_txs l) \<le> 2 ^ 63"
  shows "unat (max_txs l') = max (unat (max_txs l)) (max (unat cache * 4 div 32) 512) \<and>
    unat (max_size l') =
      min (unat (max_size l) * ((unat (max_txs l') + unat (max_txs l) - 1) div unat (max_txs l)))
          (2 ^ 64 - 1) \<and>
    max_size l \<le> max_size l'"
proof -
  let ?t = "max (max_txs l) (min_blob_txs cache)"
  let ?k = "(unat ?t + unat (max_txs l) - 1) div unat (max_txs l)"
  have t: "unat ?t = max (unat (max_txs l)) (max (unat cache * 4 div 32) 512)"
    by (simp add: unat_max unat_min_blob_txs)
  have "unat ?t \<le> 2 ^ 63"
    using assms(3) min_blob_txs_small [of cache] by (simp add: unat_max)
  with assms(2,3) have scale: "unat ((?t + max_txs l - 1) div max (max_txs l) 1) = ?k"
    by (intro unat_scale) simp_all
  have "1 \<le> ?k"
    using assms(2) by (intro scale_ge_1) (simp_all add: unat_max word_less_nat_alt)
  then have "unat (max_size l) \<le> unat (max_size l) * ?k" by (cases ?k) simp_all
  then have "unat (max_size l) \<le> min (unat (max_size l) * ?k) (2 ^ 64 - 1)"
    using unat_less_2_64 [of "max_size l"] by simp
  then show ?thesis
    by (simp add: l'_def scale_blob_limit_def Let_def unat_saturating_mul scale t word_le_nat_alt)
qed

subsection \<open>Properties\<close>

text \<open>With the Load target of 512 blobs, 32 slots per epoch and no override, the cache holds
  32,768 blobs, the figure of the module documentation; an explicit size in the configuration
  always wins.\<close>

lemma pool_cache_size:
  assumes "blob_params_at_timestamp lib spec now = Some p"
    and "target_blob_count p = LOAD_TARGET_BLOB_COUNT"
  shows "blob_cache_size (size_pool lib 32 spec now conf) =
    Some (case blob_cache_size conf of Some n \<Rightarrow> n | None \<Rightarrow> 32768)"
  using assms by (simp add: size_pool_def Let_def calculated_blob_cache_def load_constants
      saturating_mul_def split: option.splits)

text \<open>For a default blob transaction limit of at most half the \<open>usize\<close> range the scaled
  subpool is never smaller than the default: at least 512 transactions and at least an eighth
  of the blob cache, not fewer than before, with the byte limit multiplied (saturating) by the
  rounded-up ratio of the transaction limits, so the bytes allowed per transaction do not drop.\<close>

lemma pool_limits_scale:
  fixes l :: sub_pool_limit and cache :: u32
  defines "l' \<equiv> scale_blob_limit l (min_blob_txs cache)"
  assumes "0 < max_txs l" and "unat (max_txs l) \<le> 2 ^ 63"
  shows "unat (max_txs l') = max (unat (max_txs l)) (max (unat cache * 4 div 32) 512) \<and>
    unat (max_size l') =
      min (unat (max_size l) * ((unat (max_txs l') + unat (max_txs l) - 1) div unat (max_txs l)))
          (2 ^ 64 - 1) \<and>
    max_size l \<le> max_size l'"
  using scaled_sizes [OF assms(2,3), of cache] by (simp add: l'_def)

lemma pool_limits_scale_witness:
  "let l = \<lparr>max_txs = 10000, max_size = 20971520\<rparr> in
     max_size l \<le> max_size (scale_blob_limit l (min_blob_txs 32768))"
  using pool_limits_scale [of "\<lparr>max_txs = 10000, max_size = 20971520\<rparr>" 32768]
  by (simp add: Let_def)

text \<open>C36. For a default blob transaction limit above half the \<open>usize\<close> range (an "unlimited"
  setting such as \<open>usize::MAX\<close>) the unchecked sum in the scaling factor wraps, the factor
  becomes 0 and the byte limit of the blob subpool is set to 0.\<close>

theorem pool_limit_overflow:
  assumes "2 ^ 63 < unat (max_txs l)"
  shows "max_size (scale_blob_limit l (min_blob_txs cache)) = 0"
proof -
  have "max (max_txs l) (min_blob_txs cache) = max_txs l"
    using assms min_blob_txs_small [of cache] by (simp add: max_def word_le_nat_alt)
  then show ?thesis
    by (simp only: scale_blob_limit_def Let_def scale_wraps [OF assms] saturating_mul_def) simp
qed

theorem pool_limit_overflow_witness:
  "max_size (scale_blob_limit \<lparr>max_txs = - 1, max_size = 20971520\<rparr> (min_blob_txs 32768)) = 0"
  by (rule pool_limit_overflow) (simp add: unsigned_minus_1_eq_mask mask_eq_exp_minus_1)

lemma pool_cache_size_witness:
  "\<exists>s. from_genesis example_spec_lib load_dev_genesis = Inr s \<and>
     blob_cache_size (size_pool example_spec_lib 32 s 1700000000
       \<lparr>blob_cache_size = None, blob_limit = \<lparr>max_txs = 10000, max_size = 20971520\<rparr>\<rparr>) = Some 32768"
proof -
  obtain s where s: "from_genesis example_spec_lib load_dev_genesis = Inr s"
    using genesis_ok_builtin by (auto simp: from_genesis_Inr)
  have "blob_params_at_timestamp example_spec_lib s 1700000000 =
      Some (load_blob_params example_spec_lib)"
    by (simp add: from_genesis_blob_params [OF example_spec_lib_laws s]
        from_genesis_active [OF example_spec_lib_laws s])
  from s pool_cache_size [where conf =
      "\<lparr>blob_cache_size = None, blob_limit = \<lparr>max_txs = 10000, max_size = 20971520\<rparr>\<rparr>", OF this]
  show ?thesis by (simp add: load_blob_params_def)
qed

end
