(* ===== verification/Pool_Build.thy ===== *)
theory Pool_Build
  imports Pool Metrics
begin

section \<open>Building the transaction pool (\<open>src/pool/mod.rs\<close>)\<close>

text \<open>
  \<open>LoadPoolBuilder::build_pool\<close> with its effects: the blob store it opens, the validator it
  configures, the pool it starts and the background tasks it spawns, in the order of the code,
  with every \<open>?\<close> a failure that leaves the effects before it. What the builder context offers is
  the record \<open>pool_context\<close>, what upstream does with it the fields of \<open>pool_lib\<close>: \<open>'st\<close> is the blob
  store, \<open>'kz\<close> the KZG settings, \<open>'loc\<close> the local transaction settings, \<open>'task\<close> an additional
  validation task count, \<open>'v\<close> the validator, \<open>'pl\<close> the pool.
\<close>

record 'loc full_pool_config = pool_config +
  local_transactions_config :: 'loc

record ('loc, 'task) pool_context =
  pc_pool_config :: "'loc full_pool_config"
  pc_clock :: "u64 option"
  pc_head_timestamp :: u64
  pc_max_tx_input_bytes :: usize
  pc_tx_fee_cap :: u128
  pc_max_tx_gas_limit :: "u64 option"
  pc_minimum_priority_fee :: "u128 option"
  pc_additional_validation_tasks :: 'task

record ('loc, 'kz, 'task) validator_settings =
  vs_head_timestamp :: u64
  vs_eip4844 :: bool
  vs_kzg_settings :: 'kz
  vs_max_tx_input_bytes :: usize
  vs_local_transactions_config :: 'loc
  vs_tx_fee_cap :: u128
  vs_max_tx_gas_limit :: "u64 option"
  vs_minimum_priority_fee :: "u128 option"
  vs_additional_tasks :: 'task

record ('loc, 'kz, 'task, 'st, 'v, 'pl, 'x) pool_lib =
  EPOCH_SLOTS :: u64
  create_blob_store_with_cache :: "u32 option \<Rightarrow> 'x + 'st"
  ctx_kzg_settings :: "'x + 'kz"
  build_with_tasks :: "('loc, 'kz, 'task) validator_settings \<Rightarrow> 'st \<Rightarrow> 'v"
  validator_settings_of :: "'v \<Rightarrow> ('loc, 'kz, 'task) validator_settings"
  build_and_spawn_maintenance_task :: "'v \<Rightarrow> 'st \<Rightarrow> 'loc full_pool_config \<Rightarrow> 'x + 'pl"

datatype 'x pool_error = SystemTimeError | PoolUpstream 'x

text \<open>What a call of \<open>build_pool\<close> leaves behind, in order.\<close>

datatype ('kz, 'pl) pool_effect =
    BlobStoreCreated "u32 option"
  | InitKzgSpawned 'kz
  | MaintenanceSpawned 'pl
  | BlobMetricsSpawned 'pl load_blob_cache_metrics

definition pool_validator_settings ::
  "('loc, 'task) pool_context \<Rightarrow> 'loc full_pool_config \<Rightarrow> 'kz \<Rightarrow> ('loc, 'kz, 'task) validator_settings" where
  "pool_validator_settings ctx conf kzg =
     \<lparr>vs_head_timestamp = pc_head_timestamp ctx,
      vs_eip4844 = True,
      vs_kzg_settings = kzg,
      vs_max_tx_input_bytes = pc_max_tx_input_bytes ctx,
      vs_local_transactions_config = local_transactions_config conf,
      vs_tx_fee_cap = pc_tx_fee_cap ctx,
      vs_max_tx_gas_limit = pc_max_tx_gas_limit ctx,
      vs_minimum_priority_fee = pc_minimum_priority_fee ctx,
      vs_additional_tasks = pc_additional_validation_tasks ctx\<rparr>"

text \<open>Spawned only if the validator accepts blob transactions.\<close>

definition kzg_warmup :: "('loc, 'kz, 'task) validator_settings \<Rightarrow> ('kz, 'pl) pool_effect list" where
  "kzg_warmup settings = (if vs_eip4844 settings then [InitKzgSpawned (vs_kzg_settings settings)] else [])"

definition build_pool ::
  "'c spec_lib \<Rightarrow> ('loc, 'kz, 'task, 'st, 'v, 'pl, 'x) pool_lib \<Rightarrow> 'c load_chain_spec \<Rightarrow>
   ('loc, 'task) pool_context \<Rightarrow> ('kz, 'pl) pool_effect list \<times> ('x pool_error + 'pl)" where
  "build_pool slib plib spec ctx =
     (case pc_clock ctx of
        None \<Rightarrow> ([], Inl SystemTimeError)
      | Some current_timestamp \<Rightarrow>
          (let conf = size_pool slib (EPOCH_SLOTS plib) spec current_timestamp (pc_pool_config ctx)
           in case create_blob_store_with_cache plib (blob_cache_size conf) of
                Inl e \<Rightarrow> ([], Inl (PoolUpstream e))
              | Inr blob_store \<Rightarrow>
                  (let effects = [BlobStoreCreated (blob_cache_size conf)]
                   in case ctx_kzg_settings plib of
                        Inl e \<Rightarrow> (effects, Inl (PoolUpstream e))
                      | Inr kzg \<Rightarrow>
                          (let validator = build_with_tasks plib (pool_validator_settings ctx conf kzg) blob_store;
                               effects1 = effects @ kzg_warmup (validator_settings_of plib validator)
                           in case build_and_spawn_maintenance_task plib validator blob_store conf of
                                Inl e \<Rightarrow> (effects1, Inl (PoolUpstream e))
                              | Inr pool \<Rightarrow>
                                  (effects1 @ [MaintenanceSpawned pool,
                                     BlobMetricsSpawned pool blob_cache_metrics_new], Inr pool)))))"

text \<open>
  One tick of the metrics loop reads the number of blobs and the size hint of the store; the loop
  is run for a given sequence of readings.
\<close>

definition blob_metrics_tick :: "usize \<times> usize option \<Rightarrow> load_blob_cache_metrics \<Rightarrow> load_blob_cache_metrics" where
  "blob_metrics_tick reading m =
     (case reading of (items, size_hint) \<Rightarrow> record_blob_cache items (map_option ucast size_hint) m)"

fun blob_metrics_loop :: "(usize \<times> usize option) list \<Rightarrow> load_blob_cache_metrics \<Rightarrow> load_blob_cache_metrics" where
  "blob_metrics_loop [] m = m"
| "blob_metrics_loop (reading # rs) m = blob_metrics_loop rs (blob_metrics_tick reading m)"

subsection \<open>Lemmas\<close>

text \<open>Documented of the validator builder: the validator has the settings it was built with.\<close>

definition validator_law :: "('loc, 'kz, 'task, 'st, 'v, 'pl, 'x) pool_lib \<Rightarrow> bool" where
  "validator_law plib \<longleftrightarrow> (\<forall>vs st. validator_settings_of plib (build_with_tasks plib vs st) = vs)"

lemma size_pool_more [simp]:
  "local_transactions_config (size_pool slib slots spec now conf) = local_transactions_config conf"
  by (simp add: size_pool_def Let_def)

lemma blob_metrics_loop_gauges:
  "gauge_items (blob_metrics_loop rs m) = (if rs = [] then gauge_items m else Some (fst (last rs)))"
  "gauge_bytes (blob_metrics_loop rs m) =
     (case filter (\<lambda>h. h \<noteq> None) (map snd rs) of
        [] \<Rightarrow> gauge_bytes m | hs \<Rightarrow> map_option ucast (last hs))"
proof (induction rs arbitrary: m)
  case (Cons r rs)
  obtain items hint where r: "r = (items, hint)" by (cases r)
  {
    case 1
    show ?case using Cons(1) by (simp add: r blob_metrics_tick_def record_blob_cache_def Let_def
          split: option.split)
  next
    case 2
    show ?case using Cons(2)
      by (cases "filter (\<lambda>h. h \<noteq> None) (map snd rs)"; cases hint)
        (simp_all add: r blob_metrics_tick_def record_blob_cache_def Let_def)
  }
qed simp_all

lemma build_pool_success:
  assumes "build_pool slib plib spec ctx = (effects, Inr pool)" and "validator_law plib"
  obtains now st kzg where "pc_clock ctx = Some now"
    and "create_blob_store_with_cache plib
      (blob_cache_size (size_pool slib (EPOCH_SLOTS plib) spec now (pc_pool_config ctx))) = Inr st"
    and "build_and_spawn_maintenance_task plib (build_with_tasks plib (pool_validator_settings ctx
      (size_pool slib (EPOCH_SLOTS plib) spec now (pc_pool_config ctx)) kzg) st) st
      (size_pool slib (EPOCH_SLOTS plib) spec now (pc_pool_config ctx)) = Inr pool"
    and "effects = [BlobStoreCreated (blob_cache_size (size_pool slib (EPOCH_SLOTS plib) spec now (pc_pool_config ctx))),
      InitKzgSpawned kzg, MaintenanceSpawned pool, BlobMetricsSpawned pool blob_cache_metrics_new]"
  using assms
  by (auto simp: build_pool_def Let_def validator_law_def kzg_warmup_def pool_validator_settings_def
      split: option.splits sum.splits)

text \<open>A pool that cannot be built leaves no task of a pool behind.\<close>

fun pool_task :: "('kz, 'pl) pool_effect \<Rightarrow> bool" where
  "pool_task (MaintenanceSpawned p) = True"
| "pool_task (BlobMetricsSpawned p m) = True"
| "pool_task e = False"

lemma build_pool_failure:
  assumes "build_pool slib plib spec ctx = (effects, Inl e)"
  shows "list_all (Not \<circ> pool_task) effects \<and> (e = SystemTimeError \<longleftrightarrow> pc_clock ctx = None)"
  using assms
  by (auto simp: build_pool_def Let_def kzg_warmup_def split: option.splits sum.splits if_splits)

lemma size_pool_load:
  assumes "spec_lib_laws slib" and "from_genesis slib g = Inr spec"
    and "\<not> is_active_at_timestamp slib spec Osaka now"
    and "blob_cache_size conf = None"
    and "0 < max_txs (blob_limit conf)" and "unat (max_txs (blob_limit conf)) \<le> 2 ^ 63"
  shows "blob_cache_size (size_pool slib 32 spec now conf) = Some 32768"
    and "unat (max_txs (blob_limit (size_pool slib 32 spec now conf))) =
      max (unat (max_txs (blob_limit conf))) 4096"
    and "max_size (blob_limit conf) \<le> max_size (blob_limit (size_pool slib 32 spec now conf))"
proof -
  have "blob_params_at_timestamp slib spec now = Some (load_blob_params slib)"
    using assms(3) by (simp add: from_genesis_blob_params [OF assms(1,2)])
  then have conf': "size_pool slib 32 spec now conf =
      conf\<lparr>blob_cache_size := Some 32768,
        blob_limit := scale_blob_limit (blob_limit conf) (min_blob_txs 32768)\<rparr>"
    using assms(4) by (simp add: size_pool_def Let_def calculated_blob_cache_def load_blob_params_def
        load_constants saturating_mul_def)
  note scaled = scaled_sizes [OF assms(5,6), of 32768]
  show "blob_cache_size (size_pool slib 32 spec now conf) = Some 32768" by (simp add: conf')
  show "unat (max_txs (blob_limit (size_pool slib 32 spec now conf))) =
      max (unat (max_txs (blob_limit conf))) 4096"
    using scaled by (simp add: conf')
  show "max_size (blob_limit conf) \<le> max_size (blob_limit (size_pool slib 32 spec now conf))"
    using scaled by (simp add: conf')
qed

subsection \<open>Properties\<close>

text \<open>C27. A pool built before Osaka on a spec made from an accepted genesis, with no explicit cache
  size: its blob store caches 32,768 blobs (two epochs of the Load target), its blob subpool takes
  at least 4096 transactions (four times the cache at 32 blobs each) and no fewer than the default, with no
  smaller byte limit; the validator accepts blob transactions and its KZG settings are warmed
  up; and the maintenance and metrics tasks run on the very pool that is returned.\<close>

theorem build_pool_sized_for_load:
  assumes "spec_lib_laws slib" and "from_genesis slib g = Inr spec"
    and "EPOCH_SLOTS plib = 32" and "validator_law plib"
    and "build_pool slib plib spec ctx = (effects, Inr pool)"
    and "pc_clock ctx = Some now" and "\<not> is_active_at_timestamp slib spec Osaka now"
    and "blob_cache_size (pc_pool_config ctx) = None"
    and "0 < max_txs (blob_limit (pc_pool_config ctx))"
    and "unat (max_txs (blob_limit (pc_pool_config ctx))) \<le> 2 ^ 63"
  shows "\<exists>conf vs st kzg.
    build_and_spawn_maintenance_task plib (build_with_tasks plib vs st) st conf = Inr pool \<and>
    create_blob_store_with_cache plib (Some 32768) = Inr st \<and>
    vs_eip4844 vs \<and> vs_kzg_settings vs = kzg \<and>
    vs_local_transactions_config vs = local_transactions_config (pc_pool_config ctx) \<and>
    unat (max_txs (blob_limit conf)) = max (unat (max_txs (blob_limit (pc_pool_config ctx)))) 4096 \<and>
    max_size (blob_limit (pc_pool_config ctx)) \<le> max_size (blob_limit conf) \<and>
    effects = [BlobStoreCreated (Some 32768), InitKzgSpawned kzg, MaintenanceSpawned pool,
      BlobMetricsSpawned pool blob_cache_metrics_new]"
proof -
  let ?conf = "size_pool slib 32 spec now (pc_pool_config ctx)"
  note sized = size_pool_load [OF assms(1,2,7-10)]
  obtain st kzg where built:
    "create_blob_store_with_cache plib (Some 32768) = Inr st"
    "build_and_spawn_maintenance_task plib (build_with_tasks plib (pool_validator_settings ctx ?conf kzg) st)
       st ?conf = Inr pool"
    "effects = [BlobStoreCreated (Some 32768), InitKzgSpawned kzg, MaintenanceSpawned pool,
       BlobMetricsSpawned pool blob_cache_metrics_new]"
    using build_pool_success [OF assms(5,4)] assms(3,6) sized(1) by (metis option.inject)
  have "vs_eip4844 (pool_validator_settings ctx ?conf kzg)"
    "vs_kzg_settings (pool_validator_settings ctx ?conf kzg) = kzg"
    "vs_local_transactions_config (pool_validator_settings ctx ?conf kzg) =
       local_transactions_config (pc_pool_config ctx)"
    by (simp_all add: pool_validator_settings_def)
  with built sized(2,3) show ?thesis by blast
qed

text \<open>An instance: a store is its cache size, a pool its settings and its configuration.\<close>

definition example_pool_lib ::
  "(unit, unit, nat, u32 option, (unit, unit, nat) validator_settings, unit full_pool_config, unit) pool_lib" where
  "example_pool_lib = \<lparr>EPOCH_SLOTS = 32, create_blob_store_with_cache = Inr, ctx_kzg_settings = Inr (),
     build_with_tasks = (\<lambda>vs st. vs), validator_settings_of = (\<lambda>v. v),
     build_and_spawn_maintenance_task = (\<lambda>v st conf. Inr conf)\<rparr>"

definition example_pool_context :: "(unit, nat) pool_context" where
  "example_pool_context = \<lparr>pc_pool_config = \<lparr>blob_cache_size = None,
       blob_limit = \<lparr>max_txs = 10000, max_size = 20971520\<rparr>, local_transactions_config = ()\<rparr>,
     pc_clock = Some 1700000000, pc_head_timestamp = 0, pc_max_tx_input_bytes = 131072,
     pc_tx_fee_cap = 0, pc_max_tx_gas_limit = None, pc_minimum_priority_fee = None,
     pc_additional_validation_tasks = 1\<rparr>"

theorem build_pool_sized_for_load_witness:
  "\<exists>spec pool. from_genesis example_spec_lib load_dev_genesis = Inr spec \<and>
     build_pool example_spec_lib example_pool_lib spec example_pool_context =
       ([BlobStoreCreated (Some 32768), InitKzgSpawned (), MaintenanceSpawned pool,
         BlobMetricsSpawned pool blob_cache_metrics_new], Inr pool)"
proof -
  obtain s where s: "from_genesis example_spec_lib load_dev_genesis = Inr s"
    using genesis_ok_builtin by (auto simp: from_genesis_Inr)
  have now: "pc_clock example_pool_context = Some 1700000000" "EPOCH_SLOTS example_pool_lib = 32"
    "blob_cache_size (pc_pool_config example_pool_context) = None"
    "0 < max_txs (blob_limit (pc_pool_config example_pool_context))"
    "unat (max_txs (blob_limit (pc_pool_config example_pool_context))) \<le> 2 ^ 63"
    by (simp_all add: example_pool_context_def example_pool_lib_def)
  have law: "validator_law example_pool_lib"
    by (simp add: validator_law_def example_pool_lib_def)
  have osaka: "\<not> is_active_at_timestamp example_spec_lib s Osaka 1700000000"
    by (simp add: from_genesis_active [OF example_spec_lib_laws s])
  obtain effects pool where
    b: "build_pool example_spec_lib example_pool_lib s example_pool_context = (effects, Inr pool)"
    by (simp add: build_pool_def now Let_def example_pool_lib_def)
  from build_pool_sized_for_load [OF example_spec_lib_laws s now(2) law b now(1) osaka now(3-5)]
  have "effects = [BlobStoreCreated (Some 32768), InitKzgSpawned (), MaintenanceSpawned pool,
      BlobMetricsSpawned pool blob_cache_metrics_new]" by auto
  with s b show ?thesis by blast
qed

end
