(* ===== verification/Node.thy ===== *)
theory Node
  imports Backpressure Builder Evm_Config Engine_Build Payload_Access Pool_Build
begin

section \<open>Node assembly (\<open>src/node/mod.rs\<close>, \<open>src/rpc/mod.rs\<close>, \<open>src/main.rs\<close>)\<close>

text \<open>
  What the node hands to upstream: the configuration of the network it starts, the component
  builders, the RPC add-ons with the backpressure layer read from the environment, the debug
  hooks, and the start of the process. What upstream does with them is the record of each part:
  \<open>network_lib\<close> (network builder and manager, \<open>'f\<close>, \<open>'m\<close> and \<open>'h\<close> the fields of its configurations the
  code does not touch), \<open>add_ons_lib\<close> (hooks and launch of the upstream add-ons), \<open>main_lib\<close>
  (defaults, runtime, CLI).
\<close>

subsection \<open>Network\<close>

record tx_fetcher_config =
  soft_limit_response :: usize
  soft_limit_response_on_pack_request :: usize

record 'f tx_manager_config =
  transaction_fetcher_config :: "'f tx_fetcher_config_scheme"

record hello_message =
  hello_client_version :: string

record ('f, 'm, 'h) network_config =
  nc_transactions_manager_config :: "('f, 'm) tx_manager_config_scheme"
  nc_hello_message :: "'h hello_message_scheme"

record ('f, 'm, 'h, 'nb, 'mgr, 'pl, 'hdl, 'x) network_lib =
  network_config_builder :: "'x + 'nb"
  ctx_transactions_manager_config :: "('f, 'm) tx_manager_config_scheme"
  with_transactions_manager_config :: "('f, 'm) tx_manager_config_scheme \<Rightarrow> 'nb \<Rightarrow> 'nb"
  build_network_config :: "'nb \<Rightarrow> ('f, 'm, 'h) network_config"
  network_manager_builder :: "('f, 'm, 'h) network_config \<Rightarrow> 'x + 'mgr"
  start_network :: "'mgr \<Rightarrow> 'pl \<Rightarrow> 'hdl"

text \<open>\<open>BYTES_PER_BLOB\<close> is the constant of EIP-4844 (131072), an argument here.\<close>

definition LOAD_POOLED_TX_SOFT_LIMIT_BYTES :: "usize \<Rightarrow> usize" where
  "LOAD_POOLED_TX_SOFT_LIMIT_BYTES bytes_per_blob = ucast LOAD_MAX_BLOBS_PER_TX * bytes_per_blob"

definition load_tx_manager_config ::
  "usize \<Rightarrow> ('f, 'm) tx_manager_config_scheme \<Rightarrow> ('f, 'm) tx_manager_config_scheme" where
  "load_tx_manager_config bytes_per_blob tx_config0 =
     (let limit = LOAD_POOLED_TX_SOFT_LIMIT_BYTES bytes_per_blob;
          tx_config1 = tx_config0\<lparr>transaction_fetcher_config :=
            (transaction_fetcher_config tx_config0)\<lparr>soft_limit_response := limit\<rparr>\<rparr>
      in tx_config1\<lparr>transaction_fetcher_config :=
           (transaction_fetcher_config tx_config1)\<lparr>soft_limit_response_on_pack_request := limit\<rparr>\<rparr>)"

definition load_network_config ::
  "('f, 'm, 'h, 'nb, 'mgr, 'pl, 'hdl, 'x) network_lib \<Rightarrow> usize \<Rightarrow> build_env \<Rightarrow> 'nb \<Rightarrow>
   ('f, 'm, 'h) network_config" where
  "load_network_config nlib bytes_per_blob build network_builder0 =
     (let tx_config = load_tx_manager_config bytes_per_blob (ctx_transactions_manager_config nlib);
          network_builder = with_transactions_manager_config nlib tx_config network_builder0;
          network_config0 = build_network_config nlib network_builder
      in network_config0\<lparr>nc_hello_message :=
           (nc_hello_message network_config0)\<lparr>hello_client_version :=
              load_client_version_string (CARGO_PKG_VERSION build) (VERGEN_GIT_SHA_SHORT build)\<rparr>\<rparr>)"

definition build_network ::
  "('f, 'm, 'h, 'nb, 'mgr, 'pl, 'hdl, 'x) network_lib \<Rightarrow> usize \<Rightarrow> build_env \<Rightarrow> 'pl \<Rightarrow> 'x + 'hdl" where
  "build_network nlib bytes_per_blob build pool =
     rbind (network_config_builder nlib) (\<lambda>network_builder.
       rbind (network_manager_builder nlib (load_network_config nlib bytes_per_blob build network_builder))
         (\<lambda>builder. Inr (start_network nlib builder pool)))"

subsection \<open>Component builders and RPC add-ons\<close>

text \<open>The unit structures of the builders, and the builders that wrap another.\<close>

datatype load_pool_builder = LoadPoolBuilder
datatype load_executor_builder = LoadExecutorBuilder
datatype load_network_builder = LoadNetworkBuilder
datatype load_consensus_builder = LoadConsensusBuilder
datatype load_payload_service_builder = LoadPayloadServiceBuilder
datatype load_engine_validator_builder = LoadEngineValidatorBuilder
datatype ethereum_eth_api_builder = EthereumEthApiBuilder
datatype 'b basic_payload_service_builder = BasicPayloadServiceBuilder 'b
datatype 'b basic_engine_validator_builder = BasicEngineValidatorBuilder 'b

record 'pvb load_engine_api_builder =
  payload_validator_builder :: 'pvb

definition engine_api_builder_new :: "'pvb \<Rightarrow> 'pvb load_engine_api_builder" where
  "engine_api_builder_new pvb = \<lparr>payload_validator_builder = pvb\<rparr>"

definition engine_api_builder_default :: "'pvb \<Rightarrow> 'pvb load_engine_api_builder" where
  "engine_api_builder_default pvb_default = \<lparr>payload_validator_builder = pvb_default\<rparr>"

record node_components =
  cb_pool :: load_pool_builder
  cb_executor :: load_executor_builder
  cb_payload :: "load_payload_service_builder basic_payload_service_builder"
  cb_network :: load_network_builder
  cb_consensus :: load_consensus_builder

definition components_builder :: node_components where
  "components_builder =
     \<lparr>cb_pool = LoadPoolBuilder,
      cb_executor = LoadExecutorBuilder,
      cb_payload = BasicPayloadServiceBuilder LoadPayloadServiceBuilder,
      cb_network = LoadNetworkBuilder,
      cb_consensus = LoadConsensusBuilder\<rparr>"

record rpc_add_ons =
  ao_eth_api :: ethereum_eth_api_builder
  ao_payload_validator :: load_engine_validator_builder
  ao_engine_api :: "load_engine_validator_builder load_engine_api_builder"
  ao_engine_validator :: "load_engine_validator_builder basic_engine_validator_builder"
  ao_rpc_middleware :: backpressure_state

definition add_ons :: "environment \<Rightarrow> rpc_add_ons" where
  "add_ons env =
     \<lparr>ao_eth_api = EthereumEthApiBuilder,
      ao_payload_validator = LoadEngineValidatorBuilder,
      ao_engine_api = engine_api_builder_default LoadEngineValidatorBuilder,
      ao_engine_validator = BasicEngineValidatorBuilder LoadEngineValidatorBuilder,
      ao_rpc_middleware = layer_from_env env\<rparr>"

text \<open>\<open>LoadAddOns\<close> (\<open>rpc/mod.rs\<close>) wraps the same add-ons and hands everything to them; the mutable
  reference of \<open>hooks_mut\<close> is an update of the hooks in place.\<close>

record load_add_ons =
  la_inner :: rpc_add_ons

definition load_add_ons_default :: "environment \<Rightarrow> load_add_ons" where
  "load_add_ons_default env = \<lparr>la_inner =
     \<lparr>ao_eth_api = EthereumEthApiBuilder,
      ao_payload_validator = LoadEngineValidatorBuilder,
      ao_engine_api = engine_api_builder_default LoadEngineValidatorBuilder,
      ao_engine_validator = BasicEngineValidatorBuilder LoadEngineValidatorBuilder,
      ao_rpc_middleware = layer_from_env env\<rparr>\<rparr>"

record ('hk, 'ctx, 'e, 'hdl) add_ons_lib =
  up_hooks_mut :: "('hk \<Rightarrow> 'hk) \<Rightarrow> rpc_add_ons \<Rightarrow> rpc_add_ons"
  up_launch_add_ons :: "rpc_add_ons \<Rightarrow> 'ctx \<Rightarrow> 'e + 'hdl"

definition hooks_mut ::
  "('hk, 'ctx, 'e, 'hdl) add_ons_lib \<Rightarrow> ('hk \<Rightarrow> 'hk) \<Rightarrow> load_add_ons \<Rightarrow> load_add_ons" where
  "hooks_mut alib f self = self\<lparr>la_inner := up_hooks_mut alib f (la_inner self)\<rparr>"

definition launch_add_ons ::
  "('hk, 'ctx, 'e, 'hdl) add_ons_lib \<Rightarrow> load_add_ons \<Rightarrow> 'ctx \<Rightarrow> 'e + 'hdl" where
  "launch_add_ons alib self ctx = up_launch_add_ons alib (la_inner self) ctx"

subsection \<open>Debug node\<close>

definition rpc_to_primitive_block ::
  "('rb \<Rightarrow> 'cb) \<Rightarrow> ('cb \<Rightarrow> 'pb) \<Rightarrow> 'rb \<Rightarrow> 'pb" where
  "rpc_to_primitive_block into_consensus convert_transactions rpc_block =
     convert_transactions (into_consensus rpc_block)"

definition local_payload_attributes_builder ::
  "'c load_chain_spec \<Rightarrow> 'c local_attributes_builder" where
  "local_payload_attributes_builder chain_spec = \<lparr>local_chain_spec = chain_spec\<rparr>"

subsection \<open>The process\<close>

text \<open>
  \<open>main\<close>, from the environment it is started with: what it does before and around the command line
  interface, in order, and how it ends. Parsing the command line (which may print and exit by
  itself) and running it are upstream's; the closure that launches the node is an argument of the
  latter. \<open>'e\<close> is the error of the CLI, \<open>'i\<close> and \<open>'r\<close> those of the engine defaults and the runtime.
\<close>

record ('c, 'x, 'cons, 'nb, 'nd, 'cli, 'rt, 'i, 'r, 'e) main_lib =
  try_init_persistence_threshold :: "u64 \<Rightarrow> 'i + unit"
  cli_parse :: 'cli
  try_default_runtime :: "'r + 'rt"
  with_runner_and_components ::
    "'cli \<Rightarrow> 'rt \<Rightarrow> ('c load_chain_spec \<Rightarrow> ('c, 'x) load_evm_config \<times> 'cons) \<Rightarrow>
     ('nb \<Rightarrow> 'e + unit) \<Rightarrow> environment \<Rightarrow> 'e + unit"
  launch_load_node :: "'nb \<Rightarrow> 'e + ('nd \<times> ('e + unit))"

datatype main_effect =
    InstallSigsegvHandler
  | SetVar string string
  | PersistenceThreshold u64
  | RunCli environment
  | PrintError

datatype main_exit = ExitSuccess | ExitFailure | PanicThreshold | PanicRuntime

definition cli_components_builder ::
  "('c, 'x, 'bl, 'ctx, 'it, 'fac, 'asm, 'cons) evm_lib \<Rightarrow> 'c load_chain_spec \<Rightarrow>
   ('c, 'x) load_evm_config \<times> 'cons" where
  "cli_components_builder elib spec = (evm_config_new elib spec, beacon_consensus_new elib spec)"

text \<open>\<open>builder.node(LoadNode::default()).launch().await?\<close>, then the exit future.\<close>

definition run_node ::
  "('c, 'x, 'cons, 'nb, 'nd, 'cli, 'rt, 'i, 'r, 'e) main_lib \<Rightarrow> 'nb \<Rightarrow> 'e + unit" where
  "run_node mlib builder =
     rbind (launch_load_node mlib builder) (\<lambda>handle. case handle of (node, node_exit_future) \<Rightarrow> node_exit_future)"

definition default_backtrace :: "environment \<Rightarrow> main_effect list \<times> environment" where
  "default_backtrace env =
     (if env ''RUST_BACKTRACE'' = Inl NotPresent
      then ([SetVar ''RUST_BACKTRACE'' ''1''], env(''RUST_BACKTRACE'' := Inr ''1''))
      else ([], env))"

definition main ::
  "('c, 'x, 'cons, 'nb, 'nd, 'cli, 'rt, 'i, 'r, 'e) main_lib \<Rightarrow>
   ('c, 'x, 'bl, 'ctx, 'it, 'fac, 'asm, 'cons) evm_lib \<Rightarrow> environment \<Rightarrow> main_effect list \<times> main_exit" where
  "main mlib elib env0 =
     (let (set_var, env) = default_backtrace env0;
          effects = InstallSigsegvHandler # set_var
      in case try_init_persistence_threshold mlib 0 of
           Inl err \<Rightarrow> (effects @ [PrintError], PanicThreshold)
         | Inr _ \<Rightarrow>
             (let effects1 = effects @ [PersistenceThreshold 0];
                  cli = cli_parse mlib
              in case try_default_runtime mlib of
                   Inl err \<Rightarrow> (effects1, PanicRuntime)
                 | Inr runtime \<Rightarrow>
                     (case with_runner_and_components mlib cli runtime (cli_components_builder elib)
                             (run_node mlib) env of
                        Inl err \<Rightarrow> (effects1 @ [RunCli env, PrintError], ExitFailure)
                      | Inr _ \<Rightarrow> (effects1 @ [RunCli env], ExitSuccess))))"

subsection \<open>Lemmas\<close>

lemma soft_limit_bytes:
  "LOAD_POOLED_TX_SOFT_LIMIT_BYTES 131072 = 4194304"
  by (simp add: LOAD_POOLED_TX_SOFT_LIMIT_BYTES_def load_constants)

lemma load_tx_manager_config_fields [simp]:
  "transaction_fetcher_config (load_tx_manager_config n c) =
     (transaction_fetcher_config c)\<lparr>soft_limit_response := LOAD_POOLED_TX_SOFT_LIMIT_BYTES n,
       soft_limit_response_on_pack_request := LOAD_POOLED_TX_SOFT_LIMIT_BYTES n\<rparr>"
  "tx_manager_config.more (load_tx_manager_config n c) = tx_manager_config.more c"
  by (simp_all add: load_tx_manager_config_def Let_def)

text \<open>The two spellings of the add-ons of a Load node agree.\<close>

lemma load_add_ons_default_inner: "la_inner (load_add_ons_default env) = add_ons env"
  by (simp add: load_add_ons_default_def add_ons_def)

text \<open>The backpressure configuration does not read the variable \<open>main\<close> sets.\<close>

lemma config_from_env_backtrace:
  "config_from_env (env(''RUST_BACKTRACE'' := x)) = config_from_env env"
  by (simp add: config_from_env_def parse_env_limit_def parse_env_mb_as_bytes_def backpressure_constants)

lemma add_ons_backtrace: "add_ons (env(''RUST_BACKTRACE'' := x)) = add_ons env"
  by (simp add: add_ons_def layer_from_env_def config_from_env_backtrace)

lemma default_backtrace_env:
  assumes "default_backtrace env = (set_var, env')"
  shows "\<forall>r. RunCli r \<notin> set set_var" and "PrintError \<notin> set set_var"
    and "env' ''RUST_BACKTRACE'' \<noteq> Inl NotPresent" and "env ''RUST_BACKTRACE'' \<noteq> Inl NotPresent \<Longrightarrow> env' = env" and "add_ons env' = add_ons env"
  using assms by (auto simp: default_backtrace_def add_ons_backtrace split: if_splits)

text \<open>The four ways a run can go.\<close>

lemma main_cases:
  obtains set_var renv where "default_backtrace env = (set_var, renv)"
    and "\<not> is_ok (try_init_persistence_threshold mlib 0)"
    and "main mlib elib env = (InstallSigsegvHandler # set_var @ [PrintError], PanicThreshold)"
  | set_var renv where "default_backtrace env = (set_var, renv)"
    and "is_ok (try_init_persistence_threshold mlib 0)" and "\<not> is_ok (try_default_runtime mlib)"
    and "main mlib elib env = (InstallSigsegvHandler # set_var @ [PersistenceThreshold 0], PanicRuntime)"
  | set_var renv runtime r where "default_backtrace env = (set_var, renv)"
    and "is_ok (try_init_persistence_threshold mlib 0)" and "try_default_runtime mlib = Inr runtime"
    and "with_runner_and_components mlib (cli_parse mlib) runtime (cli_components_builder elib)
      (run_node mlib) renv = r"
    and "main mlib elib env =
      ((InstallSigsegvHandler # set_var @ [PersistenceThreshold 0]) @
         RunCli renv # (if is_ok r then [] else [PrintError]),
       if is_ok r then ExitSuccess else ExitFailure)"
proof -
  obtain set_var renv where b: "default_backtrace env = (set_var, renv)" by (cases "default_backtrace env")
  show thesis
  proof (cases "try_init_persistence_threshold mlib 0")
    case (Inl err)
    with b that(1) show thesis by (simp add: main_def Let_def)
  next
    case init: (Inr u)
    show thesis
    proof (cases "try_default_runtime mlib")
      case (Inl err)
      with b init that(2) show thesis by (simp add: main_def Let_def)
    next
      case (Inr runtime)
      let ?r = "with_runner_and_components mlib (cli_parse mlib) runtime (cli_components_builder elib)
        (run_node mlib) renv"
      show thesis
        using b init Inr by (intro that(3) [of set_var renv runtime ?r])
          (auto simp: main_def Let_def split: sum.split)
    qed
  qed
qed

fun is_run_cli :: "main_effect \<Rightarrow> bool" where
  "is_run_cli (RunCli renv) = True"
| "is_run_cli e = False"

lemma is_run_cli_iff: "is_run_cli e \<longleftrightarrow> (\<exists>renv. e = RunCli renv)"
  by (cases e) simp_all

lemma no_run_cli: "filter is_run_cli es = [] \<longleftrightarrow> (\<forall>renv. RunCli renv \<notin> set es)"
  by (auto simp: filter_empty_conv is_run_cli_iff)

lemma split_at_run_cli:
  assumes "xs @ RunCli env # ys = before @ RunCli renv # after"
    and "\<forall>r. RunCli r \<notin> set xs" and "\<forall>r. RunCli r \<notin> set ys"
  shows "before = xs" and "renv = env"
  using assms by (auto simp: append_eq_append_conv2 Cons_eq_append_conv append_eq_Cons_conv)

text \<open>The attributes builder of the debug node makes the attributes for the chain it was given.\<close>

lemma local_builder_spec:
  "local_chain_spec (local_builder_clone (local_payload_attributes_builder s)) = s"
  by (simp add: local_builder_clone_def local_payload_attributes_builder_def)

text \<open>
  The components of one chain spec: executor, payload builder, validator, Engine API and local
  attributes builder are all made for the spec of the node's context.
\<close>

lemma components_share_spec:
  assumes "evm_lib_law elib" and "engine_lib_law enlib"
    and "build_evm elib spec = Inr evm" and "build_engine_validator (ac_chain ctx) = Inr validator"
    and "ac_chain ctx = spec"
    and "build_engine_api enlib vm build (Inr validator) ctx s = Inr (api, st)"
  shows "up_chain_spec (evm_inner evm) = spec" and "val_chain_spec validator = spec"
    and "inner_chain_spec api = spec"
    and "local_chain_spec (local_payload_attributes_builder spec) = spec"
  using assms
  by (auto simp: build_evm_def evm_config_new_def evm_lib_law_def build_engine_validator_def
      engine_validator_new_def build_engine_api_ok load_engine_api_new_def engine_lib_law_def local_payload_attributes_builder_def)

subsection \<open>Properties\<close>

text \<open>Documented of the upstream network: the configuration it builds has the transactions manager
  configuration the builder was given.\<close>

definition network_law :: "('f, 'm, 'h, 'nb, 'mgr, 'pl, 'hdl, 'x) network_lib \<Rightarrow> bool" where
  "network_law nlib \<longleftrightarrow>
     (\<forall>txc nb. nc_transactions_manager_config
        (build_network_config nlib (with_transactions_manager_config nlib txc nb)) = txc)"

lemma load_network_config_fields:
  assumes "network_law nlib" and "bytes_per_blob = 131072"
  shows "nc_transactions_manager_config (load_network_config nlib bytes_per_blob build nb) =
      load_tx_manager_config 131072 (ctx_transactions_manager_config nlib)"
    and "hello_client_version (nc_hello_message (load_network_config nlib bytes_per_blob build nb)) =
      load_client_version_string (CARGO_PKG_VERSION build) (VERGEN_GIT_SHA_SHORT build)"
  using assms by (simp_all add: load_network_config_def Let_def network_law_def)

text \<open>The network of a Load node: if it can be configured at all, the manager is started on the
  node's pool with both soft limits of pooled transaction responses at 4 MiB (the 32 blobs of a
  full transaction), every other transaction setting as the node configured it, and a hello
  message that names the same client version the Engine API advertises and reports;
  starting fails exactly when the configuration or the manager does.\<close>

lemma network_announces_load:
  assumes "network_law nlib" and "bytes_per_blob = 131072" and "capabilities_law api"
  shows "case build_network nlib bytes_per_blob build pool of
      Inl e \<Rightarrow> network_config_builder nlib = Inl e \<or> (\<exists>conf. network_manager_builder nlib conf = Inl e)
    | Inr handle \<Rightarrow> \<exists>conf manager fetcher.
        network_manager_builder nlib conf = Inr manager \<and> handle = start_network nlib manager pool \<and>
        fetcher = transaction_fetcher_config (nc_transactions_manager_config conf) \<and>
        soft_limit_response fetcher = 4194304 \<and> soft_limit_response_on_pack_request fetcher = 4194304 \<and>
        tx_fetcher_config.more fetcher =
          tx_fetcher_config.more (transaction_fetcher_config (ctx_transactions_manager_config nlib)) \<and>
        tx_manager_config.more (nc_transactions_manager_config conf) =
          tx_manager_config.more (ctx_transactions_manager_config nlib) \<and>
        hello_client_version (nc_hello_message conf) = cv_version (load_client_version_entry build) \<and>
        hello_client_version (nc_hello_message conf) \<in> set (rpc_exchange_capabilities api build peer)"
proof -
  have announced: "load_client_version_string (CARGO_PKG_VERSION build) (VERGEN_GIT_SHA_SHORT build)
      \<in> set (rpc_exchange_capabilities api build peer)"
    using capabilities_exchanged [OF assms(3), of build peer] by simp
  show ?thesis
  proof (cases "build_network nlib bytes_per_blob build pool")
    case (Inl e)
    then show ?thesis by (auto simp: build_network_def rbind_eq_Inl)
  next
    case (Inr handle)
    then obtain nb manager where
      "network_manager_builder nlib (load_network_config nlib bytes_per_blob build nb) = Inr manager"
      "handle = start_network nlib manager pool"
      by (auto simp: build_network_def rbind_eq_Inr)
    with Inr announced show ?thesis
      by (auto simp: load_network_config_fields [OF assms(1,2)] soft_limit_bytes load_client_version_entry_def
          intro!: exI [of _ "load_network_config nlib bytes_per_blob build nb"])
  qed
qed

text \<open>An instance: the manager is its configuration, and the handle the configuration it was started with.\<close>

definition example_network_lib ::
  "(unit, unit, unit, (unit, unit) tx_manager_config_scheme, (unit, unit, unit) network_config, unit,
    (unit, unit, unit) network_config, unit) network_lib" where
  "example_network_lib = \<lparr>network_config_builder = Inr \<lparr>transaction_fetcher_config =
       \<lparr>soft_limit_response = 1, soft_limit_response_on_pack_request = 2\<rparr>\<rparr>,
     ctx_transactions_manager_config = \<lparr>transaction_fetcher_config =
       \<lparr>soft_limit_response = 2097152, soft_limit_response_on_pack_request = 131072\<rparr>\<rparr>,
     with_transactions_manager_config = (\<lambda>c nb. c),
     build_network_config = (\<lambda>nb. \<lparr>nc_transactions_manager_config = nb,
       nc_hello_message = \<lparr>hello_client_version = ''reth''\<rparr>\<rparr>),
     network_manager_builder = Inr, start_network = (\<lambda>m p. m)\<rparr>"

lemma network_announces_load_witness:
  "\<exists>handle. build_network example_network_lib 131072 (ctx_build example_rpc_context) () = Inr handle \<and>
     hello_client_version (nc_hello_message handle) \<in>
       set (rpc_exchange_capabilities example_inner (ctx_build example_rpc_context) [])"
proof -
  have "network_law example_network_lib"
    by (simp add: network_law_def example_network_lib_def)
  moreover have "capabilities_law example_inner"
    by (simp add: capabilities_law_def example_inner_def)
  moreover obtain handle where
    "build_network example_network_lib 131072 (ctx_build example_rpc_context) () = Inr handle"
    by (simp add: build_network_def example_network_lib_def)
  ultimately obtain conf manager where
    "network_manager_builder example_network_lib conf = Inr manager"
    "handle = start_network example_network_lib manager ()"
    "hello_client_version (nc_hello_message conf) \<in>
       set (rpc_exchange_capabilities example_inner (ctx_build example_rpc_context) [])"
    and "build_network example_network_lib 131072 (ctx_build example_rpc_context) () = Inr handle"
    using network_announces_load [of example_network_lib 131072 example_inner, where build = "ctx_build example_rpc_context"
        and pool = "()" and peer = "[]"] by auto
  moreover from this(1,2) have "handle = conf" by (simp add: example_network_lib_def)
  ultimately show ?thesis by blast
qed

text \<open>C28. The command line, and with it the node, only ever runs with the persistence threshold set to
  0, backtraces enabled unless the user chose otherwise, and the RPC limits of the environment the process was started
  with. How the process ends is determined in every case: if the threshold cannot be set it
  reports this and panics before the command line runs; otherwise, if the runtime cannot be created,
  it panics, again before the command line; otherwise the command line runs exactly once, and the
  process exits successfully exactly if it succeeds, and with the failure status, after reporting
  the error as its last step, exactly if it fails.\<close>

theorem node_runs_with_threshold_zero:
  "case main mlib elib env of (effects, exit) \<Rightarrow>
     (\<forall>before renv after. effects = before @ RunCli renv # after \<longrightarrow>
        PersistenceThreshold 0 \<in> set before \<and> try_init_persistence_threshold mlib 0 = Inr () \<and>
        renv ''RUST_BACKTRACE'' \<noteq> Inl NotPresent \<and>
        (env ''RUST_BACKTRACE'' \<noteq> Inl NotPresent \<longrightarrow> renv = env) \<and> add_ons renv = add_ons env) \<and>
     (exit = PanicThreshold \<longleftrightarrow> \<not> is_ok (try_init_persistence_threshold mlib 0)) \<and>
     (exit = PanicRuntime \<longleftrightarrow>
        is_ok (try_init_persistence_threshold mlib 0) \<and> \<not> is_ok (try_default_runtime mlib)) \<and>
     (exit = ExitSuccess \<longleftrightarrow> (\<exists>rt renv. is_ok (try_init_persistence_threshold mlib 0) \<and>
        try_default_runtime mlib = Inr rt \<and> RunCli renv \<in> set effects \<and>
        with_runner_and_components mlib (cli_parse mlib) rt (cli_components_builder elib) (run_node mlib) renv = Inr ())) \<and>
     (exit = ExitFailure \<longleftrightarrow> (\<exists>rt renv err. is_ok (try_init_persistence_threshold mlib 0) \<and>
        try_default_runtime mlib = Inr rt \<and> RunCli renv \<in> set effects \<and>
        with_runner_and_components mlib (cli_parse mlib) rt (cli_components_builder elib) (run_node mlib) renv = Inl err)) \<and>
     length (filter is_run_cli effects) = (if exit = PanicThreshold \<or> exit = PanicRuntime then 0 else 1) \<and>
     (PrintError \<in> set effects \<longleftrightarrow> exit = PanicThreshold \<or> exit = ExitFailure) \<and>
     (PrintError \<in> set effects \<longrightarrow> last effects = PrintError)"
proof (rule main_cases [of env mlib elib])
  fix set_var renv
  assume b: "default_backtrace env = (set_var, renv)"
    and m: "\<not> is_ok (try_init_persistence_threshold mlib 0)"
      "main mlib elib env = (InstallSigsegvHandler # set_var @ [PrintError], PanicThreshold)"
  define effects where "effects = InstallSigsegvHandler # set_var @ [PrintError]"
  have "\<forall>r. RunCli r \<notin> set effects" "PrintError \<in> set effects" "last effects = PrintError"
    using default_backtrace_env(1) [OF b] by (simp_all add: effects_def)
  moreover from this(1) have "filter is_run_cli effects = []" by (simp add: no_run_cli)
  ultimately show ?thesis using m [folded effects_def] by (auto simp: is_ok_iff)
next
  fix set_var renv
  assume b: "default_backtrace env = (set_var, renv)"
    and m: "is_ok (try_init_persistence_threshold mlib 0)" "\<not> is_ok (try_default_runtime mlib)"
      "main mlib elib env = (InstallSigsegvHandler # set_var @ [PersistenceThreshold 0], PanicRuntime)"
  define effects where "effects = InstallSigsegvHandler # set_var @ [PersistenceThreshold 0]"
  have "\<forall>r. RunCli r \<notin> set effects" "PrintError \<notin> set effects"
    using default_backtrace_env(1,2) [OF b] by (simp_all add: effects_def)
  moreover from this(1) have "filter is_run_cli effects = []" by (simp add: no_run_cli)
  ultimately show ?thesis using m [folded effects_def] by (auto simp: is_ok_iff)
next
  fix set_var renv runtime r
  let ?pre = "InstallSigsegvHandler # set_var @ [PersistenceThreshold 0]"
  assume b: "default_backtrace env = (set_var, renv)"
    and m: "is_ok (try_init_persistence_threshold mlib 0)" "try_default_runtime mlib = Inr runtime"
      "with_runner_and_components mlib (cli_parse mlib) runtime (cli_components_builder elib)
         (run_node mlib) renv = r"
      "main mlib elib env = (?pre @ RunCli renv # (if is_ok r then [] else [PrintError]),
         if is_ok r then ExitSuccess else ExitFailure)"
  note env = default_backtrace_env [OF b]
  define pre where "pre = ?pre"
  note m = m [folded pre_def]
  have pre: "\<forall>r. RunCli r \<notin> set pre" "PrintError \<notin> set pre" "PersistenceThreshold 0 \<in> set pre"
    using env(1,2) by (simp_all add: pre_def)
  define post where "post = (if is_ok r then [] else [PrintError])"
  define effects where "effects = pre @ RunCli renv # post"
  have run: "main mlib elib env = (effects, if is_ok r then ExitSuccess else ExitFailure)"
    using m(4) by (simp only: post_def effects_def)
  have post: "\<forall>r. RunCli r \<notin> set post" by (simp add: post_def)
  have at: "before = pre" "renv' = renv" if "effects = before @ RunCli renv' # after" for before renv' after
    using split_at_run_cli [OF that [unfolded effects_def] pre(1) post] by simp_all
  have only: "RunCli r' \<in> set effects \<longleftrightarrow> r' = renv" for r'
    using pre(1) post by (auto simp: effects_def)
  have once: "length (filter is_run_cli effects) = 1"
    using pre(1) post by (simp add: effects_def flip: no_run_cli)
  have reported: "PrintError \<in> set effects \<longleftrightarrow> \<not> is_ok r" "PrintError \<in> set effects \<longrightarrow> last effects = PrintError"
    using pre(2) by (auto simp: effects_def post_def)
  have init: "try_init_persistence_threshold mlib 0 = Inr ()" using m(1) by (auto simp: is_ok_iff)
  have ok: "is_ok r \<longleftrightarrow> r = Inr ()" "\<not> is_ok r \<longleftrightarrow> (\<exists>err. r = Inl err)" by (cases r; simp)+
  show ?thesis
    unfolding run prod.case only once
    using at env(3-5) pre(3) reported init m(2,3) ok by (intro conjI allI impI) auto
qed

text \<open>An instance: every step succeeds, in an environment without variables.\<close>

definition example_main_lib ::
  "(u64, unit, unit, unit, unit, unit, unit, unit, unit, unit) main_lib" where
  "example_main_lib = \<lparr>try_init_persistence_threshold = (\<lambda>n. Inr ()), cli_parse = (),
     try_default_runtime = Inr (), with_runner_and_components = (\<lambda>cli rt comp run env. run ()),
     launch_load_node = (\<lambda>nb. Inr ((), Inr ()))\<rparr>"

theorem node_runs_with_threshold_zero_witness:
  "\<forall>elib :: (u64, unit, unit, unit, unit, unit, unit, unit) evm_lib.
     \<exists>renv. main example_main_lib elib (\<lambda>v. Inl NotPresent) =
       ([InstallSigsegvHandler, SetVar ''RUST_BACKTRACE'' ''1'', PersistenceThreshold 0, RunCli renv], ExitSuccess) \<and>
     renv ''RUST_BACKTRACE'' \<noteq> Inl NotPresent \<and> add_ons renv = add_ons (\<lambda>v. Inl NotPresent)"
proof
  fix elib :: "(u64, unit, unit, unit, unit, unit, unit, unit) evm_lib"
  let ?pre = "[InstallSigsegvHandler, SetVar ''RUST_BACKTRACE'' ''1'', PersistenceThreshold 0]"
  obtain renv where m: "main example_main_lib elib (\<lambda>v. Inl NotPresent) = (?pre @ RunCli renv # [], ExitSuccess)"
    by (simp add: main_def default_backtrace_def example_main_lib_def run_node_def)
  with node_runs_with_threshold_zero [where mlib = example_main_lib and elib = elib and env = "\<lambda>v. Inl NotPresent"]
  have "renv ''RUST_BACKTRACE'' \<noteq> Inl NotPresent \<and> add_ons renv = add_ons (\<lambda>v. Inl NotPresent)"
    unfolding m prod.case by blast
  with m show "\<exists>renv. main example_main_lib elib (\<lambda>v. Inl NotPresent) =
       ([InstallSigsegvHandler, SetVar ''RUST_BACKTRACE'' ''1'', PersistenceThreshold 0, RunCli renv], ExitSuccess) \<and>
     renv ''RUST_BACKTRACE'' \<noteq> Inl NotPresent \<and> add_ons renv = add_ons (\<lambda>v. Inl NotPresent)"
    by auto
qed

end
