(* ===== verification/Unit_Tests.thy ===== *)
theory Unit_Tests
  imports Pool Engine_Rpc Builder Backpressure
begin

section \<open>The unit tests of the crate\<close>

text \<open>
  One lemma per unit test under \<open>src/\<close> whose outcome the code of the crate decides, under the name of
  the test: the model behaves as the tests say the code does. Where the code calls upstream, the
  lemma holds for any upstream with the documented laws.
\<close>

subsection \<open>\<open>chainspec/mod.rs\<close>\<close>

lemma default_chain_spec_from_genesis:
  "default_chain_spec slib up = Some spec \<longleftrightarrow> from_genesis slib (default_genesis up) = Inr spec"
  by (auto simp: default_chain_spec_def split: sum.splits)

lemma test_default_chain_spec:
  assumes "spec_lib_laws slib" and "default_chain_spec slib up = Some spec"
  shows "chain_id_of slib (spec_chain spec) = 16383"
    and "is_active_at_timestamp slib spec Cancun 0" and "is_active_at_timestamp slib spec Prague 0"
proof -
  have g: "from_genesis slib (default_genesis up) = Inr spec"
    using assms(2) by (simp add: default_chain_spec_from_genesis)
  then have "chain (spec_inner spec) = chain_from_id slib 16383"
    by (simp add: from_genesis_Inr default_genesis_def)
  then show "chain_id_of slib (spec_chain spec) = 16383" by (simp add: spec_chain_def law_chain_id [OF assms(1)])
  show "is_active_at_timestamp slib spec Cancun 0" "is_active_at_timestamp slib spec Prague 0"
    by (simp_all add: from_genesis_active [OF assms(1) g])
qed

lemma test_blob_params_at_genesis:
  assumes "spec_lib_laws slib" and "default_chain_spec slib up = Some spec"
    and "osaka_time (config up) = None"
  obtains params where "blob_params_at_timestamp slib spec 0 = Some params"
    and "max_blob_count params = LOAD_MAX_BLOB_COUNT" and "target_blob_count params = LOAD_TARGET_BLOB_COUNT"
    and "max_blobs_per_tx params = LOAD_MAX_BLOBS_PER_TX" and "update_fraction params = LOAD_BLOB_UPDATE_FRACTION"
proof -
  have g: "from_genesis slib (default_genesis up) = Inr spec"
    using assms(2) by (simp add: default_chain_spec_from_genesis)
  have "\<not> is_active_at_timestamp slib spec Osaka 0"
    using assms(3) by (simp add: from_genesis_active [OF assms(1) g] default_genesis_def)
  then show thesis
    by (intro that [of "load_blob_params slib"])
      (simp_all add: from_genesis_blob_params [OF assms(1) g] load_blob_params_def)
qed

text \<open>\<open>Genesis::default()\<close> leaves every fork unset.\<close>

definition unset_genesis :: "genesis \<Rightarrow> bool" where
  "unset_genesis g \<longleftrightarrow> (\<forall>f. get_fork f (config g) = None) \<and> merge_netsplit_block (config g) = None \<and>
     shanghai_time (config g) = None \<and> prague_time (config g) = None"

lemma test_genesis_validation_requires_cancun_at_zero:
  "\<exists>e. from_genesis slib (g\<lparr>config := (config g)\<lparr>cancun_time := Some 100, terminal_total_difficulty := Some 0\<rparr>\<rparr>) = Inl e"
  by (simp add: from_genesis_def validate_genesis_def Let_def)

lemma accepts_ttd:
  assumes "unset_genesis g" and "unset_or_zero d"
  shows "is_ok (from_genesis slib (g\<lparr>config := (config g)\<lparr>cancun_time := Some 0, terminal_total_difficulty := d\<rparr>\<rparr>))"
proof -
  have "get_fork f (config g\<lparr>cancun_time := Some 0, terminal_total_difficulty := d\<rparr>) = get_fork f (config g)" for f
    by (cases f) simp_all
  with assms show ?thesis
    by (simp add: is_ok_iff from_genesis_Inr genesis_ok_def unset_genesis_def) (simp add: unset_or_zero_def)
qed

lemma test_genesis_validation_accepts_no_ttd:
  "unset_genesis g \<Longrightarrow>
   is_ok (from_genesis slib (g\<lparr>config := (config g)\<lparr>cancun_time := Some 0, terminal_total_difficulty := None\<rparr>\<rparr>))"
  by (rule accepts_ttd) (simp_all add: unset_or_zero_def)

lemma test_genesis_validation_accepts_zero_ttd:
  "unset_genesis g \<Longrightarrow>
   is_ok (from_genesis slib (g\<lparr>config := (config g)\<lparr>cancun_time := Some 0, terminal_total_difficulty := Some 0\<rparr>\<rparr>))"
  by (rule accepts_ttd) (simp_all add: unset_or_zero_def)

lemma test_genesis_validation_rejects_nonzero_ttd:
  "from_genesis slib (g\<lparr>config := (config g)\<lparr>cancun_time := Some 0, terminal_total_difficulty := Some 1000\<rparr>\<rparr>) =
   Inl (TtdNotZero 1000)"
  by (simp add: from_genesis_def validate_genesis_def Let_def)

lemma prague_must_be_at_genesis:
  "\<not> is_ok (from_genesis slib (g\<lparr>config := (config g)\<lparr>cancun_time := Some 0, prague_time := Some 1,
     terminal_total_difficulty := Some 0, terminal_total_difficulty_passed := True, shanghai_time := Some 0\<rparr>\<rparr>))"
  by (simp add: is_ok_iff from_genesis_Inr genesis_ok_def unset_or_zero_def)

lemma shanghai_must_be_at_genesis:
  "\<not> is_ok (from_genesis slib (g\<lparr>config := (config g)\<lparr>cancun_time := Some 0, prague_time := Some 0,
     shanghai_time := Some 5, terminal_total_difficulty := Some 0, terminal_total_difficulty_passed := True\<rparr>\<rparr>))"
  by (simp add: is_ok_iff from_genesis_Inr genesis_ok_def unset_or_zero_def)

lemma merge_netsplit_must_be_zero:
  "\<not> is_ok (from_genesis slib (g\<lparr>config := (config g)\<lparr>cancun_time := Some 0, prague_time := Some 0,
     shanghai_time := Some 0, terminal_total_difficulty := Some 0, terminal_total_difficulty_passed := True,
     merge_netsplit_block := Some 1\<rparr>\<rparr>))"
  by (simp add: is_ok_iff from_genesis_Inr genesis_ok_def unset_or_zero_def)

lemma builtin_accepted:
  "is_ok (from_genesis slib load_dev_genesis)" "is_ok (from_genesis slib load_mainnet_genesis)"
  by (simp_all add: is_ok_iff from_genesis_Inr load_dev_genesis_def load_mainnet_genesis_def genesis_ok_builtin)

lemma test_parser_dev_chain:
  assumes "spec_lib_laws slib" and "json_genesis plib (LOAD_DEV_GENESIS_JSON plib) = Inr load_dev_genesis"
  obtains spec where "parse_chain slib plib ''load-dev'' = Inr spec" and "chain_id_of slib (spec_chain spec) = 16383"
proof -
  obtain spec where spec: "from_genesis slib load_dev_genesis = Inr spec"
    using builtin_accepted(1) by (auto simp: is_ok_iff)
  moreover have "chain_id_of slib (spec_chain spec) = 16383"
    using spec by (auto simp: from_genesis_Inr spec_chain_def load_dev_genesis_def law_chain_id [OF assms(1)])
  ultimately show thesis using assms(2) by (intro that [of spec]) (simp_all add: parse_chain_def)
qed

lemma test_parser_mainnet_builtin:
  assumes "spec_lib_laws slib" and "json_genesis plib (LOAD_MAINNET_GENESIS_JSON plib) = Inr load_mainnet_genesis"
  obtains spec where "parse_chain slib plib ''load'' = Inr spec" and "chain_id_of slib (spec_chain spec) = 16888"
proof -
  obtain spec where spec: "from_genesis slib load_mainnet_genesis = Inr spec"
    using builtin_accepted(2) by (auto simp: is_ok_iff)
  moreover have "chain_id_of slib (spec_chain spec) = 16888"
    using spec by (auto simp: from_genesis_Inr spec_chain_def load_mainnet_genesis_def law_chain_id [OF assms(1)])
  ultimately show thesis using assms(2) by (intro that [of spec]) (simp_all add: parse_chain_def)
qed

lemma builtin_genesis_files_obey_guardrails:
  assumes "g \<in> {load_dev_genesis, load_mainnet_genesis}"
  shows "cancun_time (config g) = Some 0" and "prague_time (config g) = Some 0" and "shanghai_time (config g) = Some 0"
    and "terminal_total_difficulty (config g) = Some 0" and "terminal_total_difficulty_passed (config g)"
    and "merge_netsplit_block (config g) = Some 0" and "is_ok (from_genesis slib g)"
  using assms builtin_accepted
  by (auto simp: load_dev_genesis_def load_mainnet_genesis_def builtin_config_def)

subsection \<open>\<open>lib.rs\<close> and \<open>engine/payload.rs\<close>\<close>

lemma prev_randao_is_constant_one: "LOAD_PREVRANDAO = (replicate 32 0)[31 := 1]"
  by (simp add: LOAD_PREVRANDAO_eq eval_nat_numeral)

lemma prev_randao_guard:
  "is_ok (validate_prev_randao LOAD_PREVRANDAO)" "\<not> is_ok (validate_prev_randao B256_ZERO)"
  using LOAD_PREVRANDAO_not_zero by (simp_all add: is_ok_iff payload_randao.accepts_iff)

lemma reject_eip7594_sidecars:
  "bp_sidecars (lbp_inner p) = SidecarsEip7594 [] \<Longrightarrow>
   try_into_envelope_v3 plib p = Some (Inl UnexpectedEip7594Sidecars)"
  by (simp add: try_into_envelope_v3_def guard_sidecars_eip7594)

lemma accept_empty_sidecars:
  "bundle_blobs (bundle_empty plib) = [] \<Longrightarrow>
   \<exists>e. try_into_envelope_v3 plib (empty_load_payload blk pid) = Some (Inr e) \<and>
     bundle_blobs (envelope_blobs_bundle e) = []"
  by (simp add: try_into_envelope_v3_def guard_sidecars_def empty_load_payload_def Let_def)

lemma cap_blob_count:
  "bp_sidecars (lbp_inner p) = SidecarsEip4844 (replicate 1025 sc) \<Longrightarrow>
   try_into_envelope_v3 plib p = Some (Inl UnexpectedEip4844Sidecars)"
  by (simp add: try_into_envelope_v3_def guard_sidecars_def load_constants)

lemma builder_attributes_reject_wrong_prev_randao:
  "try_new_law eth_new \<Longrightarrow> try_new eth_new B256_ZERO (example_attributes 1 B256_ZERO) 3 =
     Inl (InvalidPrevRandao RANDAO_MESSAGE)"
  using LOAD_PREVRANDAO_not_zero
  by (simp add: try_new_def try_new_law_def example_attributes_def validate_prev_randao_def)

lemma builder_attributes_accept_constant_prev_randao:
  "try_new_law eth_new \<Longrightarrow> \<exists>attrs. try_new eth_new B256_ZERO (example_attributes 1 LOAD_PREVRANDAO) 3 = Inr attrs \<and>
     ba_prev_randao (lba_inner attrs) = LOAD_PREVRANDAO"
  by (simp add: try_new_ok try_new_law_def example_attributes_def)

lemma payload_attributes_reject_non_increasing_timestamp:
  "try_new_law eth_new \<Longrightarrow> try_new eth_new B256_ZERO (example_attributes 1 LOAD_PREVRANDAO) 3 = Inr attrs \<Longrightarrow>
   \<exists>m. validate_payload_attributes 1 attrs = Inl (InvalidTimestamp m)"
  by (auto simp: try_new_ok try_new_law_def example_attributes_def validate_payload_attributes_def
      validate_prev_randao_def)

lemma payload_attributes_accept_future_timestamp:
  "try_new_law eth_new \<Longrightarrow> try_new eth_new B256_ZERO (example_attributes 2 LOAD_PREVRANDAO) 3 = Inr attrs \<Longrightarrow>
   validate_payload_attributes 1 attrs = Inr ()"
  by (auto simp: try_new_ok try_new_law_def example_attributes_def validate_payload_attributes_ok)


subsection \<open>\<open>engine/validator.rs\<close>\<close>

text \<open>The payload of the tests; two of them give it the default PREVRANDAO, which is zero.\<close>

lemma rejects_payload_with_too_many_versioned_hashes:
  "\<exists>m. validate_version_specific_fields slib vlib self version
     (ExecutionPayloadCase (data_v3 (example_payload_v3 B256_ZERO) (replicate 1025 B256_ZERO) B256_ZERO)) =
     Inl (InvalidParams m)"
  using LOAD_PREVRANDAO_not_zero
  by (simp add: validate_version_specific_fields_def ensure_load_payload_invariants_def data_defs
      example_payload_v3_def)

text \<open>
  That test does not reach the limit it is named after: the payload is refused for its PREVRANDAO,
  whatever its hashes. With the constant the limit is what refuses it.
\<close>

lemma refused_for_prev_randao:
  "validate_version_specific_fields slib vlib self version
     (ExecutionPayloadCase (data_v3 (example_payload_v3 B256_ZERO) hashes B256_ZERO)) =
     Inl (InvalidParams RANDAO_MESSAGE)"
  using LOAD_PREVRANDAO_not_zero
  by (simp add: validate_version_specific_fields_def ensure_load_payload_invariants_def data_defs
      example_payload_v3_def)

lemma refused_for_hashes:
  "validate_version_specific_fields slib vlib self version
     (ExecutionPayloadCase (data_v3 (example_payload_v3 LOAD_PREVRANDAO) (replicate 1025 B256_ZERO) B256_ZERO)) =
     Inl (InvalidParams (too_many_hashes_message 1025))"
  by (simp add: validate_version_specific_fields_def ensure_load_payload_invariants_def data_defs
      example_payload_v3_def load_constants)

lemma rejects_payload_with_wrong_prev_randao:
  "\<exists>m. validate_version_specific_fields slib vlib self version
     (ExecutionPayloadCase (data_v3 (example_payload_v3 B256_ZERO) [] B256_ZERO)) = Inl (InvalidParams m)"
  by (rule exI, rule refused_for_prev_randao)

lemma prague_fields_rejected_before_activation:
  assumes "\<not> is_active_at_timestamp slib (val_chain_spec self) Prague 1"
    and "sidecar_requests vlib (ed_sidecar (led_inner
      (data_v4 (example_payload_v3 LOAD_PREVRANDAO) [] B256_ZERO (Requests [])))) = Some []"
  shows "\<exists>m. validate_version_specific_fields slib vlib self version
    (ExecutionPayloadCase (data_v4 (example_payload_v3 LOAD_PREVRANDAO) [] B256_ZERO (Requests []))) =
    Inl (InvalidParams m)"
  using assms
  by (simp add: validate_version_specific_fields_def ensure_load_payload_invariants_def data_defs
      example_payload_v3_def)

lemma prague_requests_allowed_after_activation:
  assumes "is_active_at_timestamp slib (val_chain_spec self) Prague 1"
    and "eth_validate_version_specific_fields vlib version
      (ExecutionPayloadCase (data_v4 (example_payload_v3 LOAD_PREVRANDAO) [] B256_ZERO (Requests []))) = Inr ()"
  shows "validate_version_specific_fields slib vlib self version
    (ExecutionPayloadCase (data_v4 (example_payload_v3 LOAD_PREVRANDAO) [] B256_ZERO (Requests []))) = Inr ()"
  using assms
  by (simp add: validate_version_specific_fields_def ensure_load_payload_invariants_def data_defs
      example_payload_v3_def)

lemma convert_payload_rejects_wrong_prev_randao:
  "convert_payload_to_block slib vlib self (data_v3 (example_payload_v3 B256_ZERO) [] B256_ZERO) =
   Inl (NewPayloadOther (InvalidParams RANDAO_MESSAGE))"
  using LOAD_PREVRANDAO_not_zero
  by (simp add: convert_payload_to_block_def ensure_load_payload_invariants_def data_defs example_payload_v3_def)

lemma convert_payload_rejects_too_many_blobs:
  "convert_payload_to_block slib vlib self
     (data_v3 (example_payload_v3 LOAD_PREVRANDAO) (replicate 1025 B256_ZERO) B256_ZERO) =
   Inl (NewPayloadOther (InvalidParams (too_many_hashes_message 1025)))"
  by (simp add: convert_payload_to_block_def ensure_load_payload_invariants_def data_defs
      example_payload_v3_def load_constants)

subsection \<open>\<open>engine/rpc.rs\<close>\<close>

lemma blob_limit_respects_load_cap:
  "validate_blob_request (replicate 1024 B256_ZERO) = Inr ()"
  "validate_blob_request (replicate 1025 B256_ZERO) = Inl (BlobRequestTooLarge 1025)"
  by (simp_all add: guard_simps)

lemma prev_randao_guard_accepts_constant: "ensure_load_prev_randao LOAD_PREVRANDAO = Inr ()"
  by (simp add: ensure_load_prev_randao_def)

lemma prev_randao_guard_rejects_other_values:
  "ensure_load_prev_randao B256_ZERO = Inl (EngineObjectValidationError (InvalidParams RANDAO_MESSAGE))"
  using LOAD_PREVRANDAO_not_zero by (simp add: ensure_load_prev_randao_def)

subsection \<open>\<open>evm/mod.rs\<close>\<close>

lemma evm_env_uses_load_blob_params:
  assumes "evm_env_for_header slib blib self h = Inr env"
    and "is_active_at_timestamp slib (up_chain_spec (evm_inner self)) Cancun (hd_timestamp h)"
  shows "cfg_max_blobs_per_tx (env_cfg env) = Some LOAD_MAX_BLOBS_PER_TX"
    and "cfg_blob_base_fee_update_fraction (env_cfg env) = Some (ucast LOAD_BLOB_UPDATE_FRACTION)"
    and "be_blob_excess_gas_and_price (env_block env) \<noteq> None"
proof -
  obtain env0 where env: "env = enforce_load_blob_env slib blib self (hd_timestamp h) env0"
    using assms(1) by (auto simp: evm_env_for_header_def rbind_eq_Inr)
  have "load_env blib (load_blob_params_at slib self (hd_timestamp h)) env"
    unfolding env by (rule enforce_load_env)
  then show "cfg_max_blobs_per_tx (env_cfg env) = Some LOAD_MAX_BLOBS_PER_TX"
    "cfg_blob_base_fee_update_fraction (env_cfg env) = Some (ucast LOAD_BLOB_UPDATE_FRACTION)"
    by (simp_all add: load_env_def load_constants)
  show "be_blob_excess_gas_and_price (env_block env) \<noteq> None"
    using assms(2) by (simp add: env enforce_load_blob_env_def Let_def split: option.split)
qed

lemma blob_env_is_clamped_to_load_limits:
  assumes "be_blob_excess_gas_and_price (env_block env) =
    Some \<lparr>excess_blob_gas = over, blob_gasprice = 0\<rparr>"
    and "over = (if max_blob_gas_per_block blib (load_blob_params_at slib self 0) = - 1 then - 1
      else max_blob_gas_per_block blib (load_blob_params_at slib self 0) + 1)"
  obtains b where "be_blob_excess_gas_and_price (env_block (enforce_load_blob_env slib blib self 0 env)) = Some b"
    and "excess_blob_gas b = max_blob_gas_per_block blib (load_blob_params_at slib self 0)"
proof -
  let ?m = "max_blob_gas_per_block blib (load_blob_params_at slib self 0)"
  let ?b = "\<lparr>excess_blob_gas = ?m, blob_gasprice = calc_blob_fee blib (load_blob_params_at slib self 0) ?m\<rparr>"
  have "over = ?m \<or> ?m < over" using less_plus_1_iff [of ?m] assms(2) by auto
  then have "be_blob_excess_gas_and_price (env_block (enforce_load_blob_env slib blib self 0 env)) = Some ?b"
    using assms by (auto simp: enforce_load_blob_env_def Let_def)
  then show thesis by (intro that [of ?b]) simp_all
qed

subsection \<open>\<open>engine/builder.rs\<close>\<close>

lemma blob_cap_clamped_to_load_constant:
  "blob_params_at_timestamp slib spec ts = Some p \<Longrightarrow> max_blob_count p = LOAD_MAX_BLOB_COUNT * 2 \<Longrightarrow>
   compute_load_blob_cap slib spec ts = LOAD_MAX_BLOB_COUNT"
  by (simp add: compute_load_blob_cap_def load_constants word_le_nat_alt)

lemma blob_cap_defaults_to_constant:
  assumes "spec_lib_laws slib" and "default_chain_spec slib up = Some spec" and "osaka_time (config up) = None"
  shows "compute_load_blob_cap slib spec ts = LOAD_MAX_BLOB_COUNT"
proof -
  have g: "from_genesis slib (default_genesis up) = Inr spec"
    using assms(2) by (simp add: default_chain_spec_from_genesis)
  have "\<not> is_active_at_timestamp slib spec Osaka ts"
    using assms(3) by (simp add: from_genesis_active [OF assms(1) g] default_genesis_def)
  then show ?thesis
    by (simp add: compute_load_blob_cap_def from_genesis_blob_params [OF assms(1) g] load_blob_params_def)
qed

subsection \<open>\<open>pool/mod.rs\<close>\<close>

lemma test_blob_cache_calculation: "calculated_blob_cache 32 (load_blob_params slib) = 32768"
  by (simp add: calculated_blob_cache_def load_blob_params_def load_constants saturating_mul_def)

subsection \<open>\<open>rpc/backpressure.rs\<close>\<close>

lemma classifies_required_methods:
  "classify_method (layer_new default_config) ''eth_sendRawTransaction'' = Some SendRawTransaction"
  "classify_method (layer_new default_config) ''eth_getTransactionCount'' = Some GetTransactionCount"
  "classify_method (layer_new default_config) ''eth_sendRawTransactionSync'' = Some SendRawTransactionSync"
  "classify_method (layer_new default_config) ''debug_traceTransaction'' = None"
  by (simp_all add: classify_method_def from_rpc_method_def layer_new_def state_new_def default_config_def
      backpressure_constants word_less_nat_alt)

lemma disabled_limit_skips_method_guard:
  fixes conf :: backpressure_config
  assumes "conf = \<lparr>send_raw_transaction_limit = 1, get_transaction_count_limit = 0,
    send_raw_transaction_sync_limit = 1, batch_response_limit_bytes = 1048576\<rparr>"
  shows "classify_method (state_new conf) ''eth_getTransactionCount'' = None"
    and "classify_method (state_new conf) ''eth_sendRawTransaction'' = Some SendRawTransaction"
  by (simp_all add: assms classify_method_def from_rpc_method_def state_new_def)

lemma rejects_immediately_at_capacity:
  fixes conf :: backpressure_config
  assumes "conf = \<lparr>send_raw_transaction_limit = 1, get_transaction_count_limit = 1,
    send_raw_transaction_sync_limit = 1, batch_response_limit_bytes = 1048576\<rparr>"
    and "try_acquire SendRawTransaction (state_new conf) = (first, st1)"
    and "try_acquire SendRawTransaction st1 = (second, st2)"
    and "try_acquire SendRawTransaction (permit_drop \<lparr>permit_method = SendRawTransaction\<rparr> st2) = (third, st3)"
  shows "first" and "\<not> second" and "third"
proof -
  let ?m = SendRawTransaction
  let ?used = "\<lambda>st. unat (inflight (gate ?m st))"
  have conf: "?used (state_new conf) = 0" "unat (gate_limit (gate ?m (state_new conf))) = 1"
    by (simp_all add: assms(1) state_new_def gate_new_def)
  have cap: "unat (gate_limit (gate ?m st1)) = 1" "unat (gate_limit (gate ?m st2)) = 1"
    using gates.cap_acquire [of ?m ?m "state_new conf"] gates.cap_acquire [of ?m ?m st1] assms(2,3) conf(2)
    by simp_all
  have used1: "?used st1 = 1" using gates.used_acquire [of ?m ?m "state_new conf"] assms(2) conf by simp
  then have used2: "?used st2 = 1" using gates.used_acquire [of ?m ?m st1] assms(3) cap by simp
  then have "?used (release ?m st2) = 0" using gates.used_give_back [of ?m st2 ?m] by simp
  then show third
    using gates.admits [of ?m "release ?m st2"] gates.cap_give_back [of ?m ?m st2] assms(4) cap(2) by simp
  show first using gates.admits [of ?m "state_new conf"] assms(2) conf by simp
  show "\<not> second" using gates.admits [of ?m st1] assms(3) used1 cap(1) by simp
qed

end
