(* ===== verification/Builder_Env.thy ===== *)
theory Builder_Env
  imports Builder
begin

section \<open>The block builder behind the payload builder\<close>

text \<open>
  The selection loop of \<open>src/engine/builder.rs\<close> seen from the block builder it drives: which
  calls reach it, in which environment, and with which transactions. The locale
  \<open>block_builder_invariant\<close> is the contract of a relation between the block builder and the
  transactions included so far; it is interpreted for the block environment and for the
  transactions of the block. What is documented of the upstream block builder is stated as laws.
\<close>

subsection \<open>The calls of one iteration\<close>

definition builder_kept :: "('it, 'b) build_state \<Rightarrow> ('it, 'b) build_state \<Rightarrow> bool" where
  "builder_kept st st' \<longleftrightarrow> block_builder st' = block_builder st \<and> included st' = included st"

lemma reject_tx_builder: "reject_tx lib ptx err st = Next st' \<Longrightarrow> builder_kept st st'"
  by (auto simp: reject_tx_def builder_kept_def)

lemma include_transaction_builder:
  "include_transaction lib ctx ptx sc gas st = Next st' \<Longrightarrow> block_builder st' = block_builder st"
  by (auto simp: include_transaction_def Let_def split: option.splits if_splits)

text \<open>An iteration leaves the builder alone, fails to execute, or executes and includes.\<close>

lemma execute_and_include_builder:
  assumes "execute_and_include lib ctx ptx sc st = Next st'"
  obtains e where "execute_transaction lib (pt_consensus ptx) (block_builder st) = (Inl e, block_builder st')"
      "included st' = included st"
  | inc where "inc_tx inc = ptx" "included st' = included st @ [inc]"
      "execute_transaction lib (pt_consensus ptx) (block_builder st) = (Inr (inc_gas_used inc), block_builder st')"
proof -
  obtain r b where x: "execute_transaction lib (pt_consensus ptx) (block_builder st) = (r, b)"
    by (cases "execute_transaction lib (pt_consensus ptx) (block_builder st)")
  show thesis
  proof (cases r)
    case (Inl e)
    have "block_builder st' = b \<and> included st' = included st"
      using assms x Inl
      by (cases e) (auto simp: execute_and_include_def Let_def reject_tx_def split: if_splits)
    with x Inl that(1) show thesis by simp
  next
    case (Inr gas)
    with assms x have inc: "include_transaction lib ctx ptx sc gas (st\<lparr>block_builder := b\<rparr>) = Next st'"
      by (simp add: execute_and_include_def)
    then obtain tip where "included st' = included st @
        [\<lparr>inc_tx = ptx, inc_gas_used = gas, inc_tip = tip, inc_sidecar = sc\<rparr>]"
      by (elim include_transaction_Next) simp
    with include_transaction_builder [OF inc] x Inr show thesis
      by (intro that(2) [of "\<lparr>inc_tx = ptx, inc_gas_used = gas, inc_tip = tip, inc_sidecar = sc\<rparr>"]) simp_all
  qed
qed

lemma build_iter_builder:
  assumes "build_iter lib ctx ptx st = Next st'"
  obtains "builder_kept st st'"
  | sc where "execute_and_include lib ctx ptx sc st = Next st'"
  using assms unfolding build_iter_def Let_def
  by (auto split: if_splits option.splits sum.splits dest: reject_tx_builder)

locale block_builder_invariant =
  fixes lib :: "('it, 'b, 'blk, 'x, 'r, 'p) build_lib"
    and J :: "'b \<Rightarrow> included_tx list \<Rightarrow> bool"
  assumes on_failure: "J b incs \<Longrightarrow> execute_transaction lib tx b = (Inl e, b') \<Longrightarrow> J b' incs"
    and on_success: "J b incs \<Longrightarrow>
      execute_transaction lib (pt_consensus (inc_tx inc)) b = (Inr (inc_gas_used inc), b') \<Longrightarrow>
      J b' (incs @ [inc])"
begin

lemma kept:
  assumes "J (block_builder st) (included st)"
    and "build_iter lib ctx ptx (advance it' st) = Next st'"
  shows "J (block_builder st') (included st')"
  using assms(2)
proof (cases rule: build_iter_builder)
  case 1
  with assms(1) show ?thesis by (simp add: builder_kept_def)
next
  case (2 sc)
  then show ?thesis
    by (cases rule: execute_and_include_builder) (use assms(1) on_failure on_success in \<open>auto\<close>)
qed

end

sublocale block_builder_invariant \<subseteq>
  iteration_invariant lib ctx "\<lambda>st. J (block_builder st) (included st)"
  by unfold_locales (rule kept)

subsection \<open>The block environment\<close>

text \<open>
  Documented of the upstream block builder: the environment it was made with does not change;
  the environment of a new builder is the one \<open>next_evm_env\<close> makes; and a transaction that was
  executed pays at least the base fee (EIP-1559), so its effective tip exists.
\<close>

definition block_env_law :: "('it, 'b, 'blk, 'x, 'r, 'p) build_lib \<Rightarrow> bool" where
  "block_env_law lib \<longleftrightarrow>
     (\<forall>b b'. apply_pre_execution_changes lib b = Inr b' \<longrightarrow>
        builder_block_env lib b' = builder_block_env lib b) \<and>
     (\<forall>tx b r b'. execute_transaction lib tx b = (r, b') \<longrightarrow>
        builder_block_env lib b' = builder_block_env lib b)"

definition next_env_law ::
  "'c spec_lib \<Rightarrow> blob_lib \<Rightarrow> ('c, 'x) load_evm_config \<Rightarrow>
   ('it, 'b, 'blk, 'x, 'r, 'p) build_lib \<Rightarrow> bool" where
  "next_env_law slib blib evm lib \<longleftrightarrow>
     (\<forall>reads p h a b. builder_for_next_block lib reads p h a = Inr b \<longrightarrow>
        (\<exists>env. next_evm_env slib blib evm h a = Inr env \<and> builder_block_env lib b = env_block env))"

definition tip_law :: "('it, 'b, 'blk, 'x, 'r, 'p) build_lib \<Rightarrow> bool" where
  "tip_law lib \<longleftrightarrow>
     (\<forall>tx b g b'. execute_transaction lib tx b = (Inr g, b') \<longrightarrow>
        effective_tip_per_gas lib tx (be_basefee (builder_block_env lib b)) \<noteq> None)"

text \<open>The builder runs in one environment, and so did every execution that counted.\<close>

definition executed_in ::
  "('it, 'b, 'blk, 'x, 'r, 'p) build_lib \<Rightarrow> block_env \<Rightarrow> included_tx \<Rightarrow> bool" where
  "executed_in lib E inc \<longleftrightarrow>
     (\<exists>b b'. builder_block_env lib b = E \<and>
        execute_transaction lib (pt_consensus (inc_tx inc)) b = (Inr (inc_gas_used inc), b'))"

definition env_inv ::
  "('it, 'b, 'blk, 'x, 'r, 'p) build_lib \<Rightarrow> block_env \<Rightarrow> 'b \<Rightarrow> included_tx list \<Rightarrow> bool" where
  "env_inv lib E b incs \<longleftrightarrow>
     block_env_law lib \<longrightarrow> builder_block_env lib b = E \<and> list_all (executed_in lib E) incs"

interpretation block_envs: block_builder_invariant lib "env_inv lib E"
  by unfold_locales (auto simp: env_inv_def block_env_law_def executed_in_def)

lemma block_builder_invariant_run:
  assumes "block_builder_invariant lib J" and "loop_run slib lib spec conf args b provider st"
    and "\<And>b'. apply_pre_execution_changes lib b = Inr b' \<Longrightarrow> J b' []"
  shows "J (block_builder st) (included st)"
proof -
  obtain it b' where pre: "apply_pre_execution_changes lib b = Inr b'"
    and loop: "build_loop lib (loop_context slib lib spec args b) (initial_state it b') = Some (Finished st)"
    using assms(2) by (auto simp: loop_run_def)
  have "iteration_invariant lib ctx (\<lambda>st. J (block_builder st) (included st))" for ctx
    using block_builder_invariant.kept [OF assms(1)] by unfold_locales
  from iteration_invariant.finished [OF this loop refl] assms(3) [OF pre]
  show ?thesis by (simp add: initial_state_def)
qed

lemma loop_run_env:
  assumes "loop_run slib lib spec conf args b provider st" and "block_env_law lib"
  shows "builder_block_env lib (block_builder st) = builder_block_env lib b"
    and "list_all (executed_in lib (builder_block_env lib b)) (included st)"
proof -
  have "env_inv lib (builder_block_env lib b) (block_builder st) (included st)"
  proof (rule block_builder_invariant_run [OF block_envs.block_builder_invariant_axioms assms(1)])
    fix b'
    assume "apply_pre_execution_changes lib b = Inr b'"
    with assms(2) show "env_inv lib (builder_block_env lib b) b' []"
      unfolding env_inv_def block_env_law_def by simp
  qed
  with assms(2) show "builder_block_env lib (block_builder st) = builder_block_env lib b"
    "list_all (executed_in lib (builder_block_env lib b)) (included st)"
    by (simp_all add: env_inv_def)
qed

subsection \<open>No panic\<close>

lemma include_transaction_panics:
  "include_transaction lib ctx ptx sc gas st = Exit LoopPanic \<Longrightarrow>
   effective_tip_per_gas lib (pt_consensus ptx) (base_fee ctx) = None"
  by (auto simp: include_transaction_def Let_def split: option.splits if_splits)

lemma execute_and_include_panics:
  assumes "execute_and_include lib ctx ptx sc st = Exit LoopPanic"
  shows "\<exists>g b'. execute_transaction lib (pt_consensus ptx) (block_builder st) = (Inr g, b') \<and>
    effective_tip_per_gas lib (pt_consensus ptx) (base_fee ctx) = None"
  using assms
  by (auto simp: execute_and_include_def reject_tx_def Let_def dest: include_transaction_panics
      split: prod.splits sum.splits execution_error.splits if_splits)

lemma build_iter_panics:
  assumes "build_iter lib ctx ptx st = Exit LoopPanic"
  shows "\<exists>g b'. execute_transaction lib (pt_consensus ptx) (block_builder st) = (Inr g, b') \<and>
    effective_tip_per_gas lib (pt_consensus ptx) (base_fee ctx) = None"
proof -
  have "reject_tx lib ptx err st \<noteq> Exit LoopPanic" for err by (simp add: reject_tx_def)
  with assms obtain sc where "execute_and_include lib ctx ptx sc st = Exit LoopPanic"
    unfolding build_iter_def Let_def by (auto split: if_splits option.splits sum.splits)
  then show ?thesis by (rule execute_and_include_panics)
qed

lemma build_loop_no_panic:
  assumes laws: "block_env_law lib" "tip_law lib"
    and env: "base_fee ctx = be_basefee (builder_block_env lib (block_builder st))" "included st = []"
  shows "build_loop lib ctx st \<noteq> Some (Stopped LoopPanic)"
proof
  let ?E = "builder_block_env lib (block_builder st)"
  assume run: "build_loop lib ctx st = Some (Stopped LoopPanic)"
  have "env_inv lib ?E (block_builder st) (included st)"
    unfolding env_inv_def by (simp add: env(2))
  from block_envs.stopped [OF run this] obtain st' it ptx it' where
    inv: "env_inv lib ?E (block_builder st') (included st')"
    and stop: "build_iter lib ctx ptx (advance it' st') = Exit LoopPanic"
    by blast
  from build_iter_panics [OF stop] obtain g b' where
    x: "execute_transaction lib (pt_consensus ptx) (block_builder st') = (Inr g, b')"
      "effective_tip_per_gas lib (pt_consensus ptx) (base_fee ctx) = None"
    by auto
  have "builder_block_env lib (block_builder st') = ?E"
    using inv laws(1) unfolding env_inv_def by blast
  moreover have "effective_tip_per_gas lib (pt_consensus ptx)
      (be_basefee (builder_block_env lib (block_builder st'))) \<noteq> None"
    using laws(2) x(1) unfolding tip_law_def by blast
  ultimately show False using x(2) env(1) by simp
qed

lemma default_load_payload_no_panic:
  assumes "block_env_law lib" and "tip_law lib"
  shows "default_load_payload slib lib spec conf args \<noteq> Some Panicked"
proof (cases "prepare_build lib spec conf args")
  case (Inr q)
  obtain provider b where q: "q = (provider, b)" by (cases q)
  show ?thesis
  proof (cases "apply_pre_execution_changes lib b")
    case pre: (Inr b')
    let ?ctx = "loop_context slib lib spec args b"
    have "base_fee ?ctx = be_basefee (builder_block_env lib b')"
      using assms(1) pre by (auto simp: loop_context_def Let_def block_env_law_def)
    then have "build_loop lib ?ctx (initial_state it b') \<noteq> Some (Stopped LoopPanic)" for it
      by (intro build_loop_no_panic assms) (simp_all add: initial_state_def)
    then show ?thesis
      by (auto simp: default_load_payload_def Inr q pre Let_def
          split: option.splits loop_exit.splits loop_stop.splits)
  qed (simp add: default_load_payload_def Inr q Let_def)
qed (simp add: default_load_payload_def)

text \<open>C12. The payload builder never panics: the \<open>expect\<close> on the effective tip cannot fail, because the
  transaction was executed in the environment whose base fee the tip is computed from. Over a
  finite iterator every build therefore returns, with an outcome or an error.\<close>

theorem build_never_panics:
  assumes "block_env_law lib" and "tip_law lib"
  shows "default_load_payload slib lib spec conf args \<noteq> Some Panicked \<and>
    (finite_iterator lib remaining \<longrightarrow>
       (\<exists>r. default_load_payload slib lib spec conf args = Some (Returned r)))"
proof -
  have no_panic: "default_load_payload slib lib spec conf args \<noteq> Some Panicked"
    by (rule default_load_payload_no_panic [OF assms])
  moreover have "\<exists>r. default_load_payload slib lib spec conf args = Some (Returned r)"
    if fin: "finite_iterator lib remaining"
    using default_load_payload_returns [OF fin, of slib spec conf args] no_panic
    by (metis run.exhaust)
  ultimately show ?thesis by blast
qed

lemma example_block_env_law: "block_env_law (example_build_lib sc)"
  by (simp add: block_env_law_def example_build_lib_def)

lemma example_tip_law: "tip_law (example_build_lib sc)"
  by (simp add: tip_law_def example_build_lib_def)

theorem build_never_panics_witness:
  "\<exists>r. default_load_payload example_spec_lib (example_build_lib (VarEip4844 example_sidecar))
     \<lparr>spec_inner = spec_of_genesis example_spec_lib load_dev_genesis\<rparr>
     (default_builder_config (example_build_lib (VarEip4844 example_sidecar))) (example_args 2) =
       Some (Returned r)"
  using build_never_panics [OF example_block_env_law example_tip_law] example_finite by blast

subsection \<open>Payloads are built in a Load environment\<close>

lemma loop_run_prepared:
  "loop_run slib lib spec conf args b provider st \<Longrightarrow>
   builder_for_next_block lib (arg_cached_reads args) provider (arg_parent_header args)
     (next_env_attributes lib conf spec (arg_parent_header args) (lba_inner (arg_attributes args))) = Inr b"
  unfolding loop_run_def by (drule conjunct1) (rule prepare_build_ok [THEN conjunct2])

lemma loop_run_validated:
  "loop_run slib lib spec conf args b provider st \<Longrightarrow>
   validate_payload_attributes (hd_timestamp (arg_parent_header args)) (arg_attributes args) = Inr ()"
  unfolding loop_run_def by (drule conjunct1) (rule prepare_build_ok [THEN conjunct1])

lemma loop_run_blobs:
  assumes "loop_run slib lib spec conf args b provider st"
    and "\<And>b. iterator_law lib (be_gas_limit (builder_block_env lib b))"
  shows "sum_list (map blobs_of (included st)) \<le> 1024"
  using loop_run_invariants(1) [OF assms]
    le_trans [OF _ loop_context_sel(3) [of slib lib spec args b]]
  by (simp add: blob_inv_def word_le_nat_alt)

definition priced_inv :: "build_ctx \<Rightarrow> ('it, 'b, 'blk, 'x, 'r, 'p) build_lib \<Rightarrow> ('it, 'b) build_state \<Rightarrow> bool" where
  "priced_inv ctx lib st \<longleftrightarrow>
     list_all (\<lambda>i. effective_tip_per_gas lib (pt_consensus (inc_tx i)) (base_fee ctx) = Some (inc_tip i))
       (included st)"

interpretation priced: loop_invariant lib ctx "priced_inv ctx lib"
  by unfold_locales (auto simp: priced_inv_def skipped_def included_one_def Let_def)

lemma loop_run_priced:
  assumes "loop_run slib lib spec conf args b provider st" and "i \<in> set (included st)"
  shows "effective_tip_per_gas lib (pt_consensus (inc_tx i)) (be_basefee (builder_block_env lib b)) =
    Some (inc_tip i)"
proof -
  obtain it b' where
    loop: "build_loop lib (loop_context slib lib spec args b) (initial_state it b') = Some (Finished st)"
    using assms(1) by (auto simp: loop_run_def)
  from priced.finished [OF loop refl] have "priced_inv (loop_context slib lib spec args b) lib st"
    by (simp add: priced_inv_def)
  with assms(2) show ?thesis by (simp add: priced_inv_def list_all_iff loop_context_def Let_def)
qed

text \<open>C8. A better payload was built in the environment the Load EVM makes for its attributes. The
  block builder its loop ran on had the block environment the Load EVM makes for them: the
  blob limits, the clamped excess blob gas and the blob price are the Load ones. Every
  transaction the loop included was executed in exactly that environment, its tip is the effective tip
  at that environment's base fee, the fees of the payload are the exact sum over all of these
  transactions, their gas fits the environment's limit, and the block of the payload is the one
  sealed by the builder that executed them.\<close>

theorem built_in_load_environment:
  assumes "default_load_payload slib lib spec conf args = Some (Returned (Inr (Better p reads)))"
    and "\<And>b. iterator_law lib (be_gas_limit (builder_block_env lib b))"
    and "block_env_law lib" and "next_env_law slib blib evm lib"
  shows "\<exists>b provider st env reqs.
    loop_run slib lib spec conf args b provider st \<and>
    next_evm_env slib blib evm (arg_parent_header args)
      (next_env_attributes lib conf spec (arg_parent_header args) (lba_inner (arg_attributes args))) = Inr env \<and>
    builder_block_env lib b = env_block env \<and>
    load_env blib (load_blob_params_at slib evm (ba_timestamp (lba_inner (arg_attributes args)))) env \<and>
    (\<forall>i \<in> set (included st). executed_in lib (env_block env) i \<and>
       effective_tip_per_gas lib (pt_consensus (inc_tx i)) (be_basefee (env_block env)) = Some (inc_tip i)) \<and>
    unat (bp_fees (lbp_inner p)) = fee_sum (included st) \<and>
    gas_sum (included st) \<le> unat (be_gas_limit (env_block env)) \<and>
    finish_block lib (block_builder st) provider = Inr (bp_block (lbp_inner p), reqs, reads)"
proof -
  let ?attrs = "next_env_attributes lib conf spec (arg_parent_header args) (lba_inner (arg_attributes args))"
  obtain b provider st where run: "loop_run slib lib spec conf args b provider st"
    and fin: "finish_payload slib lib spec (arg_attributes args) (arg_best_payload args)
       (is_active_at_timestamp slib spec Osaka (ba_timestamp (lba_inner (arg_attributes args))))
       provider st = Inr (Better p reads)"
    by (rule default_load_payload_finished [OF assms(1)]) simp
  have gas: "gas_sum (included st) \<le> unat (be_gas_limit (builder_block_env lib b))"
    and fees: "unat (bp_fees (lbp_inner p)) = fee_sum (included st)"
    using loop_run_invariants(2) [OF run assms(2)] fin
    by (auto simp: accounts_inv_def finish_payload_Better word_le_nat_alt)
  obtain reqs where sealed:
    "finish_block lib (block_builder st) provider = Inr (bp_block (lbp_inner p), reqs, reads)"
    using fin by (auto simp: finish_payload_Better)
  obtain env where env: "next_evm_env slib blib evm (arg_parent_header args) ?attrs = Inr env"
    "builder_block_env lib b = env_block env"
    using assms(4) loop_run_prepared [OF run] unfolding next_env_law_def by blast
  have "load_env blib (load_blob_params_at slib evm (nb_timestamp ?attrs)) env"
    using next_env.make_load [of slib blib evm "(arg_parent_header args, ?attrs)" env] env(1) by simp
  with run env gas fees sealed loop_run_env(2) [OF run assms(3)] loop_run_priced [OF run] show ?thesis
    by (intro exI [of _ b] exI [of _ provider] exI [of _ st] exI [of _ env] exI [of _ reqs])
      (simp add: next_env_attributes_def list_all_iff)
qed

text \<open>An upstream configuration whose next environment is the one of the example builder.\<close>

definition example_next_env :: evm_env where
  "example_next_env = \<lparr>env_cfg = \<lparr>cfg_max_blobs_per_tx = None, cfg_blob_base_fee_update_fraction = None\<rparr>,
     env_block = \<lparr>be_gas_limit = 2000000000, be_basefee = 7,
       be_blob_excess_gas_and_price = Some \<lparr>excess_blob_gas = 0, blob_gasprice = 9\<rparr>\<rparr>\<rparr>"

definition example_next_evm :: "(u64, unit) load_evm_config" where
  "example_next_evm = example_evm\<lparr>evm_inner := (evm_inner example_evm)
     \<lparr>up_next_evm_env := (\<lambda>p a. Inr example_next_env)\<rparr>\<rparr>"

lemma example_next_env_law:
  "next_env_law example_spec_lib example_blob_lib example_next_evm (example_build_lib sc)"
  by (simp add: next_env_law_def next_evm_env_def example_next_evm_def example_next_env_def
      example_build_lib_def enforce_load_blob_env_def Let_def example_blob_lib_def)

theorem built_in_load_environment_witness:
  "\<exists>spec p env. from_genesis example_spec_lib load_dev_genesis = Inr spec \<and>
     default_load_payload example_spec_lib (example_build_lib (VarEip4844 example_sidecar)) spec
       (default_builder_config (example_build_lib (VarEip4844 example_sidecar))) (example_args 2) =
         Some (Returned (Inr (Better p ()))) \<and>
     load_env example_blob_lib (load_blob_params_at example_spec_lib example_next_evm 2) env"
proof -
  let ?lib = "example_build_lib (VarEip4844 example_sidecar)"
  obtain s where s: "from_genesis example_spec_lib load_dev_genesis = Inr s"
    "\<not> is_active_at_timestamp example_spec_lib s Osaka 2" "compute_load_blob_cap example_spec_lib s 2 = 1024"
    by (rule example_specs)
  then obtain p where p: "default_load_payload example_spec_lib ?lib s (default_builder_config ?lib)
      (example_args 2) = Some (Returned (Inr (Better p ())))"
    using example_run [of example_spec_lib s "VarEip4844 example_sidecar"] by auto
  have "ba_timestamp (lba_inner (arg_attributes (example_args 2))) = 2"
    by (simp add: example_args_def example_attributes_def example_try_new_def)
  with built_in_load_environment [OF p example_iterator_law example_block_env_law example_next_env_law] p s(1)
  show ?thesis by auto
qed

subsection \<open>The transactions of the block\<close>

text \<open>
  Documented of the upstream block builder and assembler: a builder keeps the attributes it was
  made for (\<open>made_for\<close>) and the transactions it executed (\<open>txs_of\<close>), in order; sealing puts
  PREVRANDAO and timestamp of the attributes into the block, and the blob transactions of the
  block carry their versioned hashes (\<open>hashes_of\<close> reads them off the execution payload).
\<close>

definition tx_hashes :: "eth_tx \<Rightarrow> b256 list" where
  "tx_hashes tx = (case tx_blob_hashes tx of Some hs \<Rightarrow> hs | None \<Rightarrow> [])"

definition seal_law ::
  "('it, 'b, 'blk, 'x, 'r, 'p) build_lib \<Rightarrow> ('blk, 'v4, 'v5) payload_lib \<Rightarrow>
   ('b \<Rightarrow> next_block_attributes) \<Rightarrow> ('b \<Rightarrow> eth_tx list) \<Rightarrow> (payload_v3 \<Rightarrow> b256 list) \<Rightarrow> bool" where
  "seal_law lib plib made_for txs_of hashes_of \<longleftrightarrow>
     (\<forall>reads p h a b. builder_for_next_block lib reads p h a = Inr b \<longrightarrow> made_for b = a \<and> txs_of b = []) \<and>
     (\<forall>b b'. apply_pre_execution_changes lib b = Inr b' \<longrightarrow>
        made_for b' = made_for b \<and> txs_of b' = txs_of b) \<and>
     (\<forall>tx b e b'. execute_transaction lib tx b = (Inl e, b') \<longrightarrow>
        made_for b' = made_for b \<and> txs_of b' = txs_of b) \<and>
     (\<forall>tx b g b'. execute_transaction lib tx b = (Inr g, b') \<longrightarrow>
        made_for b' = made_for b \<and> txs_of b' = txs_of b @ [tx]) \<and>
     (\<forall>b p blk reqs reads. finish_block lib b p = Inr (blk, reqs, reads) \<longrightarrow>
        (let v1 = v2_payload_inner (v3_payload_inner (payload_v3_from_block plib (block_hash plib blk) blk))
         in pl_prev_randao v1 = nb_prev_randao (made_for b) \<and> pl_timestamp v1 = nb_timestamp (made_for b)) \<and>
        hashes_of (payload_v3_from_block plib (block_hash plib blk) blk) = concat (map tx_hashes (txs_of b)))"

lemma seal_law_finish:
  assumes "seal_law lib plib made_for txs_of hashes_of"
    and "finish_block lib b provider = Inr (blk, reqs, reads)"
  shows "pl_prev_randao (v2_payload_inner (v3_payload_inner
      (payload_v3_from_block plib (block_hash plib blk) blk))) = nb_prev_randao (made_for b)"
    and "pl_timestamp (v2_payload_inner (v3_payload_inner
      (payload_v3_from_block plib (block_hash plib blk) blk))) = nb_timestamp (made_for b)"
    and "hashes_of (payload_v3_from_block plib (block_hash plib blk) blk) = concat (map tx_hashes (txs_of b))"
  using assms unfolding seal_law_def Let_def by blast+

definition block_txs_inv ::
  "('it, 'b, 'blk, 'x, 'r, 'p) build_lib \<Rightarrow> ('blk, 'v4, 'v5) payload_lib \<Rightarrow>
   ('b \<Rightarrow> next_block_attributes) \<Rightarrow> ('b \<Rightarrow> eth_tx list) \<Rightarrow> (payload_v3 \<Rightarrow> b256 list) \<Rightarrow>
   next_block_attributes \<Rightarrow> 'b \<Rightarrow> included_tx list \<Rightarrow> bool" where
  "block_txs_inv lib plib made_for txs_of hashes_of a b incs \<longleftrightarrow>
     seal_law lib plib made_for txs_of hashes_of \<longrightarrow>
     made_for b = a \<and> txs_of b = map (\<lambda>i. pt_consensus (inc_tx i)) incs"

interpretation block_txs: block_builder_invariant lib
    "block_txs_inv lib plib made_for txs_of hashes_of a"
  by unfold_locales (auto simp: block_txs_inv_def seal_law_def)

text \<open>The block of a better payload, and the payload the envelope carries.\<close>

lemma better_payload_block:
  assumes "default_load_payload slib lib spec conf args = Some (Returned (Inr (Better p reads)))"
    and law: "seal_law lib plib made_for txs_of hashes_of"
  obtains b provider st where "loop_run slib lib spec conf args b provider st"
    and "pl_prev_randao (v2_payload_inner (v3_payload_inner (payload_v3_from_block plib
       (block_hash plib (bp_block (lbp_inner p))) (bp_block (lbp_inner p))))) =
       ba_prev_randao (lba_inner (arg_attributes args))"
    and "pl_timestamp (v2_payload_inner (v3_payload_inner (payload_v3_from_block plib
       (block_hash plib (bp_block (lbp_inner p))) (bp_block (lbp_inner p))))) =
       ba_timestamp (lba_inner (arg_attributes args))"
    and "hashes_of (payload_v3_from_block plib (block_hash plib (bp_block (lbp_inner p)))
       (bp_block (lbp_inner p))) = concat (map (\<lambda>i. tx_hashes (pt_consensus (inc_tx i))) (included st))"
proof -
  let ?a = "next_env_attributes lib conf spec (arg_parent_header args) (lba_inner (arg_attributes args))"
  obtain b provider st where run: "loop_run slib lib spec conf args b provider st"
    and fin: "finish_payload slib lib spec (arg_attributes args) (arg_best_payload args)
       (is_active_at_timestamp slib spec Osaka (ba_timestamp (lba_inner (arg_attributes args))))
       provider st = Inr (Better p reads)"
    by (rule default_load_payload_finished [OF assms(1)]) simp
  have new: "made_for b = ?a" "txs_of b = []"
    using law loop_run_prepared [OF run] unfolding seal_law_def by blast+
  have "block_txs_inv lib plib made_for txs_of hashes_of ?a (block_builder st) (included st)"
  proof (rule block_builder_invariant_run [OF block_txs.block_builder_invariant_axioms run])
    fix b'
    assume "apply_pre_execution_changes lib b = Inr b'"
    with law have "made_for b' = made_for b \<and> txs_of b' = txs_of b"
      unfolding seal_law_def by blast
    with new show "block_txs_inv lib plib made_for txs_of hashes_of ?a b' []"
      by (simp add: block_txs_inv_def)
  qed
  with law have st: "made_for (block_builder st) = ?a"
    "txs_of (block_builder st) = map (\<lambda>i. pt_consensus (inc_tx i)) (included st)"
    by (simp_all add: block_txs_inv_def)
  obtain reqs where "finish_block lib (block_builder st) provider = Inr (bp_block (lbp_inner p), reqs, reads)"
    using fin by (auto simp: finish_payload_Better)
  from seal_law_finish [OF law this] st show thesis
    by (intro that [OF run]) (simp_all add: next_env_attributes_def comp_def)
qed

lemma hashes_length:
  "length (concat (map (\<lambda>i. tx_hashes (pt_consensus (inc_tx i))) incs)) = sum_list (map blobs_of incs)"
  by (induction incs) (simp_all add: tx_hashes_def blobs_of_def split: option.split)

end
