(* ===== verification/Builder_Outcome.thy ===== *)
theory Builder_Outcome
  imports Builder
begin

section \<open>Outcomes of a build (\<open>src/engine/builder.rs\<close>)\<close>

text \<open>
  What each way \<open>default_load_payload\<close> can end says about the build: which error stands for
  which step, when a build is cancelled, and how a payload compares with the best one so far.
\<close>

text \<open>Documented of \<open>is_better_payload\<close>: a first payload is better, any other needs higher fees.\<close>

definition better_law :: "('it, 'b, 'blk, 'x, 'r, 'p) build_lib \<Rightarrow> bool" where
  "better_law lib \<longleftrightarrow> (\<forall>best fees. is_better_payload lib best fees \<longleftrightarrow>
     (case best of None \<Rightarrow> True | Some q \<Rightarrow> bp_fees (lbp_inner q) < fees))"

text \<open>What may come out of the steps before and in the loop, and of those after it.\<close>

fun loop_outcome ::
  "('r, 'blk) build_arguments \<Rightarrow> 'x payload_builder_error + ('blk, 'r) build_outcome \<Rightarrow> bool" where
  "loop_outcome args (Inr Cancelled) \<longleftrightarrow> (\<exists>i. arg_is_cancelled args i)"
| "loop_outcome args (Inr out) \<longleftrightarrow> False"
| "loop_outcome args (Inl e) \<longleftrightarrow>
     (\<exists>x. e = BlobStoreError x) \<or> (\<exists>x. e = EvmError x) \<or> (\<exists>x. e = PreExecutionError x)"

fun final_outcome ::
  "'c spec_lib \<Rightarrow> ('it, 'b, 'blk, 'x, 'r, 'p) build_lib \<Rightarrow> 'c load_chain_spec \<Rightarrow>
   ('r, 'blk) build_arguments \<Rightarrow> 'x payload_builder_error + ('blk, 'r) build_outcome \<Rightarrow> bool" where
  "final_outcome slib lib spec args (Inr (Better p reads)) \<longleftrightarrow>
     is_better_payload lib (arg_best_payload args) (bp_fees (lbp_inner p)) \<and>
     bp_id (lbp_inner p) = ba_payload_id (lba_inner (arg_attributes args)) \<and>
     (bp_requests (lbp_inner p) \<noteq> None \<longleftrightarrow>
        is_active_at_timestamp slib spec Prague (ba_timestamp (lba_inner (arg_attributes args))))"
| "final_outcome slib lib spec args (Inr (Aborted fees reads)) \<longleftrightarrow>
     \<not> is_better_payload lib (arg_best_payload args) fees"
| "final_outcome slib lib spec args (Inr out) \<longleftrightarrow> False"
| "final_outcome slib lib spec args (Inl e) \<longleftrightarrow>
     (\<exists>x. e = FinishError x) \<or>
     (\<exists>n. e = BlockTooLarge n (MAX_RLP_BLOCK_SIZE lib) \<and> MAX_RLP_BLOCK_SIZE lib < n \<and>
        is_active_at_timestamp slib spec Osaka (ba_timestamp (lba_inner (arg_attributes args))))"

lemma finish_payload_outcome:
  "final_outcome slib lib spec args
     (finish_payload slib lib spec (arg_attributes args) (arg_best_payload args)
       (is_active_at_timestamp slib spec Osaka (ba_timestamp (lba_inner (arg_attributes args)))) provider st)"
proof -
  let ?sealed = "finish_block lib (block_builder st) provider"
  show ?thesis
  proof (cases ?sealed)
    case (Inr q)
    obtain blk reqs reads where "q = (blk, reqs, reads)" by (cases q)
    with Inr show ?thesis by (simp add: finish_payload_def Let_def)
  qed (simp add: finish_payload_def)
qed

text \<open>The steps before the loop are checked in the order of the code.\<close>

lemma prepare_build_errors:
  "prepare_build lib spec conf args = Inl e \<Longrightarrow>
   (case validate_payload_attributes (hd_timestamp (arg_parent_header args)) (arg_attributes args) of
      Inl a \<Rightarrow> e = AttributesError a
    | Inr _ \<Rightarrow> (\<exists>x. e = ProviderError x) \<or> (\<exists>x. e = EnvironmentError x))"
  by (auto simp: prepare_build_def Let_def rbind_eq_Inl map_err_eq_Inl split: sum.split)

lemma default_load_payload_cases:
  assumes "default_load_payload slib lib spec conf args = Some (Returned r)"
  obtains e where "prepare_build lib spec conf args = Inl e" and "r = Inl e"
  | q where "prepare_build lib spec conf args = Inr q" and "loop_outcome args r"
  | q where "prepare_build lib spec conf args = Inr q" and "final_outcome slib lib spec args r"
proof (cases "prepare_build lib spec conf args")
  case (Inl e)
  with assms that(1) show thesis by (simp add: default_load_payload_def)
next
  case (Inr q)
  obtain provider b where q: "q = (provider, b)" by (cases q)
  let ?ctx = "loop_context slib lib spec args b"
  have osaka: "is_osaka ?ctx =
      is_active_at_timestamp slib spec Osaka (ba_timestamp (lba_inner (arg_attributes args)))"
    "is_cancelled ?ctx = arg_is_cancelled args"
    by (simp_all add: loop_context_def Let_def)
  show thesis
  proof (cases "apply_pre_execution_changes lib b")
    case (Inl e)
    with assms Inr q have "r = Inl (PreExecutionError e)" by (simp add: default_load_payload_def Let_def)
    with Inr that(2) show thesis by simp
  next
    case pre: (Inr b')
    note run = assms [unfolded default_load_payload_def Inr q sum.case prod.case Let_def pre]
    then obtain it where it: "(case build_loop lib ?ctx (initial_state it b') of
        None \<Rightarrow> None | Some (Stopped LoopPanic) \<Rightarrow> Some Panicked
      | Some (Stopped LoopCancelled) \<Rightarrow> Some (Returned (Inr Cancelled))
      | Some (Stopped (LoopError e)) \<Rightarrow> Some (Returned (Inl e))
      | Some (Finished st) \<Rightarrow> Some (Returned (finish_payload slib lib spec (arg_attributes args)
          (arg_best_payload args) (is_osaka ?ctx) provider st))) = Some (Returned r)"
      by blast
    show thesis
    proof (cases "build_loop lib ?ctx (initial_state it b')")
      case (Some ex)
      show thesis
      proof (cases ex)
        case (Finished st)
        with it Some finish_payload_outcome [of slib lib spec args provider st] Inr that(3)
        show thesis by (simp add: osaka)
      next
        case (Stopped e)
        with it Some build_loop_Stopped [of lib ?ctx "initial_state it b'" e] have "loop_outcome args r"
          by (cases e) (auto simp: osaka)
        with Inr that(2) show thesis by simp
      qed
    qed (use it in simp)
  qed
qed

text \<open>An attributes error is the verdict of the validation.\<close>

lemma default_load_payload_attributes_error:
  assumes "default_load_payload slib lib spec conf args = Some (Returned (Inl (AttributesError e)))"
  shows "validate_payload_attributes (hd_timestamp (arg_parent_header args)) (arg_attributes args) = Inl e"
  using assms
proof (cases rule: default_load_payload_cases)
  case (1 e')
  with prepare_build_errors [OF 1(1)] show ?thesis
    by (cases "validate_payload_attributes (hd_timestamp (arg_parent_header args)) (arg_attributes args)") auto
qed auto

subsection \<open>Empty payloads\<close>

text \<open>The arguments \<open>build_empty_payload\<close> builds with.\<close>

definition empty_args ::
  "('it, 'b, 'blk, 'x, 'r, 'p) build_lib \<Rightarrow> header \<Rightarrow> load_payload_builder_attributes \<Rightarrow>
   ('r, 'blk) build_arguments" where
  "empty_args lib parent attrs = \<lparr>arg_cached_reads = default_reads lib, arg_parent_header = parent,
    arg_attributes = attrs, arg_is_cancelled = (\<lambda>_. False), arg_best_payload = None\<rparr>"

lemma build_empty_payload_run:
  "build_empty_payload slib lib spec conf parent attrs =
     (case default_load_payload slib lib spec conf (empty_args lib parent attrs) of
        None \<Rightarrow> None
      | Some Panicked \<Rightarrow> Some Panicked
      | Some (Returned r) \<Rightarrow> Some (Returned (rbind r (\<lambda>outcome. case into_payload outcome of
                                   Some payload \<Rightarrow> Inr payload | None \<Rightarrow> Inl MissingPayload))))"
  by (simp add: build_empty_payload_def empty_args_def Let_def)

lemma build_empty_payload_returns:
  assumes "finite_iterator lib remaining"
  shows "\<exists>r. build_empty_payload slib lib spec conf parent attrs = Some r"
proof -
  obtain r where "default_load_payload slib lib spec conf (empty_args lib parent attrs) = Some r"
    using default_load_payload_returns [OF assms] by blast
  then show ?thesis by (cases r) (simp_all add: build_empty_payload_run)
qed

lemma build_empty_payload_attributes_error:
  assumes "build_empty_payload slib lib spec conf parent attrs = Some (Returned (Inl (AttributesError e)))"
  shows "validate_payload_attributes (hd_timestamp parent) attrs = Inl e"
proof -
  from assms have "default_load_payload slib lib spec conf (empty_args lib parent attrs) =
      Some (Returned (Inl (AttributesError e)))"
    by (auto simp: build_empty_payload_run rbind_eq_Inl split: option.splits run.splits)
  then show ?thesis using default_load_payload_attributes_error by (fastforce simp: empty_args_def)
qed

lemma build_empty_payload_panics:
  "build_empty_payload slib lib spec conf parent attrs = Some Panicked \<longleftrightarrow>
   default_load_payload slib lib spec conf (empty_args lib parent attrs) = Some Panicked"
  by (auto simp: build_empty_payload_run split: option.splits run.splits)

lemma no_missing_payload:
  assumes "default_load_payload slib lib spec conf args = Some (Returned r)"
    and "\<And>fees. is_better_payload lib (arg_best_payload args) fees" and "\<And>i. \<not> arg_is_cancelled args i"
  shows "r \<noteq> Inl MissingPayload" and "r = Inr out \<Longrightarrow> into_payload out \<noteq> None"
proof -
  have "r \<noteq> Inl MissingPayload \<and> (\<forall>out. r = Inr out \<longrightarrow> into_payload out \<noteq> None)"
    using assms(1)
  proof (cases rule: default_load_payload_cases)
    case (1 e)
    with prepare_build_errors [OF 1(1)] show ?thesis by (auto split: sum.splits)
  next
    case (2 q)
    with assms(3) show ?thesis by (cases "(args, r)" rule: loop_outcome.cases) auto
  next
    case (3 q)
    with assms(2) show ?thesis by (cases "(slib, lib, spec, args, r)" rule: final_outcome.cases) auto
  qed
  then show "r \<noteq> Inl MissingPayload" and "r = Inr out \<Longrightarrow> into_payload out \<noteq> None" by blast+
qed

subsection \<open>Properties\<close>

text \<open>\<open>build_empty_payload\<close> never reports a missing payload: it cannot be cancelled, and without
  a best payload so far every finished build is better, so it returns a payload or the error of
  the step that failed.\<close>

lemma empty_payload_never_missing:
  assumes "\<And>fees. is_better_payload lib None fees"
  shows "build_empty_payload slib lib spec conf parent attrs \<noteq> Some (Returned (Inl MissingPayload))"
proof
  assume "build_empty_payload slib lib spec conf parent attrs = Some (Returned (Inl MissingPayload))"
  then obtain r where "default_load_payload slib lib spec conf (empty_args lib parent attrs) = Some (Returned r)"
    and "r = Inl MissingPayload \<or> (\<exists>out. r = Inr out \<and> into_payload out = None)"
    by (auto simp: build_empty_payload_run rbind_eq_Inl split: option.splits run.splits)
  with no_missing_payload [of slib lib spec conf "empty_args lib parent attrs" r] assms
  show False by (auto simp: empty_args_def)
qed

lemma empty_payload_never_missing_witness:
  "build_empty_payload example_spec_lib (example_build_lib (VarEip4844 example_sidecar))
     \<lparr>spec_inner = spec_of_genesis example_spec_lib load_dev_genesis\<rparr>
     (default_builder_config (example_build_lib (VarEip4844 example_sidecar)))
     (arg_parent_header (example_args 2)) (arg_attributes (example_args 2)) \<noteq>
   Some (Returned (Inl MissingPayload))"
  by (rule empty_payload_never_missing) (simp add: example_build_lib_def)

text \<open>C14. How a build ends. It fails with an attributes error exactly when the attributes are refused, with
  a block that is too large only after Osaka, and never with a missing payload; it is cancelled
  only if the cancellation mark was set; it is aborted only when there is a best payload with at
  least its fees; it never freezes; and a better payload has strictly higher fees than the best
  one so far, the id of its attributes, and execution requests exactly when Prague is active.\<close>

theorem build_outcomes:
  assumes "default_load_payload slib lib spec conf args = Some (Returned r)" and "better_law lib"
  shows "case r of
      Inl e \<Rightarrow>
        ((\<exists>a. e = AttributesError a) \<longleftrightarrow>
           \<not> is_ok (validate_payload_attributes (hd_timestamp (arg_parent_header args)) (arg_attributes args))) \<and>
        ((\<exists>n m. e = BlockTooLarge n m) \<longrightarrow>
           is_active_at_timestamp slib spec Osaka (ba_timestamp (lba_inner (arg_attributes args)))) \<and>
        e \<noteq> MissingPayload
    | Inr (Better p reads) \<Rightarrow>
        (\<forall>q. arg_best_payload args = Some q \<longrightarrow> bp_fees (lbp_inner q) < bp_fees (lbp_inner p)) \<and>
        bp_id (lbp_inner p) = ba_payload_id (lba_inner (arg_attributes args)) \<and>
        (bp_requests (lbp_inner p) \<noteq> None \<longleftrightarrow>
           is_active_at_timestamp slib spec Prague (ba_timestamp (lba_inner (arg_attributes args))))
    | Inr (Aborted fees reads) \<Rightarrow> \<exists>q. arg_best_payload args = Some q \<and> fees \<le> bp_fees (lbp_inner q)
    | Inr Cancelled \<Rightarrow> \<exists>i. arg_is_cancelled args i
    | Inr (Freeze p) \<Rightarrow> False"
  using assms(1)
proof (cases rule: default_load_payload_cases)
  case (1 e)
  with prepare_build_errors [OF 1(1)] show ?thesis
    by (cases "validate_payload_attributes (hd_timestamp (arg_parent_header args)) (arg_attributes args)") auto
next
  case (2 q)
  have "validate_payload_attributes (hd_timestamp (arg_parent_header args)) (arg_attributes args) = Inr ()"
    using 2(1) prepare_build_ok [of lib spec conf args "fst q" "snd q"] by simp
  with 2(2) show ?thesis by (cases "(args, r)" rule: loop_outcome.cases) auto
next
  case (3 q)
  have "validate_payload_attributes (hd_timestamp (arg_parent_header args)) (arg_attributes args) = Inr ()"
    using 3(1) prepare_build_ok [of lib spec conf args "fst q" "snd q"] by simp
  with 3(2) assms(2) show ?thesis
    by (cases "(slib, lib, spec, args, r)" rule: final_outcome.cases)
      (auto simp: better_law_def not_less split: option.splits)
qed

lemma example_better_law: "better_law (example_build_lib sc)"
  by (simp add: better_law_def example_build_lib_def split: option.split)

theorem build_outcomes_witness:
  "\<exists>spec p. from_genesis example_spec_lib load_dev_genesis = Inr spec \<and>
     default_load_payload example_spec_lib (example_build_lib (VarEip4844 example_sidecar)) spec
       (default_builder_config (example_build_lib (VarEip4844 example_sidecar))) (example_args 2) =
         Some (Returned (Inr (Better p ()))) \<and> bp_requests (lbp_inner p) \<noteq> None"
proof -
  let ?lib = "example_build_lib (VarEip4844 example_sidecar)"
  obtain s where s: "from_genesis example_spec_lib load_dev_genesis = Inr s"
    "\<not> is_active_at_timestamp example_spec_lib s Osaka 2" "compute_load_blob_cap example_spec_lib s 2 = 1024"
    by (rule example_specs)
  then obtain p where p: "default_load_payload example_spec_lib ?lib s (default_builder_config ?lib)
      (example_args 2) = Some (Returned (Inr (Better p ())))"
    using example_run [of example_spec_lib s "VarEip4844 example_sidecar"] by auto
  have "is_active_at_timestamp example_spec_lib s Prague t" for t
    by (simp add: from_genesis_active [OF example_spec_lib_laws s(1)])
  with build_outcomes [OF p example_better_law] p s(1) show ?thesis by auto
qed

end
