(* ===== verification/Payload_Cycle.thy ===== *)
theory Payload_Cycle
  imports Builder_Env Builder_Outcome Engine_Rpc Payload_Access
begin

section \<open>The life of a payload\<close>

text \<open>
  From the payload attributes of a forkchoice update through repeated builds to the payload the
  engine hands out, and back into the engine: \<open>engine/builder.rs\<close>, \<open>engine/payload.rs\<close>, \<open>engine/validator.rs\<close>,
  \<open>engine/rpc.rs\<close> and \<open>evm/mod.rs\<close> together. The payload job that calls \<open>try_build\<close> again and again is upstream:
  here it is any sequence of calls that pass the best payload so far.
\<close>

subsection \<open>Builder and envelopes\<close>

text \<open>The payload of a build before Osaka passes the guard of the conversions.\<close>

lemma better_payload_passes_guard:
  assumes "default_load_payload slib lib spec conf args = Some (Returned (Inr (Better p reads)))"
    and "\<And>b. iterator_law lib (be_gas_limit (builder_block_env lib b))" and "push_law lib"
    and "blob_tx_law lib"
    and "\<not> is_active_at_timestamp slib spec Osaka (ba_timestamp (lba_inner (arg_attributes args)))"
  shows "guard_sidecars p (unat LOAD_MAX_BLOB_COUNT) = Inr ()"
    and "\<forall>ss. bp_sidecars (lbp_inner p) \<noteq> SidecarsEip7594 ss"
proof -
  obtain b provider st where run: "loop_run slib lib spec conf args b provider st"
    and sc: "bp_sidecars (lbp_inner p) = blob_sidecars st"
    and inv: "sidecar_inv (loop_context slib lib spec args b) st"
    and blobs: "sum_list (map blobs_of (included st)) \<le> 1024"
    by (rule default_load_payload_Better [OF assms(1-3)])
  have "length (included_sidecars (included st)) \<le> sum_list (map blobs_of (included st))"
    using inv loop_run_blob_txs [OF run assms(4)]
    by (intro sidecars_le_blobs) (simp add: sidecar_inv_def)
  with inv sc blobs assms(5)
  show "guard_sidecars p (unat LOAD_MAX_BLOB_COUNT) = Inr ()"
    "\<forall>ss. bp_sidecars (lbp_inner p) \<noteq> SidecarsEip7594 ss"
    by (auto simp: guard_sidecars_ok sidecar_inv_def)
qed

lemma try_into_envelope_v3_payload:
  assumes "guard_sidecars p (unat LOAD_MAX_BLOB_COUNT) = Inr ()"
    and "\<forall>ss. bp_sidecars (lbp_inner p) \<noteq> SidecarsEip7594 ss"
  shows "\<exists>e. try_into_envelope_v3 plib p = Some (Inr e) \<and> block_value e = bp_fees (lbp_inner p) \<and>
    execution_payload e = payload_v3_from_block plib (block_hash plib (bp_block (lbp_inner p)))
      (bp_block (lbp_inner p)) \<and>
    envelope_blobs_bundle e = (case bp_sidecars (lbp_inner p) of
       SidecarsEip4844 ss \<Rightarrow> bundle_from_sidecars plib ss | _ \<Rightarrow> bundle_empty plib)"
  using assms by (cases "bp_sidecars (lbp_inner p)") (auto simp: try_into_envelope_v3_def Let_def)

text \<open>Before Osaka every payload the builder returns can be fetched with
  \<open>engine_getPayloadV3\<close>: the conversion succeeds, with the fees of the payload and the sidecars
  of its blob transactions.\<close>

lemma built_payload_retrievable:
  assumes "default_load_payload slib lib spec conf args = Some (Returned (Inr (Better p reads)))"
    and "\<And>b. iterator_law lib (be_gas_limit (builder_block_env lib b))" and "push_law lib"
    and "blob_tx_law lib"
    and "\<not> is_active_at_timestamp slib spec Osaka (ba_timestamp (lba_inner (arg_attributes args)))"
  shows "\<exists>e. try_into_envelope_v3 plib p = Some (Inr e) \<and> block_value e = bp_fees (lbp_inner p) \<and>
    envelope_blobs_bundle e = (case bp_sidecars (lbp_inner p) of
       SidecarsEip4844 ss \<Rightarrow> bundle_from_sidecars plib ss | _ \<Rightarrow> bundle_empty plib)"
  using try_into_envelope_v3_payload [OF better_payload_passes_guard [OF assms]] by blast

lemma example_blob_tx_law: "blob_tx_law (example_build_lib sc)"
  by (auto simp: blob_tx_law_def example_build_lib_def example_next_def blob_tx_def split: list.splits if_splits)

lemma built_payload_retrievable_witness:
  "\<forall>plib :: (example_block, 'v4, 'v5) payload_lib. \<exists>spec p e.
     from_genesis example_spec_lib load_dev_genesis = Inr spec \<and>
     default_load_payload example_spec_lib (example_build_lib (VarEip4844 example_sidecar)) spec
       (default_builder_config (example_build_lib (VarEip4844 example_sidecar))) (example_args 2) =
         Some (Returned (Inr (Better p ()))) \<and>
     try_into_envelope_v3 plib p = Some (Inr e) \<and> block_value e = 42000"
proof
  fix plib :: "(example_block, 'v4, 'v5) payload_lib"
  let ?lib = "example_build_lib (VarEip4844 example_sidecar)"
  obtain s where s: "from_genesis example_spec_lib load_dev_genesis = Inr s"
    "\<not> is_active_at_timestamp example_spec_lib s Osaka 2" "compute_load_blob_cap example_spec_lib s 2 = 1024"
    by (rule example_specs)
  then obtain p where p: "default_load_payload example_spec_lib ?lib s (default_builder_config ?lib)
      (example_args 2) = Some (Returned (Inr (Better p ())))" "bp_fees (lbp_inner p) = 42000"
    using example_run [of example_spec_lib s "VarEip4844 example_sidecar"] by auto
  have "blob_tx_law ?lib" by (rule example_blob_tx_law)
  moreover have "ba_timestamp (lba_inner (arg_attributes (example_args 2))) = 2"
    by (simp add: example_args_def example_attributes_def example_try_new_def)
  ultimately obtain e where "try_into_envelope_v3 plib p = Some (Inr e)" "block_value e = 42000"
    using built_payload_retrievable [OF p(1) example_iterator_law example_push_law, of plib] s(2) p(2)
    by auto
  with s(1) p(1) show "\<exists>spec p e. from_genesis example_spec_lib load_dev_genesis = Inr spec \<and>
     default_load_payload example_spec_lib ?lib spec (default_builder_config ?lib) (example_args 2) =
         Some (Returned (Inr (Better p ()))) \<and>
     try_into_envelope_v3 plib p = Some (Inr e) \<and> block_value e = 42000"
    by blast
qed

text \<open>C30. From Osaka on the builder and the envelopes that carry blobs contradict each other: the builder
  only includes blob transactions with EIP-7594 sidecars, and the conversions to the V3, V4 and V5
  envelopes, the ones with a blobs bundle, refuse exactly those. So a payload with at least one
  blob transaction can be built, but never be fetched together with its blobs, whatever upstream would convert.
  Only the V1 and V2 conversions, which cannot fail and have no blobs bundle, still go through,
  with what upstream makes of the payload inside.\<close>

theorem osaka_blobs_not_retrievable:
  assumes "default_load_payload slib lib spec conf args = Some (Returned (Inr (Better p reads)))"
    and "\<And>b. iterator_law lib (be_gas_limit (builder_block_env lib b))" and "push_law lib"
    and "is_active_at_timestamp slib spec Osaka (ba_timestamp (lba_inner (arg_attributes args)))"
    and "bp_sidecars (lbp_inner p) \<noteq> SidecarsEmpty"
  shows "try_into_envelope_v3 plib p = Some (Inl UnexpectedEip7594Sidecars) \<and>
    try_into_envelope_v4 plib p = Inl UnexpectedEip7594Sidecars \<and>
    try_into_envelope_v5 plib p = Inl UnexpectedEip7594Sidecars \<and>
    into_payload_v1 clib p = eth_payload_v1 clib (lbp_inner p) \<and>
    into_envelope_v2 clib p = eth_envelope_v2 clib (lbp_inner p)"
proof -
  obtain b provider st where "loop_run slib lib spec conf args b provider st"
    "bp_sidecars (lbp_inner p) = blob_sidecars st"
    "sidecar_inv (loop_context slib lib spec args b) st"
    by (rule default_load_payload_Better [OF assms(1-3)])
  with assms(4,5) obtain ss where "bp_sidecars (lbp_inner p) = SidecarsEip7594 ss"
    by (auto simp: sidecar_inv_def split: if_splits)
  from legacy_conversions_unguarded [OF guard_sidecars_eip7594 [OF this]] show ?thesis by blast
qed

theorem osaka_blobs_not_retrievable_witness:
  "\<forall>(plib :: (example_block, 'v4, 'v5) payload_lib) (clib :: (example_block, 'v2) conversion_lib). \<exists>spec p.
     from_genesis example_spec_lib osaka_genesis = Inr spec \<and>
     default_load_payload example_spec_lib (example_build_lib (VarEip7594 example_sidecar)) spec
       (default_builder_config (example_build_lib (VarEip7594 example_sidecar))) (example_args 2) =
         Some (Returned (Inr (Better p ()))) \<and>
     try_into_envelope_v5 plib p = Inl UnexpectedEip7594Sidecars \<and>
     into_envelope_v2 clib p = eth_envelope_v2 clib (lbp_inner p)"
proof (intro allI)
  fix plib :: "(example_block, 'v4, 'v5) payload_lib" and clib :: "(example_block, 'v2) conversion_lib"
  let ?lib = "example_build_lib (VarEip7594 example_sidecar)"
  obtain s where s: "from_genesis example_spec_lib osaka_genesis = Inr s"
    "is_active_at_timestamp example_spec_lib s Osaka 2" "compute_load_blob_cap example_spec_lib s 2 = 9"
    by (rule example_osaka_spec)
  then obtain p where p: "default_load_payload example_spec_lib ?lib s (default_builder_config ?lib)
      (example_args 2) = Some (Returned (Inr (Better p ())))"
    "bp_sidecars (lbp_inner p) = SidecarsEip7594 [example_sidecar]"
    using example_run [of example_spec_lib s "VarEip7594 example_sidecar"] by auto
  have "ba_timestamp (lba_inner (arg_attributes (example_args 2))) = 2"
    by (simp add: example_args_def example_attributes_def example_try_new_def)
  then have "try_into_envelope_v5 plib p = Inl UnexpectedEip7594Sidecars \<and>
      into_envelope_v2 clib p = eth_envelope_v2 clib (lbp_inner p)"
    using osaka_blobs_not_retrievable [OF p(1) example_iterator_law example_push_law, of plib clib] s(2) p(2)
    by simp
  with s(1) p(1) show "\<exists>spec p. from_genesis example_spec_lib osaka_genesis = Inr spec \<and>
     default_load_payload example_spec_lib ?lib spec (default_builder_config ?lib) (example_args 2) =
         Some (Returned (Inr (Better p ()))) \<and>
     try_into_envelope_v5 plib p = Inl UnexpectedEip7594Sidecars \<and>
     into_envelope_v2 clib p = eth_envelope_v2 clib (lbp_inner p)"
    by blast
qed

subsection \<open>Feeding a payload back\<close>

text \<open>A node accepts the payloads it built: before Osaka, the payload of the V3 envelope of a better
  payload carries the PREVRANDAO constant and at most 1024 versioned hashes, so it satisfies the
  invariants of the engine validator, and sent back with those hashes in \<open>engine_newPayloadV3\<close> it
  passes the guards of the RPC wrapper and reaches the engine, whatever the state.\<close>

lemma own_payload_accepted:
  fixes api :: "('s, 'x, 'env, 'k, 'c) inner_api"
  assumes "spec_lib_laws slib" and "from_genesis slib g = Inr spec"
    and "default_load_payload slib lib spec conf args = Some (Returned (Inr (Better p reads)))"
    and "\<And>b. iterator_law lib (be_gas_limit (builder_block_env lib b))" and "push_law lib"
    and "blob_tx_law lib" and "seal_law lib plib made_for txs_of hashes_of"
    and "\<not> is_active_at_timestamp slib spec Osaka (ba_timestamp (lba_inner (arg_attributes args)))"
  shows "\<exists>e hs. try_into_envelope_v3 plib p = Some (Inr e) \<and> hs = hashes_of (execution_payload e) \<and>
    length hs \<le> 1024 \<and>
    load_payload_ok slib vlib spec (data_v3 (execution_payload e) hs root) \<and>
    rpc_new_payload_v3 api d (execution_payload e) hs root st =
      metered record_new_payload d
        (new_payload_v3_metered api (data_v3 (execution_payload e) hs root)) st"
proof -
  let ?blk = "bp_block (lbp_inner p)"
  let ?pl = "payload_v3_from_block plib (block_hash plib ?blk) ?blk"
  obtain e where e: "try_into_envelope_v3 plib p = Some (Inr e)" "execution_payload e = ?pl"
    using try_into_envelope_v3_payload [OF better_payload_passes_guard [OF assms(3-6,8)], of plib] by blast
  obtain b provider st' where run: "loop_run slib lib spec conf args b provider st'"
    and randao: "payload_v3_prev_randao ?pl = ba_prev_randao (lba_inner (arg_attributes args))"
    and hashes: "hashes_of ?pl = concat (map (\<lambda>i. tx_hashes (pt_consensus (inc_tx i))) (included st'))"
    unfolding payload_v3_prev_randao_def by (rule better_payload_block [OF assms(3,7)])
  have "length (hashes_of ?pl) \<le> 1024"
    using loop_run_blobs [OF run assms(4)] by (simp add: hashes hashes_length)
  moreover have "payload_v3_prev_randao ?pl = LOAD_PREVRANDAO"
    using loop_run_validated [OF run] by (simp add: randao validate_payload_attributes_ok)
  ultimately have ok: "length (hashes_of ?pl) \<le> 1024" "payload_v3_prev_randao ?pl = LOAD_PREVRANDAO" .
  then have "rpc_new_payload_v3 api d ?pl (hashes_of ?pl) root st =
      metered record_new_payload d (new_payload_v3_metered api (data_v3 ?pl (hashes_of ?pl) root)) st"
    using new_payload_v3.passed [of "(?pl, hashes_of ?pl, root)" "()" api d st]
    by (simp add: new_payload_guard_ok)
  moreover have "load_payload_ok slib vlib spec (data_v3 ?pl (hashes_of ?pl) root)"
    using ok by (simp add: load_payload_ok_from_genesis [OF assms(1,2)] payload_v3_prev_randao_def data_defs)
  ultimately show ?thesis using e ok(1) by auto
qed

text \<open>A payload library for the example blocks, attributes with transactions: the payload has the PREVRANDAO
  and the timestamp of the attributes and the versioned hashes as its transactions.\<close>

definition example_block_payload :: "example_block \<Rightarrow> payload_v3" where
  "example_block_payload b =
     \<lparr>v3_payload_inner = \<lparr>v2_payload_inner =
        (v2_payload_inner (v3_payload_inner (example_payload_v3 (nb_prev_randao (fst b)))))
          \<lparr>pl_timestamp := nb_timestamp (fst b), pl_transactions := concat (map tx_hashes (snd b))\<rparr>,
        v2_withdrawals = []\<rparr>, v3_blob_gas_used = 0, v3_excess_blob_gas = 0\<rparr>"

definition example_payload_lib :: "(example_block, unit, unit) payload_lib" where
  "example_payload_lib = \<lparr>block_hash = (\<lambda>b. B256_ZERO),
     payload_v3_from_block = (\<lambda>h b. example_block_payload b),
     bundle_empty = \<lparr>bundle_blobs = [], bundle_commitments = [], bundle_proofs = []\<rparr>,
     bundle_from_sidecars = (\<lambda>ss. \<lparr>bundle_blobs = concat (map bs_blobs ss),
       bundle_commitments = concat (map bs_commitments ss), bundle_proofs = concat (map bs_proofs ss)\<rparr>),
     eth_envelope_v4 = (\<lambda>p. Inr ()), eth_envelope_v5 = (\<lambda>p. Inr ()),
     execution_from_block = (\<lambda>h b. (PayloadV3 (example_block_payload b),
       \<lparr>sc_cancun = None, sc_prague = None\<rparr>))\<rparr>"

lemma example_seal_law:
  "seal_law (example_build_lib sc) example_payload_lib fst snd
     (\<lambda>pl. pl_transactions (v2_payload_inner (v3_payload_inner pl)))"
  by (simp add: seal_law_def example_build_lib_def example_payload_lib_def example_block_payload_def
      example_payload_v3_def Let_def)

lemma own_payload_accepted_witness:
  "\<exists>spec p e hs. from_genesis example_spec_lib load_dev_genesis = Inr spec \<and>
     default_load_payload example_spec_lib (example_build_lib (VarEip4844 example_sidecar)) spec
       (default_builder_config (example_build_lib (VarEip4844 example_sidecar))) (example_args 2) =
         Some (Returned (Inr (Better p ()))) \<and>
     try_into_envelope_v3 example_payload_lib p = Some (Inr e) \<and>
     fst (rpc_new_payload_v3 example_inner 5 (execution_payload e) hs B256_ZERO example_api_state) =
       Inr StatusValid"
proof -
  let ?lib = "example_build_lib (VarEip4844 example_sidecar)"
  obtain s where s: "from_genesis example_spec_lib load_dev_genesis = Inr s"
    "\<not> is_active_at_timestamp example_spec_lib s Osaka 2" "compute_load_blob_cap example_spec_lib s 2 = 1024"
    by (rule example_specs)
  then obtain p where p: "default_load_payload example_spec_lib ?lib s (default_builder_config ?lib)
      (example_args 2) = Some (Returned (Inr (Better p ())))"
    using example_run [of example_spec_lib s "VarEip4844 example_sidecar"] by auto
  have "\<not> is_active_at_timestamp example_spec_lib s Osaka (ba_timestamp (lba_inner (arg_attributes (example_args 2))))"
    using s(2) by (simp add: example_args_def example_attributes_def example_try_new_def)
  from own_payload_accepted [OF example_spec_lib_laws s(1) p example_iterator_law example_push_law
      example_blob_tx_law example_seal_law this, of example_validator_lib B256_ZERO example_inner 5 example_api_state]
  obtain e hs where e: "try_into_envelope_v3 example_payload_lib p = Some (Inr e)"
    "rpc_new_payload_v3 example_inner 5 (execution_payload e) hs B256_ZERO example_api_state =
       metered record_new_payload 5 (new_payload_v3_metered example_inner
         (data_v3 (execution_payload e) hs B256_ZERO)) example_api_state"
    by blast
  have "fst (rpc_new_payload_v3 example_inner 5 (execution_payload e) hs B256_ZERO example_api_state) =
      Inr StatusValid"
    unfolding e(2) by (simp add: metered_def forward_def example_inner_def)
  with s(1) p e(1) show ?thesis by blast
qed


subsection \<open>Replaying a payload\<close>

text \<open>A block builder reached from \<open>b0\<close> by what the payload builder does to it.\<close>

inductive derived :: "('it, 'b, 'blk, 'x, 'r, 'p) build_lib \<Rightarrow> 'b \<Rightarrow> 'b \<Rightarrow> bool"
  for lib :: "('it, 'b, 'blk, 'x, 'r, 'p) build_lib" and b0 :: 'b where
  fresh: "derived lib b0 b0"
| pre_execution: "derived lib b0 b \<Longrightarrow> apply_pre_execution_changes lib b = Inr b' \<Longrightarrow> derived lib b0 b'"
| executed: "derived lib b0 b \<Longrightarrow> execute_transaction lib tx b = (r, b') \<Longrightarrow> derived lib b0 b'"

interpretation derivations: block_builder_invariant lib "\<lambda>b incs. derived lib b0 b"
  by unfold_locales (auto intro: derived.executed)

text \<open>
  Documented of the upstream configuration: gas limit, base fee and excess blob gas of a sealed
  block are those of the environment it was started with, and the environment of a payload takes
  them from the block. Nothing is assumed of the blob price and of the limits upstream chooses.
\<close>

definition same_block_basis :: "evm_env \<Rightarrow> evm_env \<Rightarrow> bool" where
  "same_block_basis e1 e2 \<longleftrightarrow>
     be_gas_limit (env_block e1) = be_gas_limit (env_block e2) \<and>
     be_basefee (env_block e1) = be_basefee (env_block e2) \<and>
     map_option excess_blob_gas (be_blob_excess_gas_and_price (env_block e1)) =
       map_option excess_blob_gas (be_blob_excess_gas_and_price (env_block e2))"

definition replay_law ::
  "('c, 'y) upstream_evm \<Rightarrow> ('it, 'b, 'blk, 'x, 'r, 'p) build_lib \<Rightarrow> ('blk, 'v4, 'v5) payload_lib \<Rightarrow> bool" where
  "replay_law up lib plib \<longleftrightarrow>
     (\<forall>reads p h a b0 b provider blk reqs reads' env hs root.
        builder_for_next_block lib reads p h a = Inr b0 \<longrightarrow> derived lib b0 b \<longrightarrow>
        finish_block lib b provider = Inr (blk, reqs, reads') \<longrightarrow> up_next_evm_env up h a = Inr env \<longrightarrow>
        (\<exists>env'. up_evm_env_for_payload up (led_inner
             (data_v3 (payload_v3_from_block plib (block_hash plib blk) blk) hs root)) = Inr env' \<and>
           same_block_basis env env'))"

text \<open>Enforcement depends on upstream's environment only through these three values.\<close>

lemma enforce_same_basis:
  assumes "same_block_basis e1 e2"
  shows "enforce_load_blob_env lib blib self ts e1 = enforce_load_blob_env lib blib self ts e2"
proof -
  obtain c1 b1 where e1: "e1 = \<lparr>env_cfg = c1, env_block = b1\<rparr>" by (cases e1)
  obtain c2 b2 where e2: "e2 = \<lparr>env_cfg = c2, env_block = b2\<rparr>" by (cases e2)
  obtain l1 f1 x1 where b1: "b1 = \<lparr>be_gas_limit = l1, be_basefee = f1, be_blob_excess_gas_and_price = x1\<rparr>"
    by (cases b1)
  obtain l2 f2 x2 where b2: "b2 = \<lparr>be_gas_limit = l2, be_basefee = f2, be_blob_excess_gas_and_price = x2\<rparr>"
    by (cases b2)
  note [simp] = e1 e2 b1 b2
  have basis: "l1 = l2" "f1 = f2" "map_option excess_blob_gas x1 = map_option excess_blob_gas x2"
    using assms by (simp_all add: same_block_basis_def)
  show ?thesis
  proof (cases x1)
    case None
    with basis show ?thesis
      by (cases c1; cases c2) (simp add: enforce_load_blob_env_def Let_def)
  next
    case (Some y1)
    with basis obtain y2 where x2: "x2 = Some y2" "excess_blob_gas y1 = excess_blob_gas y2"
      by (cases x2) auto
    with Some basis show ?thesis
      by (cases c1; cases c2; cases y1; cases y2) (simp add: enforce_load_blob_env_def Let_def)
  qed
qed

text \<open>C9. A node re-executes its own payload as it built it: the environment the Load EVM makes for the
  V3 payload of a better payload, sent back with any versioned hashes and any beacon root, is
  the very environment (blob limits, clamped excess, blob price, gas limit, base fee) it made
  for the attributes, in which every included transaction was executed when its fee was counted;
  whatever blob limits and prices upstream computes for the two.\<close>

theorem payload_replayed_in_build_environment:
  assumes "default_load_payload slib lib spec conf args = Some (Returned (Inr (Better p reads)))"
    and "\<And>b. iterator_law lib (be_gas_limit (builder_block_env lib b))"
    and "block_env_law lib" and "next_env_law slib blib evm lib"
    and "seal_law lib plib made_for txs_of hashes_of" and "replay_law (evm_inner evm) lib plib"
  shows "\<exists>env incs.
    next_evm_env slib blib evm (arg_parent_header args)
      (next_env_attributes lib conf spec (arg_parent_header args) (lba_inner (arg_attributes args))) = Inr env \<and>
    evm_env_for_payload slib blib evm (data_v3 (payload_v3_from_block plib
      (block_hash plib (bp_block (lbp_inner p))) (bp_block (lbp_inner p))) hs root) = Inr env \<and>
    (\<forall>i \<in> set incs. executed_in lib (env_block env) i) \<and> unat (bp_fees (lbp_inner p)) = fee_sum incs"
proof -
  let ?attrs = "next_env_attributes lib conf spec (arg_parent_header args) (lba_inner (arg_attributes args))"
  let ?blk = "bp_block (lbp_inner p)"
  let ?data = "data_v3 (payload_v3_from_block plib (block_hash plib ?blk) ?blk) hs root"
  obtain b provider st where run: "loop_run slib lib spec conf args b provider st"
    and fin: "finish_payload slib lib spec (arg_attributes args) (arg_best_payload args)
       (is_active_at_timestamp slib spec Osaka (ba_timestamp (lba_inner (arg_attributes args))))
       provider st = Inr (Better p reads)"
    by (rule default_load_payload_finished [OF assms(1)]) simp
  note new = loop_run_prepared [OF run]
  have "derived lib b (block_builder st)"
    by (rule block_builder_invariant_run [OF derivations.block_builder_invariant_axioms run])
      (blast intro: derived.intros)
  moreover obtain reqs where "finish_block lib (block_builder st) provider = Inr (?blk, reqs, reads)"
    using fin by (auto simp: finish_payload_Better)
  moreover obtain env where env: "next_evm_env slib blib evm (arg_parent_header args) ?attrs = Inr env"
    "builder_block_env lib b = env_block env"
    using assms(4) new unfolding next_env_law_def by blast
  then obtain up where up: "up_next_evm_env (evm_inner evm) (arg_parent_header args) ?attrs = Inr up"
    "env = enforce_load_blob_env slib blib evm (nb_timestamp ?attrs) up"
    by (auto simp: next_evm_env_def rbind_eq_Inr)
  ultimately obtain up' where up': "up_evm_env_for_payload (evm_inner evm) (led_inner ?data) = Inr up'"
    "same_block_basis up up'"
    using assms(6) new unfolding replay_law_def by blast
  have "data_timestamp ?data = nb_timestamp ?attrs"
    by (rule better_payload_block [OF assms(1,5)]) (simp add: data_defs next_env_attributes_def)
  with up' up(2) have "evm_env_for_payload slib blib evm ?data = Inr env"
    by (simp add: evm_env_for_payload_def eth_evm_env_for_payload_def enforce_same_basis [OF up'(2)])
  moreover have "unat (bp_fees (lbp_inner p)) = fee_sum (included st)"
    using loop_run_invariants(2) [OF run assms(2)] fin by (auto simp: accounts_inv_def finish_payload_Better)
  ultimately show ?thesis using env loop_run_env(2) [OF run assms(3)]
    by (intro exI [of _ env] exI [of _ "included st"]) (simp add: list_all_iff)
qed


text \<open>An upstream configuration that prices the two environments differently.\<close>

definition example_replay_evm :: "(u64, unit) load_evm_config" where
  "example_replay_evm = \<lparr>evm_inner = (evm_inner example_next_evm)
     \<lparr>up_evm_env_for_payload := (\<lambda>d. Inr \<lparr>env_cfg = \<lparr>cfg_max_blobs_per_tx = Some 6,
          cfg_blob_base_fee_update_fraction = Some 3338477\<rparr>,
        env_block = \<lparr>be_gas_limit = 2000000000, be_basefee = 7,
          be_blob_excess_gas_and_price = Some \<lparr>excess_blob_gas = 0, blob_gasprice = 2\<rparr>\<rparr>\<rparr>)\<rparr>\<rparr>"

lemma example_replay_evm_next:
  "next_evm_env slib blib example_replay_evm h a = next_evm_env slib blib example_next_evm h a"
proof -
  have "up_next_evm_env (evm_inner example_replay_evm) = up_next_evm_env (evm_inner example_next_evm)"
    "up_chain_spec (evm_inner example_replay_evm) = up_chain_spec (evm_inner example_next_evm)"
    by (simp_all add: example_replay_evm_def)
  then show ?thesis
    unfolding next_evm_env_def enforce_load_blob_env_def load_blob_params_at_def by (simp only:)
qed

lemma example_replay_law:
  "replay_law (evm_inner example_replay_evm) (example_build_lib sc) plib"
  by (auto simp: replay_law_def same_block_basis_def example_replay_evm_def example_next_evm_def example_next_env_def)

theorem payload_replayed_in_build_environment_witness:
  "\<exists>spec p env. from_genesis example_spec_lib load_dev_genesis = Inr spec \<and>
     default_load_payload example_spec_lib (example_build_lib (VarEip4844 example_sidecar)) spec
       (default_builder_config (example_build_lib (VarEip4844 example_sidecar))) (example_args 2) =
         Some (Returned (Inr (Better p ()))) \<and>
     evm_env_for_payload example_spec_lib example_blob_lib example_replay_evm
       (data_v3 (example_block_payload (bp_block (lbp_inner p))) [] B256_ZERO) = Inr env \<and>
     cfg_max_blobs_per_tx (env_cfg env) = Some 32"
proof -
  let ?lib = "example_build_lib (VarEip4844 example_sidecar)"
  obtain s where s: "from_genesis example_spec_lib load_dev_genesis = Inr s"
    "\<not> is_active_at_timestamp example_spec_lib s Osaka 2" "compute_load_blob_cap example_spec_lib s 2 = 1024"
    by (rule example_specs)
  then obtain p where p: "default_load_payload example_spec_lib ?lib s (default_builder_config ?lib)
      (example_args 2) = Some (Returned (Inr (Better p ())))"
    using example_run [of example_spec_lib s "VarEip4844 example_sidecar"] by auto
  have "next_env_law example_spec_lib example_blob_lib example_replay_evm ?lib"
    using example_next_env_law unfolding next_env_law_def example_replay_evm_next .
  from payload_replayed_in_build_environment [OF p example_iterator_law example_block_env_law this
      example_seal_law example_replay_law, of "[]" B256_ZERO]
  obtain env where env: "evm_env_for_payload example_spec_lib example_blob_lib example_replay_evm
      (data_v3 (example_block_payload (bp_block (lbp_inner p))) [] B256_ZERO) = Inr env"
    by (auto simp: example_payload_lib_def)
  from payload_env.blobs_per_tx [OF this] s(1) p env show ?thesis by blast
qed

subsection \<open>Repeated builds\<close>

text \<open>
  The payload job runs \<open>try_build\<close> for the same attributes as often as it likes and passes the best
  payload so far. Between two attempts the pool and the state may change, so each attempt may
  use another library of a set; what the attempts read from a cache and when they are cancelled
  is arbitrary.
\<close>

fun best_after ::
  "'blk load_built_payload option \<Rightarrow> 'x payload_builder_error + ('blk, 'r) build_outcome \<Rightarrow>
   'blk load_built_payload option" where
  "best_after best (Inl e) = best"
| "best_after best (Inr outcome) = (case into_payload outcome of Some p \<Rightarrow> Some p | None \<Rightarrow> best)"

inductive build_attempt ::
  "'c spec_lib \<Rightarrow> ('it, 'b, 'blk, 'x, 'r, 'p) build_lib set \<Rightarrow> 'c load_chain_spec \<Rightarrow> eth_builder_config \<Rightarrow>
   header \<Rightarrow> load_payload_builder_attributes \<Rightarrow> 'blk load_built_payload option \<Rightarrow>
   'blk load_built_payload option \<Rightarrow> bool"
  for slib :: "'c spec_lib" and libs :: "('it, 'b, 'blk, 'x, 'r, 'p) build_lib set" and spec :: "'c load_chain_spec"
    and conf :: eth_builder_config and parent :: header and attrs :: load_payload_builder_attributes where
  attempt: "lib \<in> libs \<Longrightarrow>
    try_build slib lib spec conf \<lparr>arg_cached_reads = reads, arg_parent_header = parent,
      arg_attributes = attrs, arg_is_cancelled = mark, arg_best_payload = best\<rparr> = Some (Returned r) \<Longrightarrow>
    build_attempt slib libs spec conf parent attrs best (best_after best r)"

definition job_laws ::
  "('it, 'b, 'blk, 'x, 'r, 'p) build_lib set \<Rightarrow> ('blk, 'v4, 'v5) payload_lib \<Rightarrow>
   ('b \<Rightarrow> next_block_attributes) \<Rightarrow> ('b \<Rightarrow> eth_tx list) \<Rightarrow> (payload_v3 \<Rightarrow> b256 list) \<Rightarrow> bool" where
  "job_laws libs plib made_for txs_of hashes_of \<longleftrightarrow> (\<forall>lib \<in> libs.
     (\<forall>b. iterator_law lib (be_gas_limit (builder_block_env lib b))) \<and> push_law lib \<and> blob_tx_law lib \<and>
     better_law lib \<and> seal_law lib plib made_for txs_of hashes_of)"

text \<open>What the engine can make of a payload: the V3 envelope of the attributes it was built for.\<close>

definition handed_out ::
  "('blk, 'v4, 'v5) payload_lib \<Rightarrow> (payload_v3 \<Rightarrow> b256 list) \<Rightarrow> load_payload_builder_attributes \<Rightarrow>
   'blk load_built_payload \<Rightarrow> envelope_v3 \<Rightarrow> bool" where
  "handed_out plib hashes_of attrs p e \<longleftrightarrow>
     try_into_envelope_v3 plib p = Some (Inr e) \<and> block_value e = bp_fees (lbp_inner p) \<and>
     envelope_blobs_bundle e = (case bp_sidecars (lbp_inner p) of
       SidecarsEip4844 ss \<Rightarrow> bundle_from_sidecars plib ss | _ \<Rightarrow> bundle_empty plib) \<and>
     pl_timestamp (v2_payload_inner (v3_payload_inner (execution_payload e))) = builder_timestamp attrs \<and>
     payload_v3_prev_randao (execution_payload e) = LOAD_PREVRANDAO \<and>
     length (hashes_of (execution_payload e)) \<le> 1024 \<and> bp_id (lbp_inner p) = builder_payload_id attrs"

text \<open>What an attempt that returns a better payload gives.\<close>

lemma better_handed_out:
  assumes run: "try_build slib lib spec conf args = Some (Returned (Inr (Better p reads)))"
    and laws: "job_laws libs plib made_for txs_of hashes_of" "lib \<in> libs"
    and "\<not> is_active_at_timestamp slib spec Osaka (builder_timestamp (arg_attributes args))"
  shows "\<exists>e. handed_out plib hashes_of (arg_attributes args) p e"
    and "\<forall>q. arg_best_payload args = Some q \<longrightarrow> bp_fees (lbp_inner q) < bp_fees (lbp_inner p)"
proof -
  note run = run [unfolded try_build_def]
  have l: "\<And>b. iterator_law lib (be_gas_limit (builder_block_env lib b))" "push_law lib" "blob_tx_law lib"
    "better_law lib" "seal_law lib plib made_for txs_of hashes_of"
    using laws by (auto simp: job_laws_def)
  have osaka: "\<not> is_active_at_timestamp slib spec Osaka (ba_timestamp (lba_inner (arg_attributes args)))"
    using assms(4) by (simp add: builder_timestamp_def)
  let ?blk = "bp_block (lbp_inner p)"
  let ?pl = "payload_v3_from_block plib (block_hash plib ?blk) ?blk"
  obtain e where e: "try_into_envelope_v3 plib p = Some (Inr e)" "execution_payload e = ?pl"
    "block_value e = bp_fees (lbp_inner p)" "envelope_blobs_bundle e = (case bp_sidecars (lbp_inner p) of
       SidecarsEip4844 ss \<Rightarrow> bundle_from_sidecars plib ss | _ \<Rightarrow> bundle_empty plib)"
    using try_into_envelope_v3_payload [OF better_payload_passes_guard [OF run l(1-3) osaka], of plib] by blast
  have out: "final_outcome slib lib spec args (Inr (Better p reads))"
    using run by (cases rule: default_load_payload_cases) auto
  obtain b provider st where st: "loop_run slib lib spec conf args b provider st"
    and sealed: "payload_v3_prev_randao ?pl = ba_prev_randao (lba_inner (arg_attributes args))"
      "pl_timestamp (v2_payload_inner (v3_payload_inner ?pl)) = ba_timestamp (lba_inner (arg_attributes args))"
      "hashes_of ?pl = concat (map (\<lambda>i. tx_hashes (pt_consensus (inc_tx i))) (included st))"
    unfolding payload_v3_prev_randao_def by (rule better_payload_block [OF run l(5)])
  have "length (hashes_of ?pl) \<le> 1024"
    using loop_run_blobs [OF st l(1)] by (simp add: sealed hashes_length)
  with e out sealed loop_run_validated [OF st] show "\<exists>e. handed_out plib hashes_of (arg_attributes args) p e"
    by (intro exI [of _ e])
      (simp add: handed_out_def builder_timestamp_def builder_payload_id_def validate_payload_attributes_ok)
  from out l(4) show "\<forall>q. arg_best_payload args = Some q \<longrightarrow> bp_fees (lbp_inner q) < bp_fees (lbp_inner p)"
    by (auto simp: better_law_def)
qed

lemma attempt_cases:
  assumes "build_attempt slib libs spec conf parent attrs best best'"
    and "job_laws libs plib made_for txs_of hashes_of"
    and "\<not> is_active_at_timestamp slib spec Osaka (builder_timestamp attrs)"
  obtains "best' = best"
  | p e where "best' = Some p" and "handed_out plib hashes_of attrs p e"
      and "\<forall>q. best = Some q \<longrightarrow> bp_fees (lbp_inner q) < bp_fees (lbp_inner p)"
  using assms(1)
proof cases
  case (attempt lib reads mark r)
  let ?args = "\<lparr>arg_cached_reads = reads, arg_parent_header = parent, arg_attributes = attrs,
    arg_is_cancelled = mark, arg_best_payload = best\<rparr>"
  have "(\<exists>p reads. r = Inr (Better p reads)) \<or> best_after best r = best"
  proof (cases r)
    case (Inr outcome)
    have "outcome \<noteq> Freeze p" for p
      using attempt(3) Inr unfolding try_build_def by (cases rule: default_load_payload_cases) auto
    with Inr show ?thesis by (cases outcome) auto
  qed simp
  then show thesis
  proof (elim disjE exE)
    fix p reads' assume r: "r = Inr (Better p reads')"
    note b = better_handed_out [OF attempt(3) [unfolded r] assms(2) attempt(2)]
    from b assms(3) obtain e where "handed_out plib hashes_of attrs p e" by auto
    with b(2) assms(3) attempt(1) r show thesis by (intro that(2) [of p e]) simp_all
  qed (use attempt that in simp)
qed

abbreviation "build_attempts slib libs spec conf parent attrs \<equiv> (build_attempt slib libs spec conf parent attrs)\<^sup>*\<^sup>*"

lemma attempts_handed_out:
  assumes "build_attempts slib libs spec conf parent attrs None best"
    and "job_laws libs plib made_for txs_of hashes_of"
    and "\<not> is_active_at_timestamp slib spec Osaka (builder_timestamp attrs)"
  shows "best = Some p \<Longrightarrow> \<exists>e. handed_out plib hashes_of attrs p e"
  using assms(1)
proof (induction arbitrary: p rule: rtranclp_induct)
  case (step best best')
  from attempt_cases [OF step(2) assms(2,3)] step show ?case by (metis option.inject)
qed simp

lemma attempts_improve:
  assumes "build_attempts slib libs spec conf parent attrs (Some p) best"
    and "job_laws libs plib made_for txs_of hashes_of"
    and "\<not> is_active_at_timestamp slib spec Osaka (builder_timestamp attrs)"
  shows "\<exists>q. best = Some q \<and> (q = p \<or> bp_fees (lbp_inner p) < bp_fees (lbp_inner q))"
  using assms(1)
proof (induction rule: rtranclp_induct)
  case (step best best')
  then obtain q where q: "best = Some q" "q = p \<or> bp_fees (lbp_inner p) < bp_fees (lbp_inner q)" by blast
  show ?case
  proof (rule attempt_cases [OF step(2) assms(2,3)])
    fix q' e assume "best' = Some q'"
      and "\<forall>r. best = Some r \<longrightarrow> bp_fees (lbp_inner r) < bp_fees (lbp_inner q')"
    with q show ?thesis by (auto intro: less_trans)
  qed (use q in blast)
qed simp


text \<open>A payload that is handed out is accepted when it comes back.\<close>

lemma handed_out_accepted:
  fixes api :: "('s, 'x, 'env, 'k, 'c) inner_api"
  assumes "spec_lib_laws slib" and "from_genesis slib g = Inr spec" and "handed_out plib hashes_of attrs p e"
  shows "load_payload_ok slib vlib spec (data_v3 (execution_payload e) (hashes_of (execution_payload e)) root)"
    and "rpc_new_payload_v3 api d (execution_payload e) (hashes_of (execution_payload e)) root st =
      metered record_new_payload d (new_payload_v3_metered api
        (data_v3 (execution_payload e) (hashes_of (execution_payload e)) root)) st"
proof -
  let ?pl = "execution_payload e"
  have ok: "length (hashes_of ?pl) \<le> 1024" "payload_v3_prev_randao ?pl = LOAD_PREVRANDAO"
    using assms(3) by (simp_all add: handed_out_def)
  then show "load_payload_ok slib vlib spec (data_v3 ?pl (hashes_of ?pl) root)"
    by (simp add: load_payload_ok_from_genesis [OF assms(1,2)] payload_v3_prev_randao_def data_defs)
  show "rpc_new_payload_v3 api d ?pl (hashes_of ?pl) root st =
      metered record_new_payload d (new_payload_v3_metered api (data_v3 ?pl (hashes_of ?pl) root)) st"
    using new_payload_v3.passed [of "(?pl, hashes_of ?pl, root)" "()" api d st] ok
    by (simp add: new_payload_guard_ok)
qed

text \<open>C4. From a forkchoice update to the payload: before Osaka, whatever sequence of builds (finished, aborted,
  cancelled or failed, over a changing pool) follows the attributes of an update, a best payload
  is never lost and only replaced by one of strictly higher value. At every moment
  \<open>engine_getPayloadV3\<close> can convert it, to an envelope with its fees and its sidecars,
  for the id, the timestamp and the PREVRANDAO of the update, and \<open>engine_newPayloadV3\<close> and the validator accept
  it with its versioned hashes.\<close>

theorem forkchoice_to_payload:
  fixes api :: "('s, 'x, 'env, 'k, 'c) inner_api"
  assumes "spec_lib_laws slib" and "from_genesis slib g = Inr spec"
    and "try_new_law eth_new" and "try_new eth_new (hd_hash parent) a v = Inr attrs"
    and "job_laws libs plib made_for txs_of hashes_of"
    and "\<not> is_active_at_timestamp slib spec Osaka (attributes_timestamp a)"
    and "build_attempts slib libs spec conf parent attrs None (Some p)"
    and "build_attempts slib libs spec conf parent attrs (Some p) best"
  shows "\<exists>q e f. best = Some q \<and> handed_out plib hashes_of attrs p e \<and> handed_out plib hashes_of attrs q f \<and>
    (q = p \<or> block_value e < block_value f) \<and>
    pl_timestamp (v2_payload_inner (v3_payload_inner (execution_payload f))) = attributes_timestamp a \<and>
    payload_v3_prev_randao (execution_payload f) = attributes_prev_randao a \<and>
    load_payload_ok slib vlib spec (data_v3 (execution_payload f) (hashes_of (execution_payload f)) root) \<and>
    rpc_new_payload_v3 api d (execution_payload f) (hashes_of (execution_payload f)) root st =
      metered record_new_payload d (new_payload_v3_metered api
        (data_v3 (execution_payload f) (hashes_of (execution_payload f)) root)) st"
proof -
  have ts: "builder_timestamp attrs = attributes_timestamp a"
    by (rule accepted_attributes(2) [OF assms(3,4)])
  have randao: "attributes_prev_randao a = LOAD_PREVRANDAO"
    using assms(3,4) by (simp add: try_new_ok try_new_law_def attributes_prev_randao_def)
  note osaka = assms(6) [folded ts]
  obtain q where q: "best = Some q" "q = p \<or> bp_fees (lbp_inner p) < bp_fees (lbp_inner q)"
    using attempts_improve [OF assms(8,5) osaka] by blast
  have all: "build_attempts slib libs spec conf parent attrs None best"
    by (rule rtranclp_trans [OF assms(7,8)])
  obtain e where e: "handed_out plib hashes_of attrs p e"
    using attempts_handed_out [OF assms(7,5) osaka refl] by blast
  obtain f where f: "handed_out plib hashes_of attrs q f"
    using attempts_handed_out [OF all assms(5) osaka q(1)] by blast
  from e f q ts randao handed_out_accepted [OF assms(1,2) f] show ?thesis
    by (intro exI [of _ q] exI [of _ e] exI [of _ f]) (auto simp: handed_out_def)
qed

theorem forkchoice_to_payload_witness:
  "\<exists>spec p f. from_genesis example_spec_lib load_dev_genesis = Inr spec \<and>
     build_attempts example_spec_lib {example_build_lib (VarEip4844 example_sidecar)} spec
       (default_builder_config (example_build_lib (VarEip4844 example_sidecar)))
       (arg_parent_header (example_args 2)) (arg_attributes (example_args 2)) None (Some p) \<and>
     try_into_envelope_v3 example_payload_lib p = Some (Inr f) \<and> block_value f = 42000 \<and>
     pl_timestamp (v2_payload_inner (v3_payload_inner (execution_payload f))) = 2"
proof -
  let ?lib = "example_build_lib (VarEip4844 example_sidecar)"
  let ?conf = "default_builder_config ?lib"
  let ?parent = "arg_parent_header (example_args 2)"
  let ?attrs = "arg_attributes (example_args 2)"
  obtain s where s: "from_genesis example_spec_lib load_dev_genesis = Inr s"
    "\<not> is_active_at_timestamp example_spec_lib s Osaka 2" "compute_load_blob_cap example_spec_lib s 2 = 1024"
    by (rule example_specs)
  then obtain p where p: "default_load_payload example_spec_lib ?lib s ?conf (example_args 2) =
      Some (Returned (Inr (Better p ())))" "bp_fees (lbp_inner p) = 42000"
    using example_run [of example_spec_lib s "VarEip4844 example_sidecar"] by auto
  have args: "example_args 2 = \<lparr>arg_cached_reads = (), arg_parent_header = ?parent, arg_attributes = ?attrs,
      arg_is_cancelled = (\<lambda>_. False), arg_best_payload = None\<rparr>"
    by (simp add: example_args_def)
  have "try_build example_spec_lib ?lib s ?conf \<lparr>arg_cached_reads = (), arg_parent_header = ?parent,
      arg_attributes = ?attrs, arg_is_cancelled = (\<lambda>_. False), arg_best_payload = None\<rparr> =
    Some (Returned (Inr (Better p ())))"
    unfolding try_build_def args [symmetric] by (rule p(1))
  then have "build_attempt example_spec_lib {?lib} s ?conf ?parent ?attrs None
      (best_after None (Inr (Better p ()) :: unit payload_builder_error + (example_block, unit) build_outcome))"
    by (intro build_attempt.attempt [where lib = ?lib]) simp_all
  then have run: "build_attempts example_spec_lib {?lib} s ?conf ?parent ?attrs None (Some p)" by auto
  have laws: "job_laws {?lib} example_payload_lib fst snd
      (\<lambda>pl. pl_transactions (v2_payload_inner (v3_payload_inner pl)))"
    using example_iterator_law example_push_law example_blob_tx_law example_better_law example_seal_law
    by (simp add: job_laws_def)
  have new: "try_new example_try_new (hd_hash ?parent) (example_attributes 2 LOAD_PREVRANDAO) 3 = Inr ?attrs"
    by (simp add: try_new_ok example_args_def example_attributes_def example_try_new_def)
  have osaka: "\<not> is_active_at_timestamp example_spec_lib s Osaka
      (attributes_timestamp (example_attributes 2 LOAD_PREVRANDAO))"
    using s(2) by (simp add: attributes_timestamp_def example_attributes_def)
  from forkchoice_to_payload [OF example_spec_lib_laws s(1) example_try_new_law new laws osaka run
      rtranclp.rtrancl_refl, of example_validator_lib B256_ZERO example_inner 5 example_api_state]
  obtain f where "try_into_envelope_v3 example_payload_lib p = Some (Inr f)" "block_value f = 42000"
    "pl_timestamp (v2_payload_inner (v3_payload_inner (execution_payload f))) = 2"
    using p(2) by (auto simp: handed_out_def attributes_timestamp_def example_attributes_def)
  with s(1) run show ?thesis by blast
qed

end
