(* ===== verification/Builder_Selection.thy ===== *)
theory Builder_Selection
  imports Payload_Cycle
begin

section \<open>Which transactions a build selects (\<open>src/engine/builder.rs\<close>)\<close>

text \<open>
  The limits of a payload say what the selection loop must not take; this theory says what it does take.
  The specification has no counters: a run is the list of the transactions the pool offered,
  each with the ruling on it, and every ruling is computed from the transactions taken before, in
  unbounded arithmetic. The loop of the code, with its counters of machine width, is shown to be
  exactly this selection, and the selection to leave nothing out that has room, a sidecar of the
  right kind and an execution the EVM accepts.
\<close>

subsection \<open>The specification\<close>

datatype ruling =
    Taken included_tx
  | Refused invalid_pool_error
  | StaleNonce

type_synonym ruled = "pool_tx \<times> ruling"

fun taken_by :: "ruling \<Rightarrow> included_tx list" where
  "taken_by (Taken inc) = [inc]"
| "taken_by r = []"

definition taken :: "ruled list \<Rightarrow> included_tx list" where
  "taken seen = concat (map (\<lambda>x. taken_by (snd x)) seen)"

lemma taken_simps [simp]:
  "taken [] = []" "taken (seen @ later) = taken seen @ taken later" "taken ((ptx, r) # later) = taken_by r @ taken later"
  by (simp_all add: taken_def)

text \<open>Room for a transaction next to those taken: gas, blobs and, after Osaka, RLP size.\<close>

definition tx_blobs :: "eth_tx \<Rightarrow> nat" where
  "tx_blobs tx = length (tx_hashes tx)"

definition blob_sum :: "included_tx list \<Rightarrow> nat" where
  "blob_sum incs = sum_list (map blobs_of incs)"

definition gas_fits :: "build_ctx \<Rightarrow> included_tx list \<Rightarrow> pool_tx \<Rightarrow> bool" where
  "gas_fits ctx chosen ptx \<longleftrightarrow> gas_sum chosen + unat (pt_gas_limit ptx) \<le> unat (block_gas_limit ctx)"

definition size_with ::
  "('it, 'b, 'blk, 'x, 'r, 'p) build_lib \<Rightarrow> build_ctx \<Rightarrow> included_tx list \<Rightarrow> pool_tx \<Rightarrow> nat" where
  "size_with lib ctx chosen ptx = rlp_sum chosen + unat (tx_rlp_length (pt_consensus ptx)) +
     unat (withdrawals_length lib (ctx_withdrawals ctx)) + 1024"

definition size_fits ::
  "('it, 'b, 'blk, 'x, 'r, 'p) build_lib \<Rightarrow> build_ctx \<Rightarrow> included_tx list \<Rightarrow> pool_tx \<Rightarrow> bool" where
  "size_fits lib ctx chosen ptx \<longleftrightarrow>
     \<not> is_osaka ctx \<or> size_with lib ctx chosen ptx \<le> unat (MAX_RLP_BLOCK_SIZE lib)"

definition is_blob_tx :: "pool_tx \<Rightarrow> bool" where
  "is_blob_tx ptx \<longleftrightarrow> tx_blob_hashes (pt_consensus ptx) \<noteq> None"

definition blobs_fit :: "build_ctx \<Rightarrow> included_tx list \<Rightarrow> pool_tx \<Rightarrow> bool" where
  "blobs_fit ctx chosen ptx \<longleftrightarrow>
     \<not> is_blob_tx ptx \<or> blob_sum chosen + tx_blobs (pt_consensus ptx) \<le> unat (ctx_max_blob_count ctx)"

text \<open>The sidecar a transaction needs: none, or the stored one when it is of the kind of the fork. The
  outer result is the failure of the blob store.\<close>

definition needed_sidecar ::
  "('it, 'b, 'blk, 'x, 'r, 'p) build_lib \<Rightarrow> build_ctx \<Rightarrow> nat \<Rightarrow> pool_tx \<Rightarrow>
   'x + (eip4844_pool_error + sidecar_variant option)" where
  "needed_sidecar lib ctx i ptx =
     (if \<not> is_blob_tx ptx then Inr (Inr None)
      else case get_blob lib i (tx_hash (pt_consensus ptx)) of
             Inl e \<Rightarrow> Inl e
           | Inr None \<Rightarrow> Inr (Inl MissingEip4844BlobSidecar)
           | Inr (Some s) \<Rightarrow> Inr (if is_eip7594 s = is_osaka ctx then Inr (Some s)
               else if is_osaka ctx then Inl UnexpectedEip4844SidecarAfterOsaka
               else Inl UnexpectedEip7594SidecarBeforeOsaka))"

text \<open>What the EVM and the tip make of a transaction that has room and its sidecar.\<close>

definition executed ::
  "('it, 'b, 'blk, 'x, 'r, 'p) build_lib \<Rightarrow> build_ctx \<Rightarrow> 'b \<Rightarrow> pool_tx \<Rightarrow> sidecar_variant option \<Rightarrow>
   ('x loop_stop + ruling) \<times> 'b" where
  "executed lib ctx b ptx sc =
     (case execute_transaction lib (pt_consensus ptx) b of (r, b') \<Rightarrow>
        (case r of
           Inr gas \<Rightarrow> (case effective_tip_per_gas lib (pt_consensus ptx) (base_fee ctx) of
               None \<Rightarrow> Inl LoopPanic
             | Some tip \<Rightarrow> Inr (Taken \<lparr>inc_tx = ptx, inc_gas_used = gas, inc_tip = tip, inc_sidecar = sc\<rparr>))
         | Inl (InvalidTx stale) \<Rightarrow> Inr (if stale then StaleNonce else Refused TxTypeNotSupported)
         | Inl (OtherExecution e) \<Rightarrow> Inl (LoopError (EvmError (OtherExecution e))), b'))"

definition rule_on ::
  "('it, 'b, 'blk, 'x, 'r, 'p) build_lib \<Rightarrow> build_ctx \<Rightarrow> 'b \<Rightarrow> ruled list \<Rightarrow> pool_tx \<Rightarrow>
   ('x loop_stop + ruling) \<times> 'b" where
  "rule_on lib ctx b seen ptx =
     (if \<not> gas_fits ctx (taken seen) ptx
      then (Inr (Refused (ExceedsGasLimit (pt_gas_limit ptx) (block_gas_limit ctx))), b)
      else if is_cancelled ctx (Suc (length seen)) then (Inl LoopCancelled, b)
      else if \<not> size_fits lib ctx (taken seen) ptx
      then (Inr (Refused (OversizedData (of_nat (size_with lib ctx (taken seen) ptx)) (MAX_RLP_BLOCK_SIZE lib))), b)
      else if \<not> blobs_fit ctx (taken seen) ptx
      then (Inr (Refused (Eip4844Invalid (TooManyEip4844Blobs
             (of_nat (blob_sum (taken seen) + tx_blobs (pt_consensus ptx))) (ctx_max_blob_count ctx)))), b)
      else case needed_sidecar lib ctx (Suc (length seen)) ptx of
             Inl e \<Rightarrow> (Inl (LoopError (BlobStoreError e)), b)
           | Inr (Inl err) \<Rightarrow> (Inr (Refused (Eip4844Invalid err)), b)
           | Inr (Inr sc) \<Rightarrow> executed lib ctx b ptx sc)"

text \<open>What the pool is told: refusals, and that no more blobs fit once the cap is reached exactly.\<close>

definition told ::
  "('it, 'b, 'blk, 'x, 'r, 'p) build_lib \<Rightarrow> build_ctx \<Rightarrow> ruled list \<Rightarrow> pool_tx \<Rightarrow> ruling \<Rightarrow> 'it \<Rightarrow> 'it" where
  "told lib ctx seen ptx r it =
     (case r of
        Refused err \<Rightarrow> mark_invalid lib ptx err it
      | Taken inc \<Rightarrow>
          if is_blob_tx ptx \<and> blob_sum (taken seen @ [inc]) = unat (ctx_max_blob_count ctx)
          then skip_blobs lib it else it
      | StaleNonce \<Rightarrow> it)"

datatype ('it, 'b, 'x) selection =
    Selected 'it 'b "ruled list"
  | Halted "'x loop_stop"

partial_function (option) select ::
  "('it, 'b, 'blk, 'x, 'r, 'p) build_lib \<Rightarrow> build_ctx \<Rightarrow> 'it \<Rightarrow> 'b \<Rightarrow> ruled list \<Rightarrow>
   ('it, 'b, 'x) selection option" where
  "select lib ctx it b seen =
     (case best_next lib it of
        None \<Rightarrow> Some (Selected it b seen)
      | Some q \<Rightarrow>
          (case fst (rule_on lib ctx b seen (fst q)) of
             Inl stop \<Rightarrow> Some (Halted stop)
           | Inr r \<Rightarrow> select lib ctx (told lib ctx seen (fst q) r (snd q))
               (snd (rule_on lib ctx b seen (fst q))) (seen @ [(fst q, r)])))"

declare select.simps [code]

subsection \<open>The loop follows the specification\<close>

definition selection_laws :: "('it, 'b, 'blk, 'x, 'r, 'p) build_lib \<Rightarrow> build_ctx \<Rightarrow> bool" where
  "selection_laws lib ctx \<longleftrightarrow> blob_laws lib ctx \<and> size_laws lib ctx"

text \<open>The state of the loop after the transactions \<open>seen\<close>: its counters are the sums over those taken.\<close>

definition follows ::
  "('it, 'b, 'blk, 'x, 'r, 'p) build_lib \<Rightarrow> build_ctx \<Rightarrow> ('it, 'b) build_state \<Rightarrow> 'it \<Rightarrow> 'b \<Rightarrow> ruled list \<Rightarrow> bool" where
  "follows lib ctx st it b seen \<longleftrightarrow>
     best_txs st = it \<and> block_builder st = b \<and> included st = taken seen \<and> iteration st = length seen \<and>
     blob_inv ctx st \<and> accounts_inv ctx st \<and> size_inv lib ctx st"

lemma follows_initial: "follows lib ctx (initial_state it b) it b []"
  by (simp add: follows_def initial_invariants) (simp add: initial_state_def)

lemma gas_guard:
  assumes laws: "selection_laws lib ctx" and "accounts_inv ctx st" and "best_next lib it = Some (ptx, it')"
  shows "block_gas_limit ctx < cumulative_gas_used st + pt_gas_limit ptx \<longleftrightarrow> \<not> gas_fits ctx (included st) ptx"
proof -
  have "unat (block_gas_limit ctx) + unat (pt_gas_limit ptx) < 2 ^ 64"
    using laws iterator_lawD(1) [OF _ assms(3)] by (simp add: selection_laws_def blob_laws_def)
  moreover have "unat (cumulative_gas_used st) \<le> unat (block_gas_limit ctx)"
    using assms(2) by (simp add: accounts_inv_def word_le_nat_alt)
  ultimately have "unat (cumulative_gas_used st + pt_gas_limit ptx) =
      unat (cumulative_gas_used st) + unat (pt_gas_limit ptx)"
    by (intro unat_add_no_overflow) simp
  with assms(2) show ?thesis by (simp add: gas_fits_def accounts_inv_def word_less_nat_alt not_le)
qed

lemma size_guard:
  assumes laws: "selection_laws lib ctx" and "size_inv lib ctx st" and "best_next lib it = Some (ptx, it')" and "is_osaka ctx"
  shows "block_transactions_rlp_length st + tx_rlp_length (pt_consensus ptx) +
      withdrawals_length lib (ctx_withdrawals ctx) + 1024 = of_nat (size_with lib ctx (included st) ptx)"
    and "MAX_RLP_BLOCK_SIZE lib < block_transactions_rlp_length st + tx_rlp_length (pt_consensus ptx) +
      withdrawals_length lib (ctx_withdrawals ctx) + 1024 \<longleftrightarrow> \<not> size_fits lib ctx (included st) ptx"
proof -
  let ?n = "size_with lib ctx (included st) ptx"
  have small: "unat (MAX_RLP_BLOCK_SIZE lib) < 2 ^ 62" "unat (tx_rlp_length (pt_consensus ptx)) < 2 ^ 62"
    "unat (withdrawals_length lib (ctx_withdrawals ctx)) < 2 ^ 62"
    using laws iterator_lawD(2) [OF _ assms(3)] by (auto simp: selection_laws_def size_laws_def small_length_def)
  have len: "unat (block_transactions_rlp_length st) = rlp_sum (included st)" "rlp_sum (included st) < 2 ^ 62"
    using assms(2,4) small by (auto simp: size_inv_def rlp_sum_def)
  have "of_nat (unat (block_transactions_rlp_length st)) = (of_nat (rlp_sum (included st)) :: usize)"
    by (simp only: len(1))
  then show eq: "block_transactions_rlp_length st + tx_rlp_length (pt_consensus ptx) +
      withdrawals_length lib (ctx_withdrawals ctx) + 1024 = of_nat ?n"
    by (simp add: size_with_def)
  have "?n < 2 ^ 64" using small len by (simp add: size_with_def)
  then have "unat (of_nat ?n :: usize) = ?n" by (simp add: unat_of_nat)
  then show "MAX_RLP_BLOCK_SIZE lib < block_transactions_rlp_length st + tx_rlp_length (pt_consensus ptx) +
      withdrawals_length lib (ctx_withdrawals ctx) + 1024 \<longleftrightarrow> \<not> size_fits lib ctx (included st) ptx"
    unfolding eq using assms(4) by (simp add: size_fits_def word_less_nat_alt not_le)
qed

lemma blob_guard:
  assumes laws: "selection_laws lib ctx" and "blob_inv ctx st" and "best_next lib it = Some (ptx, it')" and "tx_blob_hashes (pt_consensus ptx) = Some bh"
  shows "block_blob_count st + vlen bh = of_nat (blob_sum (included st) + tx_blobs (pt_consensus ptx))"
    and "ctx_max_blob_count ctx < block_blob_count st + vlen bh \<longleftrightarrow> \<not> blobs_fit ctx (included st) ptx"
    and "block_blob_count st + vlen bh = ctx_max_blob_count ctx \<longleftrightarrow>
      blob_sum (included st) + tx_blobs (pt_consensus ptx) = unat (ctx_max_blob_count ctx)"
proof -
  let ?n = "blob_sum (included st) + tx_blobs (pt_consensus ptx)"
  have bh: "tx_blobs (pt_consensus ptx) = length bh" "length bh < 2 ^ 62"
    using laws iterator_lawD(3) [OF _ assms(3,4)] assms(4)
    by (auto simp: selection_laws_def blob_laws_def tx_blobs_def tx_hashes_def)
  have count: "unat (block_blob_count st) = blob_sum (included st)" "blob_sum (included st) \<le> 1024"
    using assms(2) laws by (auto simp: blob_inv_def blob_sum_def selection_laws_def blob_laws_def word_le_nat_alt)
  have eq: "unat (block_blob_count st + vlen bh) = ?n"
    using bh count by (subst unat_add_no_overflow) (simp_all add: unat_vlen)
  have "of_nat (unat (block_blob_count st + vlen bh)) = block_blob_count st + vlen bh" by simp
  then show "block_blob_count st + vlen bh = of_nat ?n" by (simp only: eq)
  show "ctx_max_blob_count ctx < block_blob_count st + vlen bh \<longleftrightarrow> \<not> blobs_fit ctx (included st) ptx"
    using assms(4) by (simp only: word_less_nat_alt eq) (simp add: blobs_fit_def is_blob_tx_def not_le)
  show "block_blob_count st + vlen bh = ctx_max_blob_count ctx \<longleftrightarrow> ?n = unat (ctx_max_blob_count ctx)"
    by (simp only: word_unat_eq_iff eq)
qed

lemma select_sidecar_needed:
  "is_blob_tx ptx \<Longrightarrow> needed_sidecar lib ctx i ptx =
     rbind (select_sidecar lib (is_osaka ctx) i (pt_consensus ptx)) (\<lambda>r. Inr (rbind r (\<lambda>s. Inr (Some s))))"
  by (auto simp: needed_sidecar_def select_sidecar_def is_eip4844_iff split: sum.splits option.splits)

text \<open>Execution and bookkeeping, where the guards have passed.\<close>

lemma execute_and_include_executed:
  assumes "selection_laws lib ctx" and "blob_inv ctx st" and "best_next lib it = Some (ptx, it')"
    and "included st = taken seen"
  shows "case executed lib ctx (block_builder st) ptx sc of
      (Inl stop, b') \<Rightarrow> execute_and_include lib ctx ptx sc st = Exit stop
    | (Inr r, b') \<Rightarrow> \<exists>st'. execute_and_include lib ctx ptx sc st = Next st' \<and>
        best_txs st' = told lib ctx seen ptx r (best_txs st) \<and> block_builder st' = b' \<and>
        included st' = included st @ taken_by r \<and> iteration st' = iteration st"
proof -
  obtain e b' where exec: "execute_transaction lib (pt_consensus ptx) (block_builder st) = (e, b')"
    by (cases "execute_transaction lib (pt_consensus ptx) (block_builder st)")
  show ?thesis
  proof (cases e)
    case (Inl err)
    with exec show ?thesis
      by (cases err) (simp_all add: executed_def execute_and_include_def reject_tx_def told_def)
  next
    case (Inr gas)
    show ?thesis
    proof (cases "effective_tip_per_gas lib (pt_consensus ptx) (base_fee ctx)")
      case None
      with exec Inr show ?thesis
        by (simp add: executed_def execute_and_include_def include_transaction_def Let_def)
    next
      case (Some tip)
      have sum: "blob_sum (taken seen @ [\<lparr>inc_tx = ptx, inc_gas_used = gas, inc_tip = tip, inc_sidecar = sc\<rparr>]) =
          blob_sum (taken seen) + tx_blobs (pt_consensus ptx)"
        by (simp add: blob_sum_def blobs_of_def tx_blobs_def tx_hashes_def split: option.split)
      show ?thesis
      proof (cases "tx_blob_hashes (pt_consensus ptx)")
        case None
        with exec Inr Some show ?thesis
          by (cases sc) (simp_all add: executed_def execute_and_include_def include_transaction_def Let_def
              told_def is_blob_tx_def)
      next
        case (Some bh)
        note cap = blob_guard(3) [OF assms(1-3) Some]
        from exec Inr Some \<open>effective_tip_per_gas lib _ _ = _\<close> cap sum assms(4) show ?thesis
          by (cases sc) (simp_all add: executed_def execute_and_include_def include_transaction_def Let_def
              told_def is_blob_tx_def)
      qed
    qed
  qed
qed

text \<open>One iteration does what the specification rules.\<close>

lemma build_iter_ruled:
  assumes laws: "selection_laws lib ctx" and inv: "follows lib ctx st it b seen"
    and nxt: "best_next lib it = Some (ptx, it')"
  shows "case rule_on lib ctx b seen ptx of
      (Inl stop, b') \<Rightarrow> build_iter lib ctx ptx (advance it' st) = Exit stop
    | (Inr r, b') \<Rightarrow> \<exists>st'. build_iter lib ctx ptx (advance it' st) = Next st' \<and>
        best_txs st' = told lib ctx seen ptx r it' \<and> block_builder st' = b' \<and>
        included st' = taken seen @ taken_by r \<and> iteration st' = Suc (length seen)"
proof -
  let ?st = "advance it' st"
  have st: "blob_inv ctx ?st" "accounts_inv ctx ?st" "size_inv lib ctx ?st" "included ?st = taken seen"
    "iteration ?st = Suc (length seen)" "block_builder ?st = b" "best_txs ?st = it'"
    using inv by (auto simp: follows_def blob_inv_def accounts_inv_def size_inv_def advance_def)
  note gas = gas_guard [OF laws st(2) nxt, unfolded st(4)]
  note size_est = size_guard(1) [OF laws st(3) nxt, unfolded st(4)]
  note size = size_guard(2) [OF laws st(3) nxt, unfolded st(4)]
  note blob = blob_guard(1,2) [OF laws st(1) nxt, unfolded st(4)]
  note exec = execute_and_include_executed [OF laws st(1) nxt st(4), unfolded st(4-7)]
  have reject: "\<exists>st'. reject_tx lib ptx err ?st = Next st' \<and>
      best_txs st' = told lib ctx seen ptx (Refused err) it' \<and> block_builder st' = b \<and>
      included st' = taken seen @ taken_by (Refused err) \<and> iteration st' = Suc (length seen)" for err
    using st by (simp add: reject_tx_def told_def)
  show ?thesis
  proof (cases "gas_fits ctx (taken seen) ptx \<and> \<not> is_cancelled ctx (Suc (length seen)) \<and> size_fits lib ctx (taken seen) ptx")
    case False
    then show ?thesis
    proof (cases "gas_fits ctx (taken seen) ptx \<and> \<not> is_cancelled ctx (Suc (length seen))")
      case True
      with False have "is_osaka ctx" "\<not> size_fits lib ctx (taken seen) ptx" by (auto simp: size_fits_def)
      with True gas size size_est reject show ?thesis
        by (simp add: rule_on_def build_iter_def st(5) Let_def)
    qed (use gas reject in \<open>auto simp: rule_on_def build_iter_def st(5)\<close>)
  next
    case True
    then have guards: "\<not> block_gas_limit ctx < cumulative_gas_used ?st + pt_gas_limit ptx"
      "\<not> is_cancelled ctx (iteration ?st)"
      "\<not> (is_osaka ctx \<and> MAX_RLP_BLOCK_SIZE lib < block_transactions_rlp_length ?st +
         tx_rlp_length (pt_consensus ptx) + withdrawals_length lib (ctx_withdrawals ctx) + 1024)"
      using gas size unfolding st(5) by blast+
    have go_on: "build_iter lib ctx ptx ?st =
        (case tx_blob_hashes (pt_consensus ptx) of
           None \<Rightarrow> execute_and_include lib ctx ptx None ?st
         | Some bh \<Rightarrow>
             if block_blob_count ?st + vlen bh > ctx_max_blob_count ctx
             then reject_tx lib ptx (Eip4844Invalid (TooManyEip4844Blobs
                    (block_blob_count ?st + vlen bh) (ctx_max_blob_count ctx))) ?st
             else
               case select_sidecar lib (is_osaka ctx) (iteration ?st) (pt_consensus ptx) of
                 Inl e \<Rightarrow> Exit (LoopError (BlobStoreError e))
               | Inr (Inl err) \<Rightarrow> reject_tx lib ptx (Eip4844Invalid err) ?st
               | Inr (Inr sidecar) \<Rightarrow> execute_and_include lib ctx ptx (Some sidecar) ?st)"
      unfolding build_iter_def Let_def by (simp only: guards if_False)
    show ?thesis
    proof (cases "tx_blob_hashes (pt_consensus ptx)")
      case None
      then have rule_on: "rule_on lib ctx b seen ptx = executed lib ctx b ptx None"
        using True by (simp add: rule_on_def blobs_fit_def needed_sidecar_def is_blob_tx_def)
      have iter: "build_iter lib ctx ptx ?st = execute_and_include lib ctx ptx None ?st"
        using go_on None by simp
      show ?thesis unfolding rule_on iter by (rule exec)
    next
      case (Some bh)
      then have "is_blob_tx ptx" by (simp add: is_blob_tx_def)
      note needed = select_sidecar_needed [OF this, of lib ctx "Suc (length seen)"]
      show ?thesis
      proof (cases "blobs_fit ctx (taken seen) ptx")
        case False
        with True go_on blob [OF Some] Some reject show ?thesis by (simp add: rule_on_def)
      next
        case fits: True
        show ?thesis
        proof (cases "select_sidecar lib (is_osaka ctx) (Suc (length seen)) (pt_consensus ptx)")
          case (Inl e)
          with True fits go_on blob [OF Some] Some needed show ?thesis by (simp add: rule_on_def st(5))
        next
          case (Inr r)
          show ?thesis
          proof (cases r)
            case (Inl err)
            with Inr True fits go_on blob [OF Some] Some needed reject show ?thesis
              by (simp add: rule_on_def st(5))
          next
            case r: (Inr sc)
            have rule_on: "rule_on lib ctx b seen ptx = executed lib ctx b ptx (Some sc)"
              using Inr r True fits needed by (simp add: rule_on_def)
            have iter: "build_iter lib ctx ptx ?st = execute_and_include lib ctx ptx (Some sc) ?st"
              using Inr r go_on fits blob [OF Some] Some by (simp add: st(5))
            show ?thesis unfolding rule_on iter by (rule exec)
          qed
        qed
      qed
    qed
  qed
qed

lemma follows_step:
  assumes laws: "selection_laws lib ctx" and inv: "follows lib ctx st it b seen"
    and nxt: "best_next lib it = Some (ptx, it')" and rule_on: "rule_on lib ctx b seen ptx = (Inr r, b')"
  shows "\<exists>st'. build_iter lib ctx ptx (advance it' st) = Next st' \<and>
    follows lib ctx st' (told lib ctx seen ptx r it') b' (seen @ [(ptx, r)])"
proof -
  obtain st' where st': "build_iter lib ctx ptx (advance it' st) = Next st'"
    "best_txs st' = told lib ctx seen ptx r it'" "block_builder st' = b'"
    "included st' = taken seen @ taken_by r" "iteration st' = Suc (length seen)"
    using build_iter_ruled [OF laws inv nxt] rule_on by auto
  note l = laws [unfolded selection_laws_def blob_laws_def size_laws_def]
  have "blob_inv ctx st'" "accounts_inv ctx st'" "size_inv lib ctx st'"
    using blobs.one_iteration [of lib ctx st it ptx it' st'] accounts.one_iteration [of lib ctx st it ptx it' st']
      sizes.one_iteration [of lib ctx st it ptx it' st'] inv nxt st'(1) l
    by (simp_all add: follows_def blob_laws_def size_laws_def)
  with st' show ?thesis by (simp add: follows_def)
qed

fun same_end ::
  "('it, 'b, 'blk, 'x, 'r, 'p) build_lib \<Rightarrow> build_ctx \<Rightarrow> ('it, 'b, 'x) loop_exit \<Rightarrow> ('it, 'b, 'x) selection \<Rightarrow> bool" where
  "same_end lib ctx (Finished st) (Selected it b seen) = follows lib ctx st it b seen"
| "same_end lib ctx (Stopped e) (Halted e') = (e = e')"
| "same_end lib ctx r s = False"

text \<open>Both loops return together, with the same end.\<close>

lemma loop_selects:
  assumes laws: "selection_laws lib ctx" and "build_loop lib ctx st = Some r"
  shows "follows lib ctx st it b seen \<Longrightarrow> \<exists>s. select lib ctx it b seen = Some s \<and> same_end lib ctx r s"
proof -
  let ?P = "\<lambda>st r. \<forall>it b seen. follows lib ctx st it b seen \<longrightarrow>
      (\<exists>s. select lib ctx it b seen = Some s \<and> same_end lib ctx r s)"
  have "lib' = lib \<longrightarrow> ctx' = ctx \<longrightarrow> ?P st r" if run: "build_loop lib' ctx' st = Some r" for lib' ctx' st r
  proof (rule build_loop.raw_induct [OF _ run], intro impI allI)
    fix loop lib' ctx' st r it b seen
    assume IH: "\<And>lib' ctx' st y. loop lib' ctx' st = Some y \<Longrightarrow> lib' = lib \<longrightarrow> ctx' = ctx \<longrightarrow> ?P st y"
      and step: "(case best_next lib' (best_txs st) of None \<Rightarrow> Some (Finished st)
        | Some r \<Rightarrow> (case build_iter lib' ctx' (fst r) (advance (snd r) st) of
            Next st' \<Rightarrow> loop lib' ctx' st' | Exit e \<Rightarrow> Some (Stopped e))) = Some r"
      and eqs: "lib' = lib" "ctx' = ctx" and inv: "follows lib ctx st it b seen"
    note it = inv [unfolded follows_def, THEN conjunct1]
    show "\<exists>s. select lib ctx it b seen = Some s \<and> same_end lib ctx r s"
    proof (cases "best_next lib it")
      case None
      with step eqs it inv show ?thesis by (subst select.simps) auto
    next
      case (Some q)
      obtain ptx it' where q: "best_next lib it = Some (ptx, it')" using Some by (cases q) simp
      obtain v b' where v: "rule_on lib ctx b seen ptx = (v, b')" by (cases "rule_on lib ctx b seen ptx")
      show ?thesis
      proof (cases v)
        case (Inl e)
        with build_iter_ruled [OF laws inv q] v step eqs it q show ?thesis by (subst select.simps) auto
      next
        case (Inr u)
        from follows_step [OF laws inv q v [unfolded Inr]] obtain st' where
          st': "build_iter lib ctx ptx (advance it' st) = Next st'"
            "follows lib ctx st' (told lib ctx seen ptx u it') b' (seen @ [(ptx, u)])" by blast
        with step eqs it q have "loop lib ctx st' = Some r" by simp
        with IH st'(2) obtain s where "select lib ctx (told lib ctx seen ptx u it') b' (seen @ [(ptx, u)]) = Some s"
          "same_end lib ctx r s" by blast
        with q v Inr show ?thesis by (subst select.simps) simp
      qed
    qed
  qed
  with assms(2) show "follows lib ctx st it b seen \<Longrightarrow> ?thesis" by blast
qed

lemma selects_loop:
  assumes laws: "selection_laws lib ctx" and "select lib ctx it b seen = Some s"
  shows "follows lib ctx st it b seen \<Longrightarrow> \<exists>r. build_loop lib ctx st = Some r"
proof -
  let ?P = "\<lambda>it b seen. \<forall>st. follows lib ctx st it b seen \<longrightarrow> (\<exists>r. build_loop lib ctx st = Some r)"
  have "lib' = lib \<longrightarrow> ctx' = ctx \<longrightarrow> ?P it b seen"
    if run: "select lib' ctx' it b seen = Some s" for lib' ctx' it b seen s
  proof (rule select.raw_induct [OF _ run], intro impI allI)
    fix loop lib' ctx' it b seen s st
    assume IH: "\<And>lib' ctx' it b seen y. loop lib' ctx' it b seen = Some y \<Longrightarrow>
        lib' = lib \<longrightarrow> ctx' = ctx \<longrightarrow> ?P it b seen"
      and step: "(case best_next lib' it of None \<Rightarrow> Some (Selected it b seen)
        | Some q \<Rightarrow> (case fst (rule_on lib' ctx' b seen (fst q)) of
            Inl stop \<Rightarrow> Some (Halted stop)
          | Inr r \<Rightarrow> loop lib' ctx' (told lib' ctx' seen (fst q) r (snd q))
              (snd (rule_on lib' ctx' b seen (fst q))) (seen @ [(fst q, r)]))) = Some s"
      and eqs: "lib' = lib" "ctx' = ctx" and inv: "follows lib ctx st it b seen"
    note it = inv [unfolded follows_def, THEN conjunct1]
    show "\<exists>r. build_loop lib ctx st = Some r"
    proof (cases "best_next lib it")
      case None
      with it show ?thesis by (subst build_loop.simps) auto
    next
      case (Some q)
      obtain ptx it' where q: "best_next lib it = Some (ptx, it')" using Some by (cases q) simp
      obtain v b' where v: "rule_on lib ctx b seen ptx = (v, b')" by (cases "rule_on lib ctx b seen ptx")
      show ?thesis
      proof (cases v)
        case (Inl e)
        with build_iter_ruled [OF laws inv q] v it q show ?thesis by (subst build_loop.simps) auto
      next
        case (Inr u)
        from follows_step [OF laws inv q v [unfolded Inr]] obtain st' where
          st': "build_iter lib ctx ptx (advance it' st) = Next st'"
            "follows lib ctx st' (told lib ctx seen ptx u it') b' (seen @ [(ptx, u)])" by blast
        from step eqs q v Inr have "loop lib ctx (told lib ctx seen ptx u it') b' (seen @ [(ptx, u)]) = Some s" by simp
        with IH st'(2) obtain r where "build_loop lib ctx st' = Some r" by blast
        with it q st'(1) show ?thesis by (subst build_loop.simps) simp
      qed
    qed
  qed
  with assms(2) show "follows lib ctx st it b seen \<Longrightarrow> ?thesis" by blast
qed

text \<open>What the caller reads off the end of either loop.\<close>

fun loop_result ::
  "('it, 'b, 'x) loop_exit \<Rightarrow> 'x loop_stop + 'it \<times> 'b \<times> included_tx list \<times> nat \<times> nat \<times> nat \<times> nat" where
  "loop_result (Finished st) = Inr (best_txs st, block_builder st, included st, iteration st,
     unat (cumulative_gas_used st), unat (total_fees st), unat (block_blob_count st))"
| "loop_result (Stopped e) = Inl e"

fun selection_result ::
  "('it, 'b, 'x) selection \<Rightarrow> 'x loop_stop + 'it \<times> 'b \<times> included_tx list \<times> nat \<times> nat \<times> nat \<times> nat" where
  "selection_result (Selected it b seen) = Inr (it, b, taken seen, length seen,
     gas_sum (taken seen), fee_sum (taken seen), blob_sum (taken seen))"
| "selection_result (Halted e) = Inl e"

lemma same_end_result: "same_end lib ctx r s \<Longrightarrow> loop_result r = selection_result s"
  by (cases r; cases s) (auto simp: follows_def blob_inv_def accounts_inv_def blob_sum_def)

text \<open>C2. The selection loop of the code is the specification: over any iterator, block builder and blob store
  it returns exactly when the selection does, stops for the same reason, or ends with the same
  iterator, the same block builder and the same transactions in the same order, and its counters
  of machine width then hold the exact sums of gas, fees and blobs.\<close>

theorem build_loop_is_selection:
  assumes "selection_laws lib ctx"
  shows "map_option loop_result (build_loop lib ctx (initial_state it b)) =
    map_option selection_result (select lib ctx it b [])"
proof (cases "select lib ctx it b []")
  case None
  with loop_selects [OF assms _ follows_initial] show ?thesis
    by (cases "build_loop lib ctx (initial_state it b)") fastforce+
next
  case (Some s)
  obtain r where r: "build_loop lib ctx (initial_state it b) = Some r"
    using selects_loop [OF assms Some follows_initial] by blast
  from loop_selects [OF assms r follows_initial] Some r show ?thesis
    by (auto dest: same_end_result)
qed

subsection \<open>Invariants of the selection\<close>

locale selection_invariant =
  fixes lib :: "('it, 'b, 'blk, 'x, 'r, 'p) build_lib"
    and ctx :: build_ctx
    and K :: "'it \<Rightarrow> 'b \<Rightarrow> ruled list \<Rightarrow> bool"
  assumes on_ruling: "K it b seen \<Longrightarrow> best_next lib it = Some (ptx, it') \<Longrightarrow>
      rule_on lib ctx b seen ptx = (Inr r, b') \<Longrightarrow> K (told lib ctx seen ptx r it') b' (seen @ [(ptx, r)])"
begin

lemma selected:
  assumes "select lib ctx it b seen = Some (Selected it2 b2 seen2)" and "K it b seen"
  shows "K it2 b2 seen2 \<and> best_next lib it2 = None"
proof -
  let ?Q = "\<lambda>s. case s of Selected it2 b2 seen2 \<Rightarrow> K it2 b2 seen2 \<and> best_next lib it2 = None | Halted e \<Rightarrow> True"
  have "lib' = lib \<longrightarrow> ctx' = ctx \<longrightarrow> K it b seen \<longrightarrow> ?Q s"
    if run: "select lib' ctx' it b seen = Some s" for lib' ctx' it b seen s
  proof (rule select.raw_induct [OF _ run], intro impI)
    fix loop lib' ctx' it b seen s
    assume IH: "\<And>lib' ctx' it b seen y. loop lib' ctx' it b seen = Some y \<Longrightarrow>
        lib' = lib \<longrightarrow> ctx' = ctx \<longrightarrow> K it b seen \<longrightarrow> ?Q y"
      and step: "(case best_next lib' it of None \<Rightarrow> Some (Selected it b seen)
        | Some q \<Rightarrow> (case fst (rule_on lib' ctx' b seen (fst q)) of
            Inl stop \<Rightarrow> Some (Halted stop)
          | Inr r \<Rightarrow> loop lib' ctx' (told lib' ctx' seen (fst q) r (snd q))
              (snd (rule_on lib' ctx' b seen (fst q))) (seen @ [(fst q, r)]))) = Some s"
      and eqs: "lib' = lib" "ctx' = ctx" and K: "K it b seen"
    show "?Q s"
    proof (cases "best_next lib it")
      case None
      with step eqs K show ?thesis by auto
    next
      case (Some q)
      obtain ptx it' where q: "best_next lib it = Some (ptx, it')" using Some by (cases q) simp
      obtain v b' where v: "rule_on lib ctx b seen ptx = (v, b')" by (cases "rule_on lib ctx b seen ptx")
      show ?thesis
      proof (cases v)
        case (Inl e)
        with step eqs q v show ?thesis by auto
      next
        case (Inr r)
        with step eqs q v have "loop lib ctx (told lib ctx seen ptx r it') b' (seen @ [(ptx, r)]) = Some s" by simp
        from IH [OF this] on_ruling [OF K q v [unfolded Inr]] show ?thesis by simp
      qed
    qed
  qed
  from this [OF assms(1)] assms(2) show ?thesis by simp
qed

end

subsection \<open>Nothing is left out without a reason\<close>

definition has_room ::
  "('it, 'b, 'blk, 'x, 'r, 'p) build_lib \<Rightarrow> build_ctx \<Rightarrow> included_tx list \<Rightarrow> pool_tx \<Rightarrow> bool" where
  "has_room lib ctx chosen ptx \<longleftrightarrow>
     gas_fits ctx chosen ptx \<and> size_fits lib ctx chosen ptx \<and> blobs_fit ctx chosen ptx"

text \<open>The EVM finds the transaction invalid, for a nonce that is too low or otherwise.\<close>

definition evm_refuses :: "('it, 'b, 'blk, 'x, 'r, 'p) build_lib \<Rightarrow> pool_tx \<Rightarrow> bool \<Rightarrow> bool" where
  "evm_refuses lib ptx stale \<longleftrightarrow>
     (\<exists>b b'. execute_transaction lib (pt_consensus ptx) b = (Inl (InvalidTx stale), b'))"

text \<open>The ruling on a transaction offered after \<open>pre\<close> is the right one, and the pool is told the true reason.\<close>

fun right_ruling ::
  "('it, 'b, 'blk, 'x, 'r, 'p) build_lib \<Rightarrow> build_ctx \<Rightarrow> ruled list \<Rightarrow> pool_tx \<Rightarrow> ruling \<Rightarrow> bool" where
  "right_ruling lib ctx pre ptx (Taken inc) \<longleftrightarrow>
     inc_tx inc = ptx \<and> has_room lib ctx (taken pre) ptx \<and>
     needed_sidecar lib ctx (Suc (length pre)) ptx = Inr (Inr (inc_sidecar inc))"
| "right_ruling lib ctx pre ptx StaleNonce \<longleftrightarrow> evm_refuses lib ptx True"
| "right_ruling lib ctx pre ptx (Refused (ExceedsGasLimit asked limit)) \<longleftrightarrow>
     \<not> gas_fits ctx (taken pre) ptx \<and> asked = pt_gas_limit ptx \<and> limit = block_gas_limit ctx"
| "right_ruling lib ctx pre ptx (Refused (OversizedData asked limit)) \<longleftrightarrow>
     \<not> size_fits lib ctx (taken pre) ptx \<and> limit = MAX_RLP_BLOCK_SIZE lib"
| "right_ruling lib ctx pre ptx (Refused (Eip4844Invalid err)) \<longleftrightarrow>
     \<not> blobs_fit ctx (taken pre) ptx \<and> (\<exists>asked. err = TooManyEip4844Blobs asked (ctx_max_blob_count ctx)) \<or>
     needed_sidecar lib ctx (Suc (length pre)) ptx = Inr (Inl err)"
| "right_ruling lib ctx pre ptx (Refused TxTypeNotSupported) \<longleftrightarrow> evm_refuses lib ptx False"

definition all_right ::
  "('it, 'b, 'blk, 'x, 'r, 'p) build_lib \<Rightarrow> build_ctx \<Rightarrow> ruled list \<Rightarrow> bool" where
  "all_right lib ctx seen \<longleftrightarrow>
     (\<forall>k < length seen. right_ruling lib ctx (take k seen) (fst (seen ! k)) (snd (seen ! k)))"

lemma evm_refusesI:
  "execute_transaction lib (pt_consensus ptx) b = (Inl (InvalidTx stale), b') \<Longrightarrow> evm_refuses lib ptx stale"
  unfolding evm_refuses_def by blast

lemma rule_on_right: "rule_on lib ctx b seen ptx = (Inr r, b') \<Longrightarrow> right_ruling lib ctx seen ptx r"
  by (auto simp: rule_on_def executed_def has_room_def intro: evm_refusesI
      split: if_splits sum.splits prod.splits option.splits execution_error.splits)

interpretation rulings: selection_invariant lib ctx "\<lambda>it b seen. all_right lib ctx seen"
  by unfold_locales (auto simp: all_right_def nth_append less_Suc_eq dest: rule_on_right)

text \<open>A transaction that has room and its sidecar, and that the EVM never finds invalid, is taken.\<close>

lemma right_ruling_takes:
  assumes "right_ruling lib ctx pre ptx r" and "has_room lib ctx (taken pre) ptx"
    and "needed_sidecar lib ctx (Suc (length pre)) ptx = Inr (Inr sc)" and "\<And>stale. \<not> evm_refuses lib ptx stale"
  shows "\<exists>inc. r = Taken inc \<and> inc_tx inc = ptx \<and> inc_sidecar inc = sc"
  using assms by (cases "(lib, ctx, pre, ptx, r)" rule: right_ruling.cases) (auto simp: has_room_def)

subsection \<open>The selection of a better payload\<close>

text \<open>The iterator a build asks the pool for.\<close>

abbreviation pool_iterator :: "('it, 'b, 'blk, 'x, 'r, 'p) build_lib \<Rightarrow> 'b \<Rightarrow> 'it" where
  "pool_iterator lib b \<equiv> best_transactions lib (be_basefee (builder_block_env lib b))
     (map_option (\<lambda>e. ucast (blob_gasprice e)) (be_blob_excess_gas_and_price (builder_block_env lib b)))"

text \<open>What is documented of the lengths upstream computes: they are far below the \<open>usize\<close> range.\<close>

definition lengths_law ::
  "('it, 'b, 'blk, 'x, 'r, 'p) build_lib \<Rightarrow> ('r, 'blk) build_arguments \<Rightarrow> bool" where
  "lengths_law lib args \<longleftrightarrow> small_length (MAX_RLP_BLOCK_SIZE lib) \<and>
     small_length (withdrawals_length lib (ba_withdrawals (lba_inner (arg_attributes args))))"

lemma better_payload_selected:
  assumes "default_load_payload slib lib spec conf args = Some (Returned (Inr (Better p reads)))"
    and "\<And>b. iterator_law lib (be_gas_limit (builder_block_env lib b))" and "lengths_law lib args"
  obtains provider b b0 it' b' seen reqs where "prepare_build lib spec conf args = Inr (provider, b)"
    and "apply_pre_execution_changes lib b = Inr b0"
    and "select lib (loop_context slib lib spec args b) (pool_iterator lib b) b0 [] = Some (Selected it' b' seen)"
    and "finish_block lib b' provider = Inr (bp_block (lbp_inner p), reqs, reads)"
    and "unat (bp_fees (lbp_inner p)) = fee_sum (taken seen)"
proof -
  obtain provider b where prep: "prepare_build lib spec conf args = Inr (provider, b)"
    using assms(1) by (auto simp: default_load_payload_def split: sum.splits)
  let ?ctx = "loop_context slib lib spec args b"
  obtain b0 where pre: "apply_pre_execution_changes lib b = Inr b0"
    using assms(1) prep by (auto simp: default_load_payload_def Let_def split: sum.splits)
  have "base_fee ?ctx = be_basefee (builder_block_env lib b)" by (simp add: loop_context_def Let_def)
  with assms(1) prep pre obtain st where
    loop: "build_loop lib ?ctx (initial_state (pool_iterator lib b) b0) = Some (Finished st)"
    and fin: "finish_payload slib lib spec (arg_attributes args) (arg_best_payload args)
       (is_osaka ?ctx) provider st = Inr (Better p reads)"
    by (auto simp: default_load_payload_def Let_def split: option.splits loop_exit.splits loop_stop.splits)
  have "selection_laws lib ?ctx"
    using assms(2,3) by (simp add: selection_laws_def blob_laws_def size_laws_def lengths_law_def)
  from loop_selects [OF this loop follows_initial] obtain s where
    s: "select lib ?ctx (pool_iterator lib b) b0 [] = Some s" "same_end lib ?ctx (Finished st) s" by blast
  then obtain it' b' seen where seen: "s = Selected it' b' seen" "follows lib ?ctx st it' b' seen"
    by (cases s) auto
  then have "block_builder st = b'" "unat (total_fees st) = fee_sum (taken seen)"
    by (simp_all add: follows_def accounts_inv_def)
  with fin s(1) seen(1) prep pre show thesis
    by (auto simp: finish_payload_Better intro: that)
qed

text \<open>C3. Nothing is left out without a reason: behind a better payload stands a selection that ended because the pool
  had nothing more to offer; its block was finished from the builder that executed the
  transactions taken, its fees are the exact sum over them; every ruling is the right one, with
  the true reason given to the pool; and every transaction offered that had room next to those
  taken before it, whose sidecar was there in the right kind, and that the EVM never finds invalid, was
  taken with that sidecar.\<close>

theorem nothing_left_out:
  assumes "default_load_payload slib lib spec conf args = Some (Returned (Inr (Better p reads)))"
    and "\<And>b. iterator_law lib (be_gas_limit (builder_block_env lib b))" and "lengths_law lib args"
  shows "\<exists>provider b b0 it' b' seen reqs. prepare_build lib spec conf args = Inr (provider, b) \<and>
    apply_pre_execution_changes lib b = Inr b0 \<and>
    select lib (loop_context slib lib spec args b) (pool_iterator lib b) b0 [] = Some (Selected it' b' seen) \<and>
    best_next lib it' = None \<and>
    finish_block lib b' provider = Inr (bp_block (lbp_inner p), reqs, reads) \<and>
    unat (bp_fees (lbp_inner p)) = fee_sum (taken seen) \<and>
    all_right lib (loop_context slib lib spec args b) seen \<and>
    (\<forall>k < length seen. \<forall>sc.
       has_room lib (loop_context slib lib spec args b) (taken (take k seen)) (fst (seen ! k)) \<longrightarrow>
       needed_sidecar lib (loop_context slib lib spec args b) (Suc k) (fst (seen ! k)) = Inr (Inr sc) \<longrightarrow>
       (\<forall>stale. \<not> evm_refuses lib (fst (seen ! k)) stale) \<longrightarrow>
       (\<exists>inc. snd (seen ! k) = Taken inc \<and> inc_tx inc = fst (seen ! k) \<and> inc_sidecar inc = sc))"
proof -
  obtain provider b b0 it' b' seen reqs where
    run: "prepare_build lib spec conf args = Inr (provider, b)" "apply_pre_execution_changes lib b = Inr b0"
      "select lib (loop_context slib lib spec args b) (pool_iterator lib b) b0 [] = Some (Selected it' b' seen)"
      "finish_block lib b' provider = Inr (bp_block (lbp_inner p), reqs, reads)"
      "unat (bp_fees (lbp_inner p)) = fee_sum (taken seen)"
    by (rule better_payload_selected [OF assms])
  let ?ctx = "loop_context slib lib spec args b"
  have right: "all_right lib ?ctx seen" "best_next lib it' = None"
    using rulings.selected [OF run(3)] by (simp_all add: all_right_def)
  have "\<exists>inc. snd (seen ! k) = Taken inc \<and> inc_tx inc = fst (seen ! k) \<and> inc_sidecar inc = sc"
    if "k < length seen" "has_room lib ?ctx (taken (take k seen)) (fst (seen ! k))"
      "needed_sidecar lib ?ctx (Suc k) (fst (seen ! k)) = Inr (Inr sc)"
      "\<forall>stale. \<not> evm_refuses lib (fst (seen ! k)) stale" for k sc
    using right(1) that by (intro right_ruling_takes [where pre = "take k seen"]) (auto simp: all_right_def)
  with run right show ?thesis by blast
qed

subsection \<open>Blocks that take all there is room for\<close>

text \<open>
  Documented of an iterator over a list of pool transactions: it yields them in order, and \<open>skip_blobs\<close> drops
  exactly the blob transactions; a blob transaction has at least one blob (EIP-4844).
\<close>

definition list_pool :: "('it, 'b, 'blk, 'x, 'r, 'p) build_lib \<Rightarrow> ('it \<Rightarrow> pool_tx list) \<Rightarrow> bool" where
  "list_pool lib pool_list \<longleftrightarrow>
     (\<forall>it. best_next lib it = None \<longleftrightarrow> pool_list it = []) \<and>
     (\<forall>it ptx it'. best_next lib it = Some (ptx, it') \<longrightarrow> pool_list it = ptx # pool_list it') \<and>
     (\<forall>it. pool_list (skip_blobs lib it) = filter (\<lambda>t. \<not> is_blob_tx t) (pool_list it)) \<and>
     (\<forall>it. \<forall>t \<in> set (pool_list it). is_blob_tx t \<longrightarrow> 0 < tx_blobs (pt_consensus t))"

definition limit_sum :: "pool_tx list \<Rightarrow> nat" where
  "limit_sum txs = sum_list (map (\<lambda>t. unat (pt_gas_limit t)) txs)"

definition length_sum :: "pool_tx list \<Rightarrow> nat" where
  "length_sum txs = sum_list (map (\<lambda>t. unat (tx_rlp_length (pt_consensus t))) txs)"

definition blobs_sum :: "pool_tx list \<Rightarrow> nat" where
  "blobs_sum txs = sum_list (map (\<lambda>t. tx_blobs (pt_consensus t)) txs)"

lemma pool_sums [simp]:
  "limit_sum (txs @ ptx # later) = limit_sum txs + unat (pt_gas_limit ptx) + limit_sum later"
  "length_sum (txs @ ptx # later) = length_sum txs + unat (tx_rlp_length (pt_consensus ptx)) + length_sum later"
  "blobs_sum (txs @ ptx # later) = blobs_sum txs + tx_blobs (pt_consensus ptx) + blobs_sum later"
  by (simp_all add: limit_sum_def length_sum_def blobs_sum_def)

lemma taken_sums [simp]:
  "gas_sum (incs @ [inc]) = gas_sum incs + unat (inc_gas_used inc)"
  "blob_sum (incs @ [inc]) = blob_sum incs + tx_blobs (pt_consensus (inc_tx inc))"
  by (simp_all add: gas_sum_def blob_sum_def blobs_of_def tx_blobs_def tx_hashes_def split: option.split)

text \<open>All transactions fit into one block together.\<close>

definition room_for_all ::
  "('it, 'b, 'blk, 'x, 'r, 'p) build_lib \<Rightarrow> build_ctx \<Rightarrow> pool_tx list \<Rightarrow> bool" where
  "room_for_all lib ctx txs \<longleftrightarrow>
     limit_sum txs \<le> unat (block_gas_limit ctx) \<and> blobs_sum txs \<le> unat (ctx_max_blob_count ctx) \<and>
     (is_osaka ctx \<longrightarrow> length_sum txs + unat (withdrawals_length lib (ctx_withdrawals ctx)) + 1024
        \<le> unat (MAX_RLP_BLOCK_SIZE lib))"

text \<open>The blob store has a sidecar of the right kind for every blob transaction.\<close>

definition sidecars_stored ::
  "('it, 'b, 'blk, 'x, 'r, 'p) build_lib \<Rightarrow> build_ctx \<Rightarrow> pool_tx list \<Rightarrow> bool" where
  "sidecars_stored lib ctx txs \<longleftrightarrow> (\<forall>i. \<forall>t \<in> set txs. is_blob_tx t \<longrightarrow>
     (\<exists>s. get_blob lib i (tx_hash (pt_consensus t)) = Inr (Some s) \<and> is_eip7594 s = is_osaka ctx))"

text \<open>Every transaction is valid after those before it.\<close>

definition valid_in_order ::
  "('it, 'b, 'blk, 'x, 'r, 'p) build_lib \<Rightarrow> ('b \<Rightarrow> eth_tx list) \<Rightarrow> pool_tx list \<Rightarrow> bool" where
  "valid_in_order lib txs_of txs \<longleftrightarrow> (\<forall>k < length txs. \<forall>b b' stale.
     txs_of b = map pt_consensus (take k txs) \<longrightarrow>
     execute_transaction lib (pt_consensus (txs ! k)) b \<noteq> (Inl (InvalidTx stale), b'))"

text \<open>The pool offers nothing after \<open>txs\<close>, or \<open>txs\<close> fill the blob cap exactly and only blob transactions follow.\<close>

definition rest_is_beyond :: "build_ctx \<Rightarrow> pool_tx list \<Rightarrow> pool_tx list \<Rightarrow> bool" where
  "rest_is_beyond ctx txs rest \<longleftrightarrow> rest = [] \<or>
     0 < blobs_sum txs \<and> blobs_sum txs = unat (ctx_max_blob_count ctx) \<and> (\<forall>t \<in> set rest. is_blob_tx t)"

text \<open>So far everything offered was taken; the others of \<open>txs\<close> are still to come, and \<open>rest\<close> as long as the cap
  is not reached.\<close>

definition taking ::
  "build_ctx \<Rightarrow> ('b \<Rightarrow> eth_tx list) \<Rightarrow> ('it \<Rightarrow> pool_tx list) \<Rightarrow> pool_tx list \<Rightarrow> pool_tx list \<Rightarrow>
   'it \<Rightarrow> 'b \<Rightarrow> ruled list \<Rightarrow> bool" where
  "taking ctx txs_of pool_list txs rest it b seen \<longleftrightarrow>
     (\<exists>to_come. txs = map fst seen @ to_come \<and>
        pool_list it = to_come @ (if blob_sum (taken seen) = unat (ctx_max_blob_count ctx) then [] else rest)) \<and>
     map inc_tx (taken seen) = map fst seen \<and>
     txs_of b = map pt_consensus (map fst seen) \<and> gas_sum (taken seen) \<le> limit_sum (map fst seen)"

lemma sums_taken:
  assumes "map inc_tx (taken seen) = map fst seen"
  shows "rlp_sum (taken seen) = length_sum (map fst seen)" "blob_sum (taken seen) = blobs_sum (map fst seen)"
proof -
  have "blobs_of = (\<lambda>i. tx_blobs (pt_consensus (inc_tx i)))"
    by (simp add: fun_eq_iff blobs_of_def tx_blobs_def tx_hashes_def split: option.split)
  then have "rlp_sum incs = length_sum (map inc_tx incs)" "blob_sum incs = blobs_sum (map inc_tx incs)" for incs
    by (simp_all add: rlp_sum_def length_sum_def blob_sum_def blobs_sum_def comp_def)
  with assms show "rlp_sum (taken seen) = length_sum (map fst seen)"
    "blob_sum (taken seen) = blobs_sum (map fst seen)" by metis+
qed

text \<open>The next of transactions that fit together is taken.\<close>

lemma next_taken:
  assumes law: "iterator_law lib (block_gas_limit ctx)" and nxt: "best_next lib it = Some (ptx, it')"
    and room: "room_for_all lib ctx (map fst seen @ ptx # to_come)"
    and stored: "sidecars_stored lib ctx (map fst seen @ ptx # to_come)"
    and valid: "valid_in_order lib txs_of (map fst seen @ ptx # to_come)"
    and sofar: "map inc_tx (taken seen) = map fst seen" "gas_sum (taken seen) \<le> limit_sum (map fst seen)"
      "txs_of b = map pt_consensus (map fst seen)"
    and rule_on: "rule_on lib ctx b seen ptx = (Inr r, b')"
  obtains inc where "r = Taken inc" and "inc_tx inc = ptx" and "unat (inc_gas_used inc) \<le> unat (pt_gas_limit ptx)"
    and "execute_transaction lib (pt_consensus ptx) b = (Inr (inc_gas_used inc), b')"
proof -
  note sums = room [unfolded room_for_all_def pool_sums] sums_taken [OF sofar(1)] sofar(2)
  have has: "has_room lib ctx (taken seen) ptx"
    unfolding has_room_def gas_fits_def size_fits_def size_with_def blobs_fit_def
    using sums by (cases "is_osaka ctx") simp_all
  obtain sc where sc: "needed_sidecar lib ctx (Suc (length seen)) ptx = Inr (Inr sc)"
  proof (cases "is_blob_tx ptx")
    case True
    moreover have "ptx \<in> set (map fst seen @ ptx # to_come)" by simp
    ultimately obtain s where "get_blob lib (Suc (length seen)) (tx_hash (pt_consensus ptx)) = Inr (Some s)"
      "is_eip7594 s = is_osaka ctx" using stored unfolding sidecars_stored_def by blast
    with True show thesis by (intro that [of "Some s"]) (simp add: needed_sidecar_def)
  qed (intro that [of None], simp add: needed_sidecar_def)
  have at_k: "(map fst seen @ ptx # to_come) ! length seen = ptx"
    "take (length seen) (map fst seen @ ptx # to_come) = map fst seen"
    "length seen < length (map fst seen @ ptx # to_come)"
    by (simp_all add: nth_append)
  with valid sofar(3) have "execute_transaction lib (pt_consensus ptx) b \<noteq> (Inl (InvalidTx stale), b'')" for stale b''
    unfolding valid_in_order_def by metis
  then obtain gas tip where r: "execute_transaction lib (pt_consensus ptx) b = (Inr gas, b')"
    "r = Taken \<lparr>inc_tx = ptx, inc_gas_used = gas, inc_tip = tip, inc_sidecar = sc\<rparr>"
    using rule_on has sc
    by (auto simp: rule_on_def has_room_def executed_def
        split: if_splits prod.splits sum.splits option.splits execution_error.splits)
  have "unat gas \<le> unat (pt_gas_limit ptx)"
    using iterator_lawD(4) [OF law nxt r(1)] by (simp add: word_le_nat_alt)
  with r(1) show thesis by (intro that [OF r(2)]) simp_all
qed

lemma taking_step:
  assumes laws: "iterator_law lib (block_gas_limit ctx)" "list_pool lib pool_list"
    and txs_of: "\<And>tx b g b'. execute_transaction lib tx b = (Inr g, b') \<Longrightarrow> txs_of b' = txs_of b @ [tx]"
    and room: "room_for_all lib ctx txs" "sidecars_stored lib ctx txs" "valid_in_order lib txs_of txs"
    and beyond: "rest_is_beyond ctx txs rest" and inv: "taking ctx txs_of pool_list txs rest it b seen"
    and nxt: "best_next lib it = Some (ptx, it')" and rule_on: "rule_on lib ctx b seen ptx = (Inr r, b')"
  shows "taking ctx txs_of pool_list txs rest (told lib ctx seen ptx r it') b' (seen @ [(ptx, r)])"
proof -
  let ?cap = "unat (ctx_max_blob_count ctx)"
  let ?rest = "\<lambda>seen. if blob_sum (taken seen) = ?cap then [] else rest"
  obtain to_come where to_come: "txs = map fst seen @ to_come" "pool_list it = to_come @ ?rest seen"
    and sofar: "map inc_tx (taken seen) = map fst seen" "gas_sum (taken seen) \<le> limit_sum (map fst seen)"
      "txs_of b = map pt_consensus (map fst seen)"
    using inv by (auto simp: taking_def)
  have list: "pool_list it = ptx # pool_list it'" using laws(2) nxt unfolding list_pool_def by blast
  have "to_come \<noteq> []"
  proof
    assume "to_come = []"
    with to_come(1) sums_taken(2) [OF sofar(1)] beyond have "?rest seen = []"
      by (auto simp: rest_is_beyond_def)
    with \<open>to_come = []\<close> to_come(2) list show False by simp
  qed
  then obtain later where later: "txs = map fst seen @ ptx # later" "pool_list it' = later @ ?rest seen"
    using to_come list by (cases to_come) auto
  obtain inc where inc: "r = Taken inc" "inc_tx inc = ptx" "unat (inc_gas_used inc) \<le> unat (pt_gas_limit ptx)"
    "execute_transaction lib (pt_consensus ptx) b = (Inr (inc_gas_used inc), b')"
    by (rule next_taken [OF laws(1) nxt room [unfolded later(1)] sofar rule_on])
  note sums = room(1) [unfolded room_for_all_def later(1) pool_sums] sums_taken(2) [OF sofar(1)]
  have "pool_list (told lib ctx seen ptx r it') = later @ ?rest (seen @ [(ptx, r)])"
  proof (cases "blob_sum (taken seen @ [inc]) = ?cap")
    case True
    then have "blobs_sum later = 0" using sums inc(2) by simp
    then have none: "\<forall>t \<in> set later. tx_blobs (pt_consensus t) = 0" by (simp add: blobs_sum_def)
    show ?thesis
    proof (cases "is_blob_tx ptx")
      case blob: True
      have "set later \<subseteq> set (pool_list it)" using list later(2) by auto
      with none have "\<forall>t \<in> set later. \<not> is_blob_tx t" using laws(2) unfolding list_pool_def by fastforce
      moreover have "\<forall>t \<in> set (?rest seen). is_blob_tx t" using beyond by (auto simp: rest_is_beyond_def)
      ultimately have "filter (\<lambda>t. \<not> is_blob_tx t) (pool_list it') = later" by (simp add: later(2))
      then have "pool_list (skip_blobs lib it') = later" using laws(2) unfolding list_pool_def by simp
      with True blob inc(1) show ?thesis by (simp add: told_def)
    next
      case False
      then have "tx_blobs (pt_consensus ptx) = 0" by (simp add: is_blob_tx_def tx_blobs_def tx_hashes_def)
      with True inc(1,2) False later(2) show ?thesis by (simp add: told_def)
    qed
  next
    case False
    then have "blob_sum (taken seen) \<noteq> ?cap" using sums inc(2) by auto
    with False inc(1) later(2) show ?thesis by (simp add: told_def)
  qed
  with later(1) inc sofar txs_of [OF inc(4)] show ?thesis
    by (simp add: taking_def)
qed

lemma block_of_fitting:
  assumes "default_load_payload slib lib spec conf args = Some (Returned (Inr (Better p reads)))"
    and "prepare_build lib spec conf args = Inr (provider, b)"
    and "\<And>b. iterator_law lib (be_gas_limit (builder_block_env lib b))" and "lengths_law lib args"
    and "list_pool lib pool_list" and "seal_law lib plib made_for txs_of hashes_of"
    and "pool_list (pool_iterator lib b) = txs @ rest"
    and "room_for_all lib (loop_context slib lib spec args b) txs"
    and "sidecars_stored lib (loop_context slib lib spec args b) txs" and "valid_in_order lib txs_of txs"
    and "rest_is_beyond (loop_context slib lib spec args b) txs rest"
  shows "\<exists>b' reqs. finish_block lib b' provider = Inr (bp_block (lbp_inner p), reqs, reads) \<and>
    txs_of b' = map pt_consensus txs \<and>
    hashes_of (payload_v3_from_block plib (block_hash plib (bp_block (lbp_inner p))) (bp_block (lbp_inner p))) =
      concat (map (\<lambda>t. tx_hashes (pt_consensus t)) txs)"
proof -
  obtain b0 it' b' seen reqs where
    run: "apply_pre_execution_changes lib b = Inr b0"
      "select lib (loop_context slib lib spec args b) (pool_iterator lib b) b0 [] = Some (Selected it' b' seen)"
      "finish_block lib b' provider = Inr (bp_block (lbp_inner p), reqs, reads)"
    by (rule better_payload_selected [OF assms(1,3,4)]) (use assms(2) in auto)
  let ?ctx = "loop_context slib lib spec args b"
  have txs_of: "txs_of b' = txs_of b @ [tx]" if "execute_transaction lib tx b = (Inr g, b')" for tx b g b'
    using assms(6) that unfolding seal_law_def by blast
  have "iterator_law lib (block_gas_limit ?ctx)" using assms(3) by simp
  then have keeps: "selection_invariant lib ?ctx (taking ?ctx txs_of pool_list txs rest)"
    by unfold_locales (rule taking_step [OF _ assms(5) txs_of assms(8-11)])
  have "txs_of b = []" "txs_of b0 = txs_of b"
    using assms(6) prepare_build_ok [OF assms(2)] run(1) unfolding seal_law_def by blast+
  moreover have "blob_sum [] = unat (ctx_max_blob_count ?ctx) \<Longrightarrow> rest = []"
    using assms(11) by (auto simp: rest_is_beyond_def blob_sum_def)
  ultimately have "taking ?ctx txs_of pool_list txs rest (pool_iterator lib b) b0 []"
    using assms(7) by (simp add: taking_def gas_sum_def)
  from selection_invariant.selected [OF keeps run(2) this]
  have last: "taking ?ctx txs_of pool_list txs rest it' b' seen" "best_next lib it' = None" by simp_all
  then have "pool_list it' = []" using assms(5) unfolding list_pool_def by blast
  with last(1) have "txs_of b' = map pt_consensus txs" by (auto simp: taking_def simp flip: map_map)
  with seal_law_finish(3) [OF assms(6) run(3)] run(3) show ?thesis by (auto simp: comp_def)
qed

text \<open>C13. A block takes all there is room for: if the pool offers \<open>txs\<close>, which fit together within gas limit, blob
  cap and size limit, with their sidecars stored in the right kind and each valid after those before it,
  and after them nothing, or only blob transactions where \<open>txs\<close> fill the blob cap exactly, then the block of a better
  payload was finished from exactly \<open>txs\<close> in the order of the pool, and the payload carries
  exactly their versioned hashes.\<close>

theorem block_takes_what_fits:
  assumes "default_load_payload slib lib spec conf args = Some (Returned (Inr (Better p reads)))"
    and "prepare_build lib spec conf args = Inr (provider, b)"
    and "\<And>b. iterator_law lib (be_gas_limit (builder_block_env lib b))" and "lengths_law lib args"
    and "list_pool lib pool_list" and "seal_law lib plib made_for txs_of hashes_of"
    and "pool_list (pool_iterator lib b) = txs @ rest"
    and "room_for_all lib (loop_context slib lib spec args b) txs"
    and "sidecars_stored lib (loop_context slib lib spec args b) txs" and "valid_in_order lib txs_of txs"
    and "rest_is_beyond (loop_context slib lib spec args b) txs rest"
  shows "\<exists>b' reqs. finish_block lib b' provider = Inr (bp_block (lbp_inner p), reqs, reads) \<and>
    txs_of b' = map pt_consensus txs \<and>
    hashes_of (payload_v3_from_block plib (block_hash plib (bp_block (lbp_inner p))) (bp_block (lbp_inner p))) =
      concat (map (\<lambda>t. tx_hashes (pt_consensus t)) txs)"
  by (rule block_of_fitting [OF assms])

subsection \<open>The example build\<close>

lemma example_lengths_law: "lengths_law (example_build_lib sc) args"
  by (simp add: lengths_law_def example_build_lib_def small_length_def)

definition example_pool_list :: "pool_tx list \<Rightarrow> pool_tx list" where
  "example_pool_list txs = takeWhile (\<lambda>t. t = blob_tx) txs"

lemma example_list_pool: "list_pool (example_build_lib sc) example_pool_list"
  unfolding list_pool_def
proof (intro conjI allI ballI impI)
  fix it :: "pool_tx list"
  show "best_next (example_build_lib sc) it = None \<longleftrightarrow> example_pool_list it = []"
    by (cases it) (simp_all add: example_next_def example_pool_list_def)
  have "is_blob_tx blob_tx" by (simp add: is_blob_tx_def blob_tx_def)
  then have "takeWhile (\<lambda>t. t = blob_tx) (filter (\<lambda>t. \<not> is_blob_tx t) it) = []"
    "filter (\<lambda>t. \<not> is_blob_tx t) (takeWhile (\<lambda>t. t = blob_tx) it) = []"
    by (induction it) auto
  then show "example_pool_list (skip_blobs (example_build_lib sc) it) =
      filter (\<lambda>t. \<not> is_blob_tx t) (example_pool_list it)"
    by (simp add: example_pool_list_def example_build_lib_def is_blob_tx_def)
next
  fix it ptx it'
  show "best_next (example_build_lib sc) it = Some (ptx, it') \<Longrightarrow> example_pool_list it = ptx # example_pool_list it'"
    by (cases it) (auto simp: example_next_def example_pool_list_def split: if_splits)
  show "ptx \<in> set (example_pool_list it) \<Longrightarrow> 0 < tx_blobs (pt_consensus ptx)"
    by (auto simp: example_pool_list_def blob_tx_def tx_blobs_def tx_hashes_def dest!: set_takeWhileD)
qed

text \<open>The build of the example, with its preparation.\<close>

lemma example_prepared:
  assumes "default_load_payload slib (example_build_lib sc) spec conf (example_args 2) = Some (Returned (Inr (Better p ())))"
  obtains a where "prepare_build (example_build_lib sc) spec conf (example_args 2) = Inr ((), (a, []))"
proof -
  obtain q where q: "prepare_build (example_build_lib sc) spec conf (example_args 2) = Inr q"
    using assms by (auto simp: default_load_payload_def split: sum.splits)
  then have "\<exists>a. q = ((), (a, []))"
    by (auto simp: prepare_build_def Let_def rbind_eq_Inr map_err_eq_Inr example_build_lib_def)
  with q that show thesis by blast
qed

theorem build_loop_is_selection_witness:
  "\<exists>ctx b st. map_option loop_result (build_loop (example_build_lib (VarEip4844 example_sidecar)) ctx
       (initial_state [blob_tx] b)) = Some (loop_result (Finished st)) \<and>
     map_option selection_result (select (example_build_lib (VarEip4844 example_sidecar)) ctx [blob_tx] b []) =
       Some (loop_result (Finished st)) \<and> total_fees st = 42000"
proof -
  let ?lib = "example_build_lib (VarEip4844 example_sidecar)"
  let ?ctx = "\<lparr>block_gas_limit = 2000000000, base_fee = 7, ctx_max_blob_count = 1024, is_osaka = False,
    ctx_withdrawals = [], is_cancelled = (\<lambda>_. False)\<rparr>"
  let ?b = "(next_env_attributes ?lib (default_builder_config ?lib) spec (arg_parent_header (example_args 2))
      (lba_inner (arg_attributes (example_args 2))), [])"
  obtain st where st: "build_iter ?lib ?ctx blob_tx (advance [] (initial_state [blob_tx] ?b)) = Next st"
    "total_fees st = 42000" "best_txs st = []"
    using example_iter [of ?ctx "VarEip4844 example_sidecar"] by auto
  have loop: "build_loop ?lib ?ctx (initial_state [blob_tx] ?b) = Some (Finished st)"
    by (subst build_loop.simps, simp add: st, subst build_loop.simps, simp add: st)
  have "iterator_law ?lib (block_gas_limit ?ctx)"
    using example_iterator_law [of "VarEip4844 example_sidecar" ?b] by (simp add: example_build_lib_def)
  then have "selection_laws ?lib ?ctx"
    by (simp add: selection_laws_def blob_laws_def size_laws_def small_length_def example_build_lib_def)
  from build_loop_is_selection [OF this, of "[blob_tx]" ?b] loop st(2) show ?thesis
    by (intro exI [of _ ?ctx] exI [of _ ?b] exI [of _ st]) simp
qed

theorem nothing_left_out_witness:
  "\<exists>spec p ctx seen. from_genesis example_spec_lib load_dev_genesis = Inr spec \<and>
     default_load_payload example_spec_lib (example_build_lib (VarEip4844 example_sidecar)) spec
       (default_builder_config (example_build_lib (VarEip4844 example_sidecar))) (example_args 2) =
         Some (Returned (Inr (Better p ()))) \<and>
     fee_sum (taken seen) = 42000 \<and> all_right (example_build_lib (VarEip4844 example_sidecar)) ctx seen"
proof -
  let ?lib = "example_build_lib (VarEip4844 example_sidecar)"
  obtain s where s: "from_genesis example_spec_lib load_dev_genesis = Inr s"
    "\<not> is_active_at_timestamp example_spec_lib s Osaka 2" "compute_load_blob_cap example_spec_lib s 2 = 1024"
    by (rule example_specs)
  then obtain p where p: "default_load_payload example_spec_lib ?lib s (default_builder_config ?lib)
      (example_args 2) = Some (Returned (Inr (Better p ())))" "bp_fees (lbp_inner p) = 42000"
    using example_run [of example_spec_lib s "VarEip4844 example_sidecar"] by auto
  from nothing_left_out [OF p(1) example_iterator_law example_lengths_law] p s(1) show ?thesis by fastforce
qed

theorem block_takes_what_fits_witness:
  "\<exists>spec p. from_genesis example_spec_lib load_dev_genesis = Inr spec \<and>
     default_load_payload example_spec_lib (example_build_lib (VarEip4844 example_sidecar)) spec
       (default_builder_config (example_build_lib (VarEip4844 example_sidecar))) (example_args 2) =
         Some (Returned (Inr (Better p ()))) \<and>
     snd (bp_block (lbp_inner p)) = [pt_consensus blob_tx]"
proof -
  let ?lib = "example_build_lib (VarEip4844 example_sidecar)"
  let ?conf = "default_builder_config ?lib"
  obtain s where s: "from_genesis example_spec_lib load_dev_genesis = Inr s"
    "\<not> is_active_at_timestamp example_spec_lib s Osaka 2" "compute_load_blob_cap example_spec_lib s 2 = 1024"
    by (rule example_specs)
  then obtain p where p: "default_load_payload example_spec_lib ?lib s ?conf (example_args 2) =
      Some (Returned (Inr (Better p ())))"
    using example_run [of example_spec_lib s "VarEip4844 example_sidecar"] by auto
  obtain a where a: "prepare_build ?lib s ?conf (example_args 2) = Inr ((), (a, []))"
    by (rule example_prepared [OF p])
  let ?ctx = "loop_context example_spec_lib ?lib s (example_args 2) (a, [])"
  have txs: "example_pool_list (pool_iterator ?lib b) = [blob_tx]" for b
    by (simp add: example_pool_list_def example_build_lib_def)
  have ctx: "is_osaka ?ctx = False" "ctx_max_blob_count ?ctx = 1024" "block_gas_limit ?ctx = 2000000000"
    using s(2,3) by (simp_all add: loop_context_def Let_def example_args_def example_attributes_def
        example_try_new_def) (simp add: example_build_lib_def)
  have "room_for_all ?lib ctx [blob_tx] \<and> sidecars_stored ?lib ctx [blob_tx]"
    if "is_osaka ctx = False" "ctx_max_blob_count ctx = 1024" "block_gas_limit ctx = 2000000000" for ctx
    using that by (simp add: room_for_all_def sidecars_stored_def limit_sum_def blobs_sum_def blob_tx_def
        tx_blobs_def tx_hashes_def example_build_lib_def)
  from this [OF ctx] have room: "room_for_all ?lib ?ctx [blob_tx]" and stored: "sidecars_stored ?lib ?ctx [blob_tx]"
    by (rule conjunct1, rule conjunct2)
  have valid: "valid_in_order ?lib snd [blob_tx]"
    by (simp add: valid_in_order_def example_build_lib_def)
  have beyond: "rest_is_beyond ?ctx [blob_tx] []" by (simp add: rest_is_beyond_def)
  from block_takes_what_fits [OF p a example_iterator_law example_lengths_law example_list_pool example_seal_law
      _ room stored valid beyond] txs
  have "snd (bp_block (lbp_inner p)) = [pt_consensus blob_tx]" by (auto simp: example_build_lib_def)
  with p s(1) show ?thesis by blast
qed

end
