(* ===== verification/Integration_Tests.thy ===== *)
theory Integration_Tests
  imports Unit_Tests Builder_Selection
begin

section \<open>The integration tests (\<open>tests/\<close>)\<close>

text \<open>
  What the integration tests of the repository see of the code of the crate, as facts of the model: the
  payloads built from a pool of uniform blob transactions, up to the blob cap and beyond it, the
  guards of the engine, the answers of \<open>engine_getBlobs\<close> and the capabilities. Tests of upstream code alone (the
  per-transaction limit at ingress, the restart from disk) have no counterpart.
\<close>

subsection \<open>\<open>tests/blob_happy.rs\<close>\<close>

text \<open>The situation of the tests: the pool offers blob transactions that ask for 300,000 gas and carry \<open>k\<close>
  blobs each.\<close>

definition uniform_pool :: "nat \<Rightarrow> pool_tx list \<Rightarrow> bool" where
  "uniform_pool k txs \<longleftrightarrow> 0 < k \<and> (\<forall>t \<in> set txs. is_blob_tx t \<and> tx_blobs (pt_consensus t) = k \<and> pt_gas_limit t = 300000)"

lemma uniform_sums:
  assumes "uniform_pool k txs"
  shows "limit_sum txs = 300000 * length txs" "blobs_sum txs = k * length txs"
    "length (concat (map (\<lambda>t. tx_hashes (pt_consensus t)) txs)) = k * length txs"
  using assms by (induction txs) (auto simp: uniform_pool_def limit_sum_def blobs_sum_def tx_blobs_def)

lemma uniform_take: "uniform_pool k txs \<Longrightarrow> uniform_pool k (take n txs)"
  by (auto simp: uniform_pool_def dest: in_set_takeD)

lemma valid_take: "valid_in_order lib txs_of txs \<Longrightarrow> valid_in_order lib txs_of (take n txs)"
  by (simp add: valid_in_order_def min_absorb1 min_def)

lemma stored_take: "sidecars_stored lib ctx txs \<Longrightarrow> sidecars_stored lib ctx (take n txs)"
  unfolding sidecars_stored_def by (blast dest: in_set_takeD)

text \<open>A block takes the first \<open>n\<close> of them when that is all of them or fills the cap.\<close>

lemma uniform_block:
  assumes "default_load_payload slib lib spec conf args = Some (Returned (Inr (Better p reads)))"
    and "prepare_build lib spec conf args = Inr (provider, b)"
    and "\<And>b. iterator_law lib (be_gas_limit (builder_block_env lib b))" and "lengths_law lib args"
    and "list_pool lib pool_list" and "seal_law lib plib made_for txs_of hashes_of"
    and "pool_list (pool_iterator lib b) = txs" and "uniform_pool k txs"
    and "sidecars_stored lib (loop_context slib lib spec args b) txs" and "valid_in_order lib txs_of txs"
    and "spec_lib_laws slib" and "from_genesis slib g = Inr spec" and "osaka_time (config g) = None"
    and "300000 * n \<le> unat (be_gas_limit (builder_block_env lib b))"
    and "n = length txs \<and> k * n \<le> 1024 \<or> n \<le> length txs \<and> k * n = 1024"
  shows "\<exists>b' reqs. finish_block lib b' provider = Inr (bp_block (lbp_inner p), reqs, reads) \<and>
    txs_of b' = map pt_consensus (take n txs) \<and>
    length (hashes_of (payload_v3_from_block plib (block_hash plib (bp_block (lbp_inner p))) (bp_block (lbp_inner p)))) =
      k * n"
proof -
  let ?ctx = "loop_context slib lib spec args b" and ?ts = "ba_timestamp (lba_inner (arg_attributes args))"
  have "\<not> is_active_at_timestamp slib spec Osaka ?ts"
    using assms(13) by (simp add: from_genesis_active [OF assms(11,12)])
  moreover have "compute_load_blob_cap slib spec ?ts = 1024"
    using assms(13) by (simp add: builder_blob_cap [OF assms(11,12)])
  ultimately have ctx: "is_osaka ?ctx = False" "ctx_max_blob_count ?ctx = 1024"
    by (simp_all add: loop_context_def Let_def)
  have n: "n \<le> length txs" "k * n \<le> 1024" using assms(15) by auto
  note u = uniform_take [OF assms(8), of n]
  from uniform_sums [OF u] n have sums: "limit_sum (take n txs) = 300000 * n" "blobs_sum (take n txs) = k * n"
    "length (concat (map (\<lambda>t. tx_hashes (pt_consensus t)) (take n txs))) = k * n"
    by (simp_all add: min_def)
  have room: "room_for_all lib ?ctx (take n txs)"
    unfolding room_for_all_def ctx sums using assms(14) n by simp
  have beyond: "rest_is_beyond ?ctx (take n txs) (drop n txs)"
    unfolding rest_is_beyond_def ctx sums using assms(8,15)
    by (auto simp: uniform_pool_def dest: in_set_dropD intro!: gr0I)
  obtain b' reqs where "finish_block lib b' provider = Inr (bp_block (lbp_inner p), reqs, reads)"
    "txs_of b' = map pt_consensus (take n txs)"
    "hashes_of (payload_v3_from_block plib (block_hash plib (bp_block (lbp_inner p))) (bp_block (lbp_inner p))) =
      concat (map (\<lambda>t. tx_hashes (pt_consensus t)) (take n txs))"
    using block_of_fitting [OF assms(1-6) _ room stored_take [OF assms(9)] valid_take [OF assms(10)] beyond] assms(7)
    by (metis append_take_drop_id)
  with sums(3) show ?thesis by auto
qed

lemma payload_includes_blob_sidecars:
  assumes "default_load_payload slib lib spec conf args = Some (Returned (Inr (Better p reads)))"
    and "prepare_build lib spec conf args = Inr (provider, b)"
    and "\<And>b. iterator_law lib (be_gas_limit (builder_block_env lib b))" and "lengths_law lib args"
    and "list_pool lib pool_list" and "seal_law lib plib made_for txs_of hashes_of"
    and "pool_list (pool_iterator lib b) = txs" and "uniform_pool k txs"
    and "sidecars_stored lib (loop_context slib lib spec args b) txs" and "valid_in_order lib txs_of txs"
    and "spec_lib_laws slib" and "from_genesis slib g = Inr spec" and "osaka_time (config g) = None"
    and "be_gas_limit (builder_block_env lib b) = LOAD_EXECUTION_GAS_LIMIT"
    and "length txs = 8 \<and> k = 1 \<or> length txs = 12 \<and> k = 2"
  shows "\<exists>b' reqs. finish_block lib b' provider = Inr (bp_block (lbp_inner p), reqs, reads) \<and>
    txs_of b' = map pt_consensus txs \<and>
    length (hashes_of (payload_v3_from_block plib (block_hash plib (bp_block (lbp_inner p))) (bp_block (lbp_inner p)))) =
      (if k = 1 then 8 else 24)"
  using uniform_block [OF assms(1-13), of "length txs"] assms(14,15) by (auto simp: load_constants)

text \<open>32 transactions with 32 blobs each fill the cap of 1024 exactly; of 33 the last one is left out.\<close>

lemma payload_handles_near_full_and_truncates_over_cap:
  assumes "default_load_payload slib lib spec conf args = Some (Returned (Inr (Better p reads)))"
    and "prepare_build lib spec conf args = Inr (provider, b)"
    and "\<And>b. iterator_law lib (be_gas_limit (builder_block_env lib b))" and "lengths_law lib args"
    and "list_pool lib pool_list" and "seal_law lib plib made_for txs_of hashes_of"
    and "pool_list (pool_iterator lib b) = txs" and "uniform_pool 32 txs"
    and "sidecars_stored lib (loop_context slib lib spec args b) txs" and "valid_in_order lib txs_of txs"
    and "spec_lib_laws slib" and "from_genesis slib g = Inr spec" and "osaka_time (config g) = None"
    and "be_gas_limit (builder_block_env lib b) = LOAD_EXECUTION_GAS_LIMIT"
    and "length txs = 32 \<or> length txs = 33"
  shows "\<exists>b' reqs. finish_block lib b' provider = Inr (bp_block (lbp_inner p), reqs, reads) \<and>
    txs_of b' = map pt_consensus (take 32 txs) \<and>
    length (hashes_of (payload_v3_from_block plib (block_hash plib (bp_block (lbp_inner p))) (bp_block (lbp_inner p)))) =
      unat LOAD_MAX_BLOB_COUNT"
  using uniform_block [OF assms(1-13), of 32] assms(14,15) by (auto simp: load_constants)

subsection \<open>\<open>tests/blob_caps.rs\<close> and \<open>tests/payload_attrs.rs\<close>\<close>

text \<open>A payload the node built, sent back with more hashes than the cap, is refused for them.\<close>

lemma payload_with_too_many_versioned_hashes_is_rejected:
  assumes "handed_out plib hashes_of attrs p e" and "1024 < length hs"
  shows "convert_payload_to_block slib vlib self (data_v3 (execution_payload e) hs root) =
    Inl (NewPayloadOther (InvalidParams (too_many_hashes_message (length hs))))"
  using assms by (simp add: handed_out_def convert_payload_to_block_def ensure_load_payload_invariants_def
      payload_v3_prev_randao_def data_defs load_constants)

text \<open>Execution requests come with the payload before Prague is active at its timestamp.\<close>

lemma prague_requests_rejected_before_activation:
  assumes "handed_out plib hashes_of attrs p e" and "length hs \<le> 1024"
    and "\<not> is_active_at_timestamp slib (val_chain_spec self) Prague (builder_timestamp attrs)"
    and "sidecar_requests vlib (ed_sidecar (led_inner (data_v4 (execution_payload e) hs root reqs))) \<noteq> None"
  shows "\<exists>err. convert_payload_to_block slib vlib self (data_v4 (execution_payload e) hs root reqs) =
    Inl (NewPayloadOther err)"
  using assms by (auto simp: handed_out_def convert_payload_to_block_def ensure_load_payload_invariants_def
      payload_v3_prev_randao_def data_defs load_constants)

lemma prague_requests_accepted_after_activation:
  assumes "handed_out plib hashes_of attrs p e" and "length hs \<le> 1024"
    and "is_active_at_timestamp slib (val_chain_spec self) Prague (builder_timestamp attrs)"
    and "eth_ensure_well_formed_payload vlib (led_inner (data_v4 (execution_payload e) hs root reqs)) = Inr blk"
  shows "convert_payload_to_block slib vlib self (data_v4 (execution_payload e) hs root reqs) = Inr blk"
  using assms by (auto simp: handed_out_def convert_payload_to_block_def ensure_load_payload_invariants_def
      payload_v3_prev_randao_def data_defs load_constants)

subsection \<open>\<open>tests/engine_guards.rs\<close> and \<open>tests/engine_smoke.rs\<close>\<close>

lemma forkchoice_rejects_wrong_prev_randao:
  "ensure_well_formed_attributes vlib version (example_attributes 1 B256_ZERO) = Inl (InvalidParams RANDAO_MESSAGE)"
  "rpc_fork_choice_updated_v3 api d state (Some (example_attributes 1 B256_ZERO)) st =
     (Inl (EngineObjectValidationError (InvalidParams RANDAO_MESSAGE)), st)"
  using LOAD_PREVRANDAO_not_zero
  by (simp_all add: ensure_well_formed_attributes_def check_attributes_randao_def attributes_prev_randao_def
      example_attributes_def rpc_fork_choice_updated_v3_def check_optional_attributes_def ensure_load_prev_randao_def)

lemma forkchoice_accepts_constant_prev_randao:
  "eth_validate_version_specific_fields vlib version (PayloadAttributesCase (example_attributes 1 LOAD_PREVRANDAO)) = Inr () \<Longrightarrow>
   ensure_well_formed_attributes vlib version (example_attributes 1 LOAD_PREVRANDAO) = Inr ()"
  by (simp add: ensure_well_formed_attributes_def check_attributes_randao_def attributes_prev_randao_def
      example_attributes_def)

lemma engine_rpc_smoke_serves_caps:
  "capabilities_law api \<Longrightarrow> {''load.blobs.1024'', ''load.prev_randao.0x01''} \<subseteq>
   set (rpc_exchange_capabilities api build [''eth''])"
  by (simp add: capabilities_exchanged)

subsection \<open>\<open>tests/blob_retrieval.rs\<close>\<close>

lemma engine_get_blobs_rejects_requests_over_cap:
  "rpc_get_blobs_v1 api (replicate 1025 B256_ZERO) st = (Inl (BlobRequestTooLarge 1025), st)"
  by (simp add: rpc_get_blobs_v1_def check_osaka_def validate_blob_request_def load_constants)

lemma engine_get_blobs_v2_v3_rejected_before_osaka:
  assumes "\<not> is_active_at_timestamp lib (inner_chain_spec api) Osaka (unix_secs clock)"
  shows "rpc_get_blobs_v2 lib api clock [] st = (Inl (EngineObjectValidationError UnsupportedFork), st)"
    and "rpc_get_blobs_v3 lib api clock [] st = (Inl (EngineObjectValidationError UnsupportedFork), st)"
  using assms by (simp_all add: rpc_get_blobs_v2_def rpc_get_blobs_v3_def check_osaka_def)

lemma engine_get_blobs_v3_rejects_requests_over_cap:
  "is_active_at_timestamp lib (inner_chain_spec api) Osaka (unix_secs clock) \<Longrightarrow>
   rpc_get_blobs_v3 lib api clock (replicate 1025 B256_ZERO) st = (Inl (BlobRequestTooLarge 1025), st)"
  by (simp add: rpc_get_blobs_v3_def check_osaka_def validate_blob_request_def load_constants)

lemma engine_get_blobs_v3_returns_null_when_syncing:
  "is_active_at_timestamp lib (inner_chain_spec api) Osaka (unix_secs clock) \<Longrightarrow>
   network_is_syncing api (inner_state st) \<Longrightarrow> rpc_get_blobs_v3 lib api clock [h] st = (Inr None, st)"
  by (simp add: rpc_get_blobs_v3_def check_osaka_def validate_blob_request_def load_constants)

lemma engine_get_blobs_returns_available_sidecars:
  assumes "length hs \<le> 1024" and "pool_blobs_v1 api hs (inner_state st) = Inr blobs"
  shows "fst (rpc_get_blobs_v1 api hs st) = Inr blobs"
  using assms by (simp add: rpc_get_blobs_v1_def check_osaka_def validate_blob_request_def load_constants Let_def)

end
