(* ===== verification/Spec2Isabelle.thy ===== *)
theory Spec2Isabelle
  imports Backpressure_Sim Spec_Traits Node Integration_Tests
begin

text \<open>
  A verification development of \<open>load-reth\<close>, the execution client of Load Network (Rust crate under
  \<open>src/\<close>). The crate is a thin layer over \<open>reth\<close>: it pins PREVRANDAO to the constant \<open>0x01\<close>, forces
  blob limits of its own (at most 1024 blobs per block, target 512, at most 32 per transaction),
  restricts which genesis files are accepted, selects transactions with its own payload builder,
  wraps the Engine API with guards and metrics, and limits the RPC calls in flight.

  \<^bold>\<open>How the parts interact.\<close> A genesis is validated, normalised and turned into a chain spec
  (\<open>chainspec/mod.rs\<close>), which every other part reads. The consensus client talks to the Engine API
  wrapper (\<open>engine/rpc.rs\<close>): it refuses requests that break the Load invariants, forwards the
  rest to the upstream engine and serves \<open>engine_getBlobs\<close> from the pool. The engine asks the
  validator (\<open>engine/validator.rs\<close>) about payloads and attributes, and the payload builder
  (\<open>engine/builder.rs\<close>) for new payloads, which leave through the envelope conversions of
  \<open>engine/payload.rs\<close>. Execution takes its environments from \<open>evm/mod.rs\<close>. User transactions
  enter through the RPC server behind the backpressure layer (\<open>rpc/backpressure.rs\<close>) into the pool
  sized by \<open>pool/mod.rs\<close>.

  \<^bold>\<open>Theories.\<close>
  \<^item> \<open>Prelude\<close>: Rust integer types as words, \<open>Result\<close> as a sum with its \<open>?\<close> operator, saturating
    and checked operations, decimal printing and parsing, the number a text denotes; the shared lemma
    collections.
  \<^item> \<open>Eth_Types\<close>: the upstream data types whose fields the sources name.
  \<^item> \<open>Chainspec\<close> (\<open>chainspec/mod.rs\<close>): constants, \<open>validate_genesis\<close>, \<open>from_genesis\<close>, \<open>parse_chain\<close>,
    the two built-in genesis files. Shown: exactly which genesis files are accepted, the normal
    form of an accepted one, and the chain id, forks and blob parameters of the spec.
  \<^item> \<open>Spec_Traits\<close> (\<open>chainspec/mod.rs\<close>): the trait implementations of the spec, and what they answer
    about the fork schedule of an accepted genesis.
  \<^item> \<open>Payload\<close> (\<open>engine/payload.rs\<close>, \<open>lib.rs\<close>, \<open>transaction/mod.rs\<close>): the PREVRANDAO guard as the locale
    \<open>randao_guard\<close>, attributes, built payloads and envelopes, execution data. \<open>Payload_Access\<close>: the
    accessors and the conversions that cannot fail.
  \<^item> \<open>Evm\<close> (\<open>evm/mod.rs\<close>): enforcement of the blob limits; the locale \<open>load_env_source\<close> is the contract of the
    three environment constructors and interpreted on each. \<open>Evm_Config\<close> (with \<open>consensus/mod.rs\<close>):
    construction, the delegating methods and the component builders.
  \<^item> \<open>Pool\<close> (\<open>pool/mod.rs\<close>): sizing arithmetic at machine width, wrap-around included. \<open>Pool_Build\<close>:
    \<open>build_pool\<close> as a whole, with the effects it leaves behind on success and on every failure.
  \<^item> \<open>Validator\<close> (\<open>engine/validator.rs\<close>): the Load invariants in front of the upstream checks.
  \<^item> \<open>Metrics\<close> (\<open>metrics.rs\<close>, \<open>version.rs\<close>): metric handles as state, client identity strings.
  \<^item> \<open>Engine_Rpc\<close> (\<open>engine/rpc.rs\<close>): every handler as a function from the state of the node to a
    result and a new state; the locale \<open>guarded_handler\<close> covers the three guarded handlers;
    sessions of requests, invariants of the engine and metrics over a session. \<open>Engine_Build\<close>: how
    the node builds the API, and how the result identifies itself.
  \<^item> \<open>Builder\<close> (\<open>engine/builder.rs\<close>): the selection loop in the order of the code; the locale
    \<open>iteration_invariant\<close> carries an invariant of one iteration to the whole loop, \<open>loop_invariant\<close>
    reduces it to the two ways an iteration changes the bookkeeping; interpreted for the
    blob count, the gas and fee accounts, the sidecars, the RLP size and the provenance of the
    transactions.
  \<^item> \<open>Builder_Env\<close>: the block builder behind the loop; the locale \<open>block_builder_invariant\<close> relates it to
    the transactions included so far and is interpreted for the block environment and for the
    transactions of the block. Shown: no panic, and execution in the Load environment.
    \<open>Builder_Outcome\<close>: what each way a build can end says about it. \<open>Builder_Selection\<close>: a specification of
    the selection without counters, in unbounded arithmetic, that the loop is equal to; the locale
    \<open>selection_invariant\<close> carries an invariant over a selection and is interpreted for the reasons of the
    rulings. Shown: what is left out was left out for a reason, and a block takes all that fits together, up to the blob cap.
  \<^item> \<open>Payload_Cycle\<close>: the life of a payload across builder, envelopes, wrapper, validator and EVM: from the
    attributes of a forkchoice update through any sequence of builds (finished, aborted, cancelled or failed,
    each with the best payload so far) to the envelope, back through \<open>engine_newPayload\<close>, and its
    execution in the environment it was built in.
  \<^item> \<open>Backpressure\<close> (\<open>rpc/backpressure.rs\<close>): configuration, gates, calls, abandoned calls, batches,
    notifications, one operation at a time; the locale \<open>permit_gate\<close> is the contract of acquire and
    release; the well-formedness of the state and its preservation.
  \<^item> \<open>Backpressure_Conc\<close>: one gate with any number of concurrent calls, interleaved at the granularity
    of its atomic operations; a simulation shows that the events of every execution (permits taken and
    given back, calls refused) are a trace of a counting semaphore, and that the gate can always drain. \<open>Backpressure_Layer\<close>: the three gates of a layer side by side, and
    the exactness of their metric counters.
  \<^item> \<open>Backpressure_Service\<close>: any number of clients of the layer, as futures that work through calls,
    notifications and batches, interleaved at the granularity of the atomic operations and dropped
    while they wait for the inner service; an invariant relates the futures to the calls on the
    gates. \<open>Backpressure_Sim\<close>: the sequential service of \<open>Backpressure\<close> is simulated by these futures.
  \<^item> \<open>Node\<close> (\<open>node/mod.rs\<close>, \<open>rpc/mod.rs\<close>, \<open>main.rs\<close>): the network the node starts, its component builders and
    add-ons, and the start of the process as a sequence of effects with its exit in every case.
  \<^item> \<open>Unit_Tests\<close>: the unit tests of the crate, one lemma each, as facts of the model; \<open>Integration_Tests\<close>: what
    the tests under \<open>tests/\<close> see of its code, such as the 33rd transaction of 32 blobs that stays out of the block.
  \<^item> This theory: the properties that span components.

  \<^bold>\<open>Reading the model.\<close> Code that is not part of the repository is a parameter: the records
  \<open>spec_lib\<close>, \<open>spec_traits\<close>, \<open>parser_lib\<close>, \<open>payload_lib\<close>, \<open>conversion_lib\<close>, \<open>upstream_evm\<close>, \<open>evm_lib\<close>,
  \<open>blob_lib\<close>, \<open>validator_lib\<close>, \<open>inner_api\<close>, \<open>engine_lib\<close>, \<open>build_lib\<close>, \<open>pool_lib\<close>, \<open>rpc_lib\<close>, \<open>network_lib\<close>,
  \<open>add_ons_lib\<close> and \<open>main_lib\<close> hold the upstream functions the code calls, and a property that relies on
  one states the documented behaviour as a named hypothesis (\<open>spec_lib_laws\<close>, \<open>iterator_law\<close>,
  \<open>push_law\<close>, \<open>blob_tx_law\<close>, \<open>append_law\<close>, \<open>try_new_law\<close>; of the block builder \<open>block_env_law\<close>,
  \<open>better_law\<close>, \<open>next_env_law\<close>, \<open>replay_law\<close>, \<open>tip_law\<close> and \<open>seal_law\<close>, for a set of them \<open>job_laws\<close>; of an iterator over a list \<open>list_pool\<close>; \<open>validator_law\<close>, \<open>engine_lib_law\<close>, \<open>capabilities_law\<close>,
  \<open>network_law\<close>, \<open>evm_lib_law\<close>, \<open>activation_law\<close>). The instances with prefix \<open>example\<close> show that
  these hypotheses can hold. A panic is a result of its own (\<open>None\<close> for the envelope
  conversion, a constructor for the builder and for \<open>main\<close>), a loop that need not end is a
  partial function. Effects outside the program (tasks that are spawned, the blob store, the steps
  of \<open>main\<close>) are lists in the order of the code.

  \<^bold>\<open>Loops.\<close> No fuel is used. The selection loop of the builder is a \<open>partial_function\<close> because the
  pool's iterator need not end; over an iterator with a decreasing measure it is proved to return.
  The compare-exchange loop is a \<open>partial_function\<close> as well and returns as soon as one weak
  exchange does not fail spuriously. The metrics task of the pool never ends; it is run for a given
  sequence of readings. All other recursion is structural.

  \<^bold>\<open>Bounds.\<close> Integers have the width of the code, and \<open>+\<close> wraps as in the release profile; that
  blob counts, gas, fees and byte sizes do not wrap is part of the properties, under the
  documented bounds of the values read from upstream (\<open>blob_laws\<close>, \<open>size_laws\<close>, \<open>lengths_law\<close>).

  \<^bold>\<open>Not modelled.\<close> Logging; the associated types and trait bounds that tie the components
  together at compile time (\<open>node/mod.rs\<close>, \<open>engine/mod.rs\<close>, \<open>primitives/mod.rs\<close>); the macro-generated
  conversion of the Engine API into an RPC module; the allocator and the texts of error messages
  that are only printed.

  \<^bold>\<open>Environment.\<close> Three things around the program are left open and only constrained to what they may do: the payload
  job, which calls \<open>try_build\<close> any number of times, one job for each payload id; the clients and the scheduler of the RPC server,
  which may interleave and drop futures in any way; and the consensus client, which may send any sequence of
  requests.
\<close>

section \<open>Properties across components\<close>

subsection \<open>RPC guards and engine validator\<close>

text \<open>C6. The RPC wrapper and the engine validator enforce the same rules: for a spec made from an
  accepted genesis, a \<open>newPayloadV3/V4\<close> call is passed on to the engine exactly when its data
  satisfies the invariants the validator checks later; otherwise it is refused at the RPC with
  no change of state.\<close>

theorem rpc_and_validator_agree:
  fixes api :: "('s, 'x, 'env, 'k, 'c) inner_api"
  assumes "spec_lib_laws slib" and "from_genesis slib g = Inr s"
  shows "(if load_payload_ok slib vlib s (data_v3 p hs root)
      then rpc_new_payload_v3 api d p hs root st =
        metered record_new_payload d (new_payload_v3_metered api (data_v3 p hs root)) st
      else \<exists>e. rpc_new_payload_v3 api d p hs root st = (Inl e, st)) \<and>
    (if load_payload_ok slib vlib s (data_v4 p hs root reqs)
      then rpc_new_payload_v4 api d p hs root reqs st =
        metered record_new_payload d (new_payload_v4_metered api (data_v4 p hs root reqs)) st
      else \<exists>e. rpc_new_payload_v4 api d p hs root reqs st = (Inl e, st))"
proof -
  have ok: "load_payload_ok slib vlib s (data_v3 p hs root) \<longleftrightarrow>
      new_payload_guard p hs = (Inr () :: 'x engine_api_error + unit)"
    "load_payload_ok slib vlib s (data_v4 p hs root reqs) \<longleftrightarrow>
      new_payload_guard p hs = (Inr () :: 'x engine_api_error + unit)"
    by (auto simp: load_payload_ok_from_genesis [OF assms] new_payload_guard_ok
        payload_v3_prev_randao_def data_defs)
  show ?thesis
    using new_payload_v3.passed [of "(p, hs, root)" _ api d st]
      new_payload_v3.refused [of "(p, hs, root)" _ api d st]
      new_payload_v4.passed [of "(p, hs, root, reqs)" _ api d st]
      new_payload_v4.refused [of "(p, hs, root, reqs)" _ api d st]
    by (cases "new_payload_guard p hs :: 'x engine_api_error + unit") (auto simp: ok)
qed

theorem rpc_and_validator_agree_witness:
  "\<exists>e. rpc_new_payload_v3 example_inner 5 (example_payload_v3 B256_ZERO) [] B256_ZERO example_api_state =
     (Inl e, example_api_state)"
proof -
  obtain s where s: "from_genesis example_spec_lib load_dev_genesis = Inr s" by (rule example_specs)
  have "\<not> load_payload_ok example_spec_lib example_validator_lib s
      (data_v3 (example_payload_v3 B256_ZERO) [] B256_ZERO)"
    using LOAD_PREVRANDAO_not_zero by (simp add: load_payload_ok_def data_defs example_payload_v3_def)
  with rpc_and_validator_agree [OF example_spec_lib_laws s, of example_validator_lib
      "example_payload_v3 B256_ZERO" "[]" B256_ZERO example_inner 5 example_api_state]
  show ?thesis by auto
qed

subsection \<open>Payload attributes\<close>

text \<open>C18. The guards on payload attributes agree: attributes with the PREVRANDAO constant pass the
  wrapper of \<open>engine_forkchoiceUpdatedV3\<close>, pass the engine validator exactly if they pass upstream's
  version check, become builder attributes, and are then only refused for a timestamp that is
  not after the parent's; any others are refused by all four, by the RPC without touching the
  engine.\<close>

theorem attribute_guards_agree:
  fixes api :: "('s, 'x, 'env, 'k, 'c) inner_api"
  assumes "try_new_law eth_new"
  shows "if attributes_prev_randao a = LOAD_PREVRANDAO
    then rpc_fork_choice_updated_v3 api d fcs (Some a) st =
        metered record_forkchoice d (fork_choice_updated_v3_metered api fcs (Some a)) st \<and>
      ensure_well_formed_attributes vlib version a =
        eth_validate_version_specific_fields vlib version (PayloadAttributesCase a) \<and>
      (\<exists>attrs. try_new eth_new parent a v = Inr attrs \<and>
        (\<forall>parent_ts. validate_payload_attributes parent_ts attrs =
          (if parent_ts < attributes_timestamp a then Inr ()
           else Inl (InvalidTimestamp (''timestamp '' @ show_word (attributes_timestamp a) @
                  '' must be greater than parent '' @ show_word parent_ts)))))
    else (\<exists>e. rpc_fork_choice_updated_v3 api d fcs (Some a) st = (Inl e, st)) \<and>
      ensure_well_formed_attributes vlib version a = Inl (InvalidParams RANDAO_MESSAGE) \<and>
      \<not> is_ok (try_new eth_new parent a v) \<and>
      (\<forall>parent_ts. \<not> is_ok (validate_payload_attributes parent_ts \<lparr>lba_inner = eth_new parent (lpa_inner a) v\<rparr>))"
proof (cases "attributes_prev_randao a = LOAD_PREVRANDAO")
  case True
  have "check_optional_attributes (Some a) = (Inr () :: 'x engine_api_error + unit)"
    using True by (simp add: check_optional_attributes_def rpc_randao.accepts_iff)
  from fork_choice_v3.passed [of "(fcs, Some a)" "()" api d st] this
  have "rpc_fork_choice_updated_v3 api d fcs (Some a) st =
      metered record_forkchoice d (fork_choice_updated_v3_metered api fcs (Some a)) st" by simp
  moreover obtain attrs where "try_new eth_new parent a v = Inr attrs"
    using payload_attributes_guard [OF assms, of parent a v] True by (auto simp: is_ok_iff)
  ultimately show ?thesis
    using True payload_attributes_guard [OF assms, of parent a v]
    by (auto simp: ensure_well_formed_attributes_def check_attributes_randao_def)
next
  case False
  obtain e where "check_optional_attributes (Some a) = (Inl e :: 'x engine_api_error + unit)"
    using rpc_randao.rejects [OF False] by (auto simp: check_optional_attributes_def)
  from fork_choice_v3.refused [of "(fcs, Some a)" e api d st] this
  have "\<exists>e. rpc_fork_choice_updated_v3 api d fcs (Some a) st = (Inl e, st)" by auto
  moreover have "\<not> is_ok (validate_payload_attributes ts \<lparr>lba_inner = eth_new parent (lpa_inner a) v\<rparr>)" for ts
    using assms False by (simp add: is_ok_iff validate_payload_attributes_ok try_new_law_def attributes_prev_randao_def)
  ultimately show ?thesis
    using False payload_attributes_guard [OF assms, of parent a v]
    by (auto simp: ensure_well_formed_attributes_def check_attributes_randao_def)
qed

theorem attribute_guards_agree_witness:
  "(\<exists>attrs. try_new example_try_new B256_ZERO (example_attributes 2 LOAD_PREVRANDAO) 3 = Inr attrs \<and>
     is_ok (validate_payload_attributes 1 attrs)) \<and>
   (\<forall>fcs. \<exists>e. rpc_fork_choice_updated_v3 example_inner 5 fcs (Some (example_attributes 2 B256_ZERO))
      example_api_state = (Inl e, example_api_state))"
proof (intro conjI allI)
  have "attributes_prev_randao (example_attributes 2 LOAD_PREVRANDAO) = LOAD_PREVRANDAO"
    "attributes_timestamp (example_attributes 2 LOAD_PREVRANDAO) = 2"
    by (simp_all add: example_attributes_def attributes_prev_randao_def attributes_timestamp_def)
  then show "\<exists>attrs. try_new example_try_new B256_ZERO (example_attributes 2 LOAD_PREVRANDAO) 3 = Inr attrs \<and>
     is_ok (validate_payload_attributes 1 attrs)"
    using attribute_guards_agree [OF example_try_new_law, where a = "example_attributes 2 LOAD_PREVRANDAO"
        and parent = B256_ZERO and v = 3]
    by fastforce
next
  fix fcs
  have "attributes_prev_randao (example_attributes 2 B256_ZERO) \<noteq> LOAD_PREVRANDAO"
    using LOAD_PREVRANDAO_not_zero by (simp add: example_attributes_def attributes_prev_randao_def)
  then show "\<exists>e. rpc_fork_choice_updated_v3 example_inner 5 fcs (Some (example_attributes 2 B256_ZERO))
      example_api_state = (Inl e, example_api_state)"
    using attribute_guards_agree [OF example_try_new_law, where a = "example_attributes 2 B256_ZERO"
        and api = example_inner and d = 5 and st = example_api_state and fcs = fcs
        and vlib = example_validator_lib and version = 3 and parent = B256_ZERO and v = 3]
    by simp
qed

subsection \<open>One set of limits\<close>

text \<open>C31. The blob limits of the components for a spec made from an accepted genesis: the EVM uses 1024
  blobs per block at every timestamp, while builder and pool read the fork schedule. They agree
  exactly as long as Osaka is not active (or upstream's Osaka allows at least 1024 blobs); from
  Osaka on the builder stops at the upstream maximum although the EVM still allows 1024.\<close>

theorem blob_limits_agree_until_osaka:
  assumes "spec_lib_laws slib" and "from_genesis slib g = Inr spec"
    and "up_chain_spec (evm_inner evm) = spec"
  shows "max_blob_count (load_blob_params_at slib evm ts) = 1024 \<and>
    (compute_load_blob_cap slib spec ts = max_blob_count (load_blob_params_at slib evm ts) \<longleftrightarrow>
       \<not> is_active_at_timestamp slib spec Osaka ts \<or> 1024 \<le> max_blob_count (osaka_params slib)) \<and>
    blob_params_at_timestamp slib spec ts =
      Some (if is_active_at_timestamp slib spec Osaka ts then osaka_params slib
            else load_blob_params slib)"
proof -
  have "min (max_blob_count (osaka_params slib)) 1024 = 1024 \<longleftrightarrow> 1024 \<le> max_blob_count (osaka_params slib)"
    by (auto simp: min_def)
  then show ?thesis
    by (simp add: compute_load_blob_cap_def from_genesis_blob_params [OF assms(1,2)]
        load_blob_params_def LOAD_MAX_BLOB_COUNT_def)
qed

theorem blob_limits_agree_until_osaka_witness:
  "\<exists>spec. from_genesis example_spec_lib osaka_genesis = Inr spec \<and>
     compute_load_blob_cap example_spec_lib spec 2 \<noteq>
       max_blob_count (load_blob_params_at example_spec_lib
         (example_evm\<lparr>evm_inner := (evm_inner example_evm)\<lparr>up_chain_spec := spec\<rparr>\<rparr>) 2)"
proof -
  obtain s where s: "from_genesis example_spec_lib osaka_genesis = Inr s"
    "is_active_at_timestamp example_spec_lib s Osaka 2" "compute_load_blob_cap example_spec_lib s 2 = 9"
    by (rule example_osaka_spec)
  have "\<not> 1024 \<le> max_blob_count (osaka_params example_spec_lib)"
    by (simp add: example_spec_lib_def Let_def word_le_nat_alt)
  with s blob_limits_agree_until_osaka [OF example_spec_lib_laws s(1), of
      "example_evm\<lparr>evm_inner := (evm_inner example_evm)\<lparr>up_chain_spec := s\<rparr>\<rparr>" 2]
  show ?thesis by auto
qed

subsection \<open>Local block production\<close>

text \<open>C32. Local block production goes through: the attributes the local builder makes for a parent,
  turned into builder attributes, are never refused by the payload builder (for a parent whose
  timestamp is not the last possible one), and over a finite pool the build returns: it
  neither runs forever nor panics, and ends with a payload or an error that is not about the attributes.\<close>

theorem local_production_accepted:
  assumes "try_new_law eth_new" and "finite_iterator lib remaining"
    and "block_env_law lib" and "tip_law lib"
    and "hd_timestamp parent \<noteq> - 1"
  shows "\<exists>attrs r. try_new eth_new (hd_hash parent) (build_local_attributes slib spec random parent) v = Inr attrs \<and>
    build_empty_payload slib lib spec conf parent attrs = Some (Returned r) \<and>
    (\<forall>e. r \<noteq> Inl (AttributesError e))"
proof -
  let ?rpc = "build_local_attributes slib spec random parent"
  have a: "pa_prev_randao (lpa_inner ?rpc) = LOAD_PREVRANDAO"
    "pa_timestamp (lpa_inner ?rpc) = hd_timestamp parent + 1"
    by (simp_all add: build_local_attributes_def Let_def)
  define attrs where "attrs = \<lparr>lba_inner = eth_new (hd_hash parent) (lpa_inner ?rpc) v\<rparr>"
  have new: "try_new eth_new (hd_hash parent) ?rpc v = Inr attrs"
    using assms(1) a by (simp add: try_new_ok try_new_law_def attrs_def)
  have valid: "validate_payload_attributes (hd_timestamp parent) attrs = Inr ()"
    using assms(1,5) a by (simp add: validate_payload_attributes_ok try_new_law_def attrs_def less_plus_1_iff)
  obtain run where run: "build_empty_payload slib lib spec conf parent attrs = Some run"
    using build_empty_payload_returns [OF assms(2)] by blast
  have "run \<noteq> Panicked"
    using run build_empty_payload_panics default_load_payload_no_panic [OF assms(3,4)] by metis
  with run obtain r where r: "build_empty_payload slib lib spec conf parent attrs = Some (Returned r)"
    by (cases run) simp_all
  have "r \<noteq> Inl (AttributesError e)" for e
    using r valid build_empty_payload_attributes_error [of slib lib spec conf parent attrs e] by auto
  with new r show ?thesis by blast
qed

theorem local_production_accepted_witness:
  "\<exists>attrs r. try_new example_try_new B256_ZERO (build_local_attributes example_spec_lib
       \<lparr>spec_inner = spec_of_genesis example_spec_lib load_dev_genesis\<rparr> B256_ZERO
       (arg_parent_header (example_args 2))) 3 = Inr attrs \<and>
     build_empty_payload example_spec_lib (example_build_lib (VarEip4844 example_sidecar))
       \<lparr>spec_inner = spec_of_genesis example_spec_lib load_dev_genesis\<rparr>
       (default_builder_config (example_build_lib (VarEip4844 example_sidecar)))
       (arg_parent_header (example_args 2)) attrs = Some (Returned r) \<and>
     (\<forall>e. r \<noteq> Inl (AttributesError e))"
proof -
  have "hd_timestamp (arg_parent_header (example_args 2)) \<noteq> - 1"
    "hd_hash (arg_parent_header (example_args 2)) = B256_ZERO"
    by (simp_all add: example_args_def)
  with local_production_accepted [OF example_try_new_law example_finite example_block_env_law
      example_tip_law this(1), of example_spec_lib
      "\<lparr>spec_inner = spec_of_genesis example_spec_lib load_dev_genesis\<rparr>" B256_ZERO 3]
  show ?thesis by metis
qed

end
